theory Spec2Isabelle
  imports Complex_Main
begin

section \<open>Bashins Budget: state, persistence and aggregates of script.js\<close>

text \<open>
  The development follows \<^verbatim>\<open>src/script.js\<close>. JavaScript values are trees, numbers are
  the JavaScript numbers with their three special values, and the global variables of the
  script are the fields of one record that every function takes and returns.

  Three conventions are used throughout and stated here once.
  \<^item> A finite number is given by its value, a rational, and arithmetic rounds as
    binary64 does. The two zeros, which \<^verbatim>\<open>===\<close> does not tell apart and which
    \<^verbatim>\<open>JSON.stringify\<close> writes alike, are one value.
  \<^item> A string is a list of bytes, the UTF-8 encoding of the JavaScript string.
  \<^item> An object is the list of its own properties in the order in which they were added;
    what it inherits is what \<^verbatim>\<open>Object.prototype\<close> gives every object, and for an array
    \<^verbatim>\<open>Array.prototype\<close>. The place that JavaScript gives to integer-like names is not
    represented. A list that names a property twice stands for no object.
\<close>

subsection \<open>Numbers\<close>

text \<open>
  \<open>Fin q\<close> is the finite number of value \<open>q\<close>. The numbers of binary64 are the
  \<open>m * 2\<^sup>e\<close> with \<open>\<bar>m\<bar> < 2\<^sup>5\<^sup>3\<close>, \<open>- 1074 \<le> e\<close> and a value below \<open>2\<^sup>1\<^sup>0\<^sup>2\<^sup>4\<close>;
  \<open>Fin q\<close> with any other \<open>q\<close> stands for no number. The arithmetic below and the
  reading of a string return only numbers of binary64.
\<close>

datatype number = NaN | Infinity | NegInfinity | Fin rat

definition isNaN :: "number \<Rightarrow> bool" where
  "isNaN n = (n = NaN)"

text \<open>The integer nearest to a rational, and of two equally near ones the even one.\<close>

definition round_even :: "rat \<Rightarrow> int" where
  "round_even x =
     (let n = \<lfloor>x\<rfloor>; d = x - of_int n
      in if d < 1 / 2 then n else if 1 / 2 < d then n + 1 else if even n then n else n + 1)"

text \<open>
  The distance between neighbouring binary64 numbers at the magnitude \<open>x\<close>: the first
  of \<open>q\<close>, \<open>2 * q\<close>, \<open>4 * q\<close>, ... of which \<open>x\<close> is less than \<open>2\<^sup>5\<^sup>3\<close> times.
\<close>

function quantum :: "rat \<Rightarrow> rat \<Rightarrow> rat" where
  "quantum q x = (if 0 < q \<and> 2 ^ 53 * q \<le> x then quantum (2 * q) x else q)"
  by pat_completeness auto

termination
proof (relation "measure (\<lambda>(q, x). nat \<lceil>x / q\<rceil>)")
  show "wf (measure (\<lambda>(q, x). nat \<lceil>x / q\<rceil>))" by simp
next
  fix q x :: rat
  assume a: "0 < q \<and> 2 ^ 53 * q \<le> x"
  have t: "2 ^ 53 \<le> x / q" using a by (simp add: pos_le_divide_eq)
  have "of_int \<lceil>x / q / 2\<rceil> < x / q / 2 + 1" by linarith
  also have "\<dots> < x / q" using t by simp
  also have "\<dots> \<le> of_int \<lceil>x / q\<rceil>" by linarith
  finally have "\<lceil>x / q / 2\<rceil> < \<lceil>x / q\<rceil>" by simp
  moreover have "0 < \<lceil>x / q\<rceil>" using t by (simp add: less_ceiling_iff)
  moreover have "x / (2 * q) = x / q / 2" by simp
  ultimately have "nat \<lceil>x / (2 * q)\<rceil> < nat \<lceil>x / q\<rceil>"
    by (simp only: zless_nat_conj)
  then show "((2 * q, x), (q, x)) \<in> measure (\<lambda>(q, x). nat \<lceil>x / q\<rceil>)"
    by simp
qed

declare quantum.simps [simp del]

text \<open>
  The binary64 number for a rational: the nearest one, of two equally near ones that
  with the even significand, and an infinity when that is \<open>2\<^sup>1\<^sup>0\<^sup>2\<^sup>4\<close> or more in
  magnitude. The smallest distance between two binary64 numbers is \<open>2\<^sup>-\<^sup>1\<^sup>0\<^sup>7\<^sup>4\<close>.
\<close>

definition binary64 :: "rat \<Rightarrow> number" where
  "binary64 x =
     (let q = quantum (1 / 2 ^ 1074) \<bar>x\<bar>;
          y = of_int (round_even (\<bar>x\<bar> / q)) * q
      in if 2 ^ 1024 \<le> y then (if 0 < x then Infinity else NegInfinity)
         else Fin (if 0 < x then y else - y))"

text \<open>\<^verbatim>\<open>a * b\<close> on numbers.\<close>

fun times_number :: "number \<Rightarrow> number \<Rightarrow> number" where
  "times_number NaN _ = NaN"
| "times_number _ NaN = NaN"
| "times_number (Fin a) (Fin b) = binary64 (a * b)"
| "times_number (Fin a) Infinity =
     (if a = 0 then NaN else if 0 < a then Infinity else NegInfinity)"
| "times_number (Fin a) NegInfinity =
     (if a = 0 then NaN else if 0 < a then NegInfinity else Infinity)"
| "times_number Infinity (Fin b) =
     (if b = 0 then NaN else if 0 < b then Infinity else NegInfinity)"
| "times_number NegInfinity (Fin b) =
     (if b = 0 then NaN else if 0 < b then NegInfinity else Infinity)"
| "times_number Infinity Infinity = Infinity"
| "times_number Infinity NegInfinity = NegInfinity"
| "times_number NegInfinity Infinity = NegInfinity"
| "times_number NegInfinity NegInfinity = Infinity"

text \<open>\<^verbatim>\<open>a / b\<close> on numbers; a zero divisor is taken to be \<open>+0\<close>. The script divides by
  \<open>100\<close> only.\<close>

fun divide_number :: "number \<Rightarrow> number \<Rightarrow> number" where
  "divide_number NaN _ = NaN"
| "divide_number _ NaN = NaN"
| "divide_number (Fin a) (Fin b) =
     (if b = 0 then (if a = 0 then NaN else if 0 < a then Infinity else NegInfinity)
      else binary64 (a / b))"
| "divide_number (Fin a) Infinity = Fin 0"
| "divide_number (Fin a) NegInfinity = Fin 0"
| "divide_number Infinity (Fin b) = (if 0 \<le> b then Infinity else NegInfinity)"
| "divide_number NegInfinity (Fin b) = (if 0 \<le> b then NegInfinity else Infinity)"
| "divide_number Infinity Infinity = NaN"
| "divide_number Infinity NegInfinity = NaN"
| "divide_number NegInfinity Infinity = NaN"
| "divide_number NegInfinity NegInfinity = NaN"


text \<open>\<^verbatim>\<open>a <= b\<close> on numbers: false as soon as one side is \<open>NaN\<close>.\<close>

fun le_number :: "number \<Rightarrow> number \<Rightarrow> bool" where
  "le_number NaN _ = False"
| "le_number _ NaN = False"
| "le_number (Fin a) (Fin b) = (a \<le> b)"
| "le_number NegInfinity _ = True"
| "le_number _ Infinity = True"
| "le_number Infinity _ = False"
| "le_number _ NegInfinity = False"

text \<open>
  \<^verbatim>\<open>Math.round\<close>: the integer closest to the argument, and of two equally close integers
  the one nearer to \<open>+\<infinity>\<close>. That integer is a binary64 number when the argument is one.
\<close>

fun Math_round :: "number \<Rightarrow> number" where
  "Math_round (Fin q) = Fin (of_int \<lfloor>q + 1 / 2\<rfloor>)"
| "Math_round n = n"

subsection \<open>Values\<close>

datatype jsval =
    JUndefined
  | JNull
  | JBool bool
  | JNum number
  | JStr string
  | JArr "jsval list"
  | JObj "(string \<times> jsval) list"

text \<open>Truthiness, as \<^verbatim>\<open>!v\<close>, \<^verbatim>\<open>if (v)\<close> and \<^verbatim>\<open>a || b\<close> test it.\<close>

fun truthy :: "jsval \<Rightarrow> bool" where
  "truthy JUndefined = False"
| "truthy JNull = False"
| "truthy (JBool b) = b"
| "truthy (JNum n) = (n \<noteq> NaN \<and> n \<noteq> Fin 0)"
| "truthy (JStr s) = (s \<noteq> [])"
| "truthy (JArr _) = True"
| "truthy (JObj _) = True"

definition js_or :: "jsval \<Rightarrow> jsval \<Rightarrow> jsval" where
  "js_or a b = (if truthy a then a else b)"

text \<open>\<^verbatim>\<open>typeof v === 'object'\<close>: true of objects, of arrays and of \<^verbatim>\<open>null\<close>.\<close>

fun typeof_object :: "jsval \<Rightarrow> bool" where
  "typeof_object JNull = True"
| "typeof_object (JArr _) = True"
| "typeof_object (JObj _) = True"
| "typeof_object _ = False"

datatype exn = TypeError | SyntaxError | QuotaExceededError | SecurityError

text \<open>
  \<^verbatim>\<open>v.k\<close> for one of the property names the script reads (\<^verbatim>\<open>id\<close>, \<^verbatim>\<open>category\<close>,
  \<^verbatim>\<open>amount\<close>, the five fields of the state): a \<^verbatim>\<open>TypeError\<close> on \<^verbatim>\<open>null\<close> and
  \<^verbatim>\<open>undefined\<close>, the property of an object, \<^verbatim>\<open>undefined\<close> on everything else.
\<close>

fun get_prop :: "jsval \<Rightarrow> string \<Rightarrow> exn + jsval" where
  "get_prop JUndefined k = Inl TypeError"
| "get_prop JNull k = Inl TypeError"
| "get_prop (JObj kvs) k = Inr (case map_of kvs k of None \<Rightarrow> JUndefined | Some v \<Rightarrow> v)"
| "get_prop _ k = Inr JUndefined"

subsection \<open>Strings to numbers\<close>

text \<open>
  The characters of a string: in UTF-8 the first byte of a character tells how many
  bytes it has.
\<close>

definition char_bytes :: "char \<Rightarrow> nat" where
  "char_bytes c =
     (if of_char c < (0xC0 :: nat) then 1
      else if of_char c < (0xE0 :: nat) then 2
      else if of_char c < (0xF0 :: nat) then 3
      else 4)"

fun chars :: "string \<Rightarrow> string list" where
  "chars [] = []"
| "chars (c # s) = (c # take (char_bytes c - 1) s) # chars (drop (char_bytes c - 1) s)"

text \<open>
  The white space and the line terminators of ECMAScript: U+0009 to U+000D, U+0020,
  U+00A0, U+1680, U+2000 to U+200A, U+2028, U+2029, U+202F, U+205F, U+3000 and U+FEFF.
\<close>

definition white_space :: "string list" where
  "white_space =
     [[CHR 0x09], [CHR 0x0A], [CHR 0x0B], [CHR 0x0C], [CHR 0x0D], [CHR 0x20],
      [CHR 0xC2, CHR 0xA0], [CHR 0xE1, CHR 0x9A, CHR 0x80],
      [CHR 0xE2, CHR 0x80, CHR 0x80], [CHR 0xE2, CHR 0x80, CHR 0x81],
      [CHR 0xE2, CHR 0x80, CHR 0x82], [CHR 0xE2, CHR 0x80, CHR 0x83],
      [CHR 0xE2, CHR 0x80, CHR 0x84], [CHR 0xE2, CHR 0x80, CHR 0x85],
      [CHR 0xE2, CHR 0x80, CHR 0x86], [CHR 0xE2, CHR 0x80, CHR 0x87],
      [CHR 0xE2, CHR 0x80, CHR 0x88], [CHR 0xE2, CHR 0x80, CHR 0x89],
      [CHR 0xE2, CHR 0x80, CHR 0x8A], [CHR 0xE2, CHR 0x80, CHR 0xA8],
      [CHR 0xE2, CHR 0x80, CHR 0xA9], [CHR 0xE2, CHR 0x80, CHR 0xAF],
      [CHR 0xE2, CHR 0x81, CHR 0x9F], [CHR 0xE3, CHR 0x80, CHR 0x80],
      [CHR 0xEF, CHR 0xBB, CHR 0xBF]]"

definition is_ws :: "string \<Rightarrow> bool" where
  "is_ws ch = (ch \<in> set white_space)"

text \<open>\<^verbatim>\<open>s.trim()\<close>.\<close>

definition trim :: "string \<Rightarrow> string" where
  "trim s = concat (rev (dropWhile is_ws (rev (dropWhile is_ws (chars s)))))"

definition digit_of :: "char \<Rightarrow> nat option" where
  "digit_of = map_of
     [(CHR ''0'', 0), (CHR ''1'', 1), (CHR ''2'', 2), (CHR ''3'', 3), (CHR ''4'', 4),
      (CHR ''5'', 5), (CHR ''6'', 6), (CHR ''7'', 7), (CHR ''8'', 8), (CHR ''9'', 9),
      (CHR ''a'', 10), (CHR ''b'', 11), (CHR ''c'', 12), (CHR ''d'', 13), (CHR ''e'', 14),
      (CHR ''f'', 15),
      (CHR ''A'', 10), (CHR ''B'', 11), (CHR ''C'', 12), (CHR ''D'', 13), (CHR ''E'', 14),
      (CHR ''F'', 15)]"

definition is_digit :: "nat \<Rightarrow> char \<Rightarrow> bool" where
  "is_digit base c = (case digit_of c of None \<Rightarrow> False | Some d \<Rightarrow> d < base)"

definition digits_value :: "nat \<Rightarrow> string \<Rightarrow> nat" where
  "digits_value base ds = foldl (\<lambda>a c. a * base + (case digit_of c of None \<Rightarrow> 0 | Some d \<Rightarrow> d)) 0 ds"

text \<open>A non-empty run of digits of the given base, and nothing else.\<close>

definition all_digits :: "nat \<Rightarrow> string \<Rightarrow> nat option" where
  "all_digits base ds =
     (if ds \<noteq> [] \<and> list_all (is_digit base) ds then Some (digits_value base ds) else None)"

text \<open>The \<open>ExponentPart\<close> of a decimal literal, or nothing: the power of ten to scale by.\<close>

fun exponent_part :: "string \<Rightarrow> int option" where
  "exponent_part [] = Some 0"
| "exponent_part (c # t) =
     (if c = CHR ''e'' \<or> c = CHR ''E'' then
        (case t of
           s # ds \<Rightarrow>
             (if s = CHR ''+'' then map_option int (all_digits 10 ds)
              else if s = CHR ''-'' then map_option (\<lambda>n. - int n) (all_digits 10 ds)
              else map_option int (all_digits 10 t))
         | [] \<Rightarrow> None)
      else None)"

definition pow10 :: "int \<Rightarrow> rat" where
  "pow10 e = (if 0 \<le> e then 10 ^ nat e else 1 / 10 ^ nat (- e))"

text \<open>\<open>StrUnsignedDecimalLiteral\<close> without \<^verbatim>\<open>Infinity\<close>: digits, fraction, exponent;
  the value the literal has in mathematics.\<close>

definition unsigned_decimal :: "string \<Rightarrow> rat option" where
  "unsigned_decimal s =
     (let ip = takeWhile (is_digit 10) s;
          r1 = dropWhile (is_digit 10) s;
          fp = (case r1 of c # t \<Rightarrow> if c = CHR ''.'' then takeWhile (is_digit 10) t else []
                | [] \<Rightarrow> []);
          r2 = (case r1 of c # t \<Rightarrow> if c = CHR ''.'' then dropWhile (is_digit 10) t else r1
                | [] \<Rightarrow> [])
      in if ip = [] \<and> fp = [] then None
         else (case exponent_part r2 of
                 None \<Rightarrow> None
               | Some e \<Rightarrow>
                   Some ((of_nat (digits_value 10 ip)
                          + of_nat (digits_value 10 fp) / 10 ^ length fp) * pow10 e)))"

text \<open>A signed decimal literal: the binary64 number for its value.\<close>

definition str_decimal :: "string \<Rightarrow> number" where
  "str_decimal s =
     (let neg = (case s of c # _ \<Rightarrow> c = CHR ''-'' | [] \<Rightarrow> False);
          u = (case s of c # t \<Rightarrow> if c = CHR ''+'' \<or> c = CHR ''-'' then t else s | [] \<Rightarrow> [])
      in if u = ''Infinity'' then (if neg then NegInfinity else Infinity)
         else (case unsigned_decimal u of
                 None \<Rightarrow> NaN
               | Some q \<Rightarrow> binary64 (if neg then - q else q)))"

text \<open>\<open>NonDecimalIntegerLiteral\<close>: \<^verbatim>\<open>0x\<close>, \<^verbatim>\<open>0o\<close> and \<^verbatim>\<open>0b\<close> literals, which take no sign.\<close>

definition non_decimal :: "string \<Rightarrow> number option" where
  "non_decimal s =
     (case s of
        z # p # ds \<Rightarrow>
          (if z \<noteq> CHR ''0'' then None
           else if p = CHR ''x'' \<or> p = CHR ''X'' then
             Some (case all_digits 16 ds of None \<Rightarrow> NaN | Some n \<Rightarrow> binary64 (of_nat n))
           else if p = CHR ''o'' \<or> p = CHR ''O'' then
             Some (case all_digits 8 ds of None \<Rightarrow> NaN | Some n \<Rightarrow> binary64 (of_nat n))
           else if p = CHR ''b'' \<or> p = CHR ''B'' then
             Some (case all_digits 2 ds of None \<Rightarrow> NaN | Some n \<Rightarrow> binary64 (of_nat n))
           else None)
      | _ \<Rightarrow> None)"

text \<open>\<open>StringToNumber\<close>: the empty and the blank string are \<open>0\<close>, a string that is no
  numeric literal is \<open>NaN\<close>.\<close>

definition StringToNumber :: "string \<Rightarrow> number" where
  "StringToNumber s =
     (let t = trim s
      in if t = [] then Fin 0
         else (case non_decimal t of Some n \<Rightarrow> n | None \<Rightarrow> str_decimal t))"

text \<open>
  \<^verbatim>\<open>Number(v)\<close> turns an object or an array into a primitive value first, by the
  methods \<^verbatim>\<open>valueOf\<close> and \<^verbatim>\<open>toString\<close>. The inherited \<^verbatim>\<open>valueOf\<close> returns the object
  itself, so the string decides. An own property named \<^verbatim>\<open>toString\<close> hides the
  inherited method, and the values considered here hold no function: such an object has
  no string, and the conversion throws a \<^verbatim>\<open>TypeError\<close>. The string of an array joins
  the strings of its elements, so an array that holds such an object, at any depth, has
  no string either.
\<close>

fun no_string :: "jsval \<Rightarrow> bool" where
  "no_string (JObj kvs) = (''toString'' \<in> set (map fst kvs))"
| "no_string (JArr xs) = (\<exists>x \<in> set xs. no_string x)"
| "no_string _ = False"

text \<open>
  The number for a value that has a string. An array goes through its string: the
  empty array is the empty string, a one-element array is its element's string
  (\<^verbatim>\<open>null\<close> and \<^verbatim>\<open>undefined\<close> count as the empty string there), and two or more
  elements give a string with a comma, which is no number. An object's string is
  \<^verbatim>\<open>[object Object]\<close>. A number read back from its own string is that number.
\<close>

fun ToNumber :: "jsval \<Rightarrow> number" where
  "ToNumber JUndefined = NaN"
| "ToNumber JNull = Fin 0"
| "ToNumber (JBool b) = (if b then Fin 1 else Fin 0)"
| "ToNumber (JNum n) = n"
| "ToNumber (JStr s) = StringToNumber s"
| "ToNumber (JObj _) = NaN"
| "ToNumber (JArr []) = Fin 0"
| "ToNumber (JArr [x]) =
     (case x of
        JUndefined \<Rightarrow> Fin 0
      | JNull \<Rightarrow> Fin 0
      | JBool _ \<Rightarrow> NaN
      | JNum n \<Rightarrow> n
      | JStr s \<Rightarrow> StringToNumber s
      | JArr ys \<Rightarrow> ToNumber (JArr ys)
      | JObj _ \<Rightarrow> NaN)"
| "ToNumber (JArr (x # y # zs)) = NaN"

definition Number :: "jsval \<Rightarrow> exn + number" where
  "Number v = (if no_string v then Inl TypeError else Inr (ToNumber v))"

text \<open>
  \<^verbatim>\<open>
  function toNumber(value) {
      const num = Number(value);
      return isNaN(num) ? 0 : Math.round(num * 100) / 100;
  }
  \<close>
\<close>

definition toNumber :: "jsval \<Rightarrow> exn + number" where
  "toNumber v =
     (case Number v of
        Inl e \<Rightarrow> Inl e
      | Inr num \<Rightarrow>
          Inr (if isNaN num then Fin 0
               else divide_number (Math_round (times_number num (Fin 100))) (Fin 100)))"

text \<open>
  The rounding the specification describes: to the nearest integer with a half going
  away from zero, and with it to two decimals on the value scaled by 100.
\<close>

definition round_half_away :: "rat \<Rightarrow> int" where
  "round_half_away s = (if s < 0 then - \<lfloor>- s + 1 / 2\<rfloor> else \<lfloor>s + 1 / 2\<rfloor>)"

definition round_half_away_2dp :: "rat \<Rightarrow> rat" where
  "round_half_away_2dp q = of_int (round_half_away (q * 100)) / 100"

subsection \<open>JSON documents and stored strings\<close>

text \<open>
  A string kept in \<^verbatim>\<open>localStorage\<close> is represented by what \<^verbatim>\<open>JSON.parse\<close> reads in it:
  \<open>Doc n j\<close> is the \<open>n\<close>-th of the texts that spell the document \<open>j\<close>, of which the one
  that \<^verbatim>\<open>JSON.stringify\<close> writes is counted first (\<open>n = 0\<close>) and the others differ from
  it in white space, in escapes or in the way a number is written; \<open>Raw s\<close> is the
  string \<open>s\<close> when it is not JSON text (\<open>Raw []\<close> is the empty string). A numeral of a
  document is represented by the number \<^verbatim>\<open>JSON.parse\<close> reads in it: \<open>JsNumber q\<close> is
  a numeral read as the finite number \<open>q\<close> (so \<^verbatim>\<open>1e-400\<close>, which is read as zero, is
  \<open>JsNumber 0\<close>), and \<open>JsHuge neg\<close> is a numeral beyond the range of binary64, such as
  \<^verbatim>\<open>1e400\<close>, which is read as \<^verbatim>\<open>Infinity\<close>, or as \<^verbatim>\<open>-Infinity\<close> when it has a minus
  sign (\<open>neg\<close>).
\<close>

datatype json =
    JsNull
  | JsBool bool
  | JsNumber rat
  | JsHuge bool
  | JsString string
  | JsArray "json list"
  | JsObject "(string \<times> json) list"

datatype blob = Doc nat json | Raw string

fun blob_truthy :: "blob \<Rightarrow> bool" where
  "blob_truthy (Doc _ _) = True"
| "blob_truthy (Raw s) = (s \<noteq> [])"

text \<open>\<^verbatim>\<open>o[k] = v\<close> on the property list of an object: the property keeps its place when it
  exists and is added at the end when it does not.\<close>

fun set_prop :: "(string \<times> 'v) list \<Rightarrow> string \<Rightarrow> 'v \<Rightarrow> (string \<times> 'v) list" where
  "set_prop [] k v = [(k, v)]"
| "set_prop ((k', v') # kvs) k v =
     (if k' = k then (k', v) # kvs else (k', v') # set_prop kvs k v)"

text \<open>The object a member list builds: of a name written twice the last value stays.\<close>

definition object_of :: "(string \<times> jsval) list \<Rightarrow> (string \<times> jsval) list" where
  "object_of kvs = foldl (\<lambda>acc kv. set_prop acc (fst kv) (snd kv)) [] kvs"

text \<open>The value \<^verbatim>\<open>JSON.parse\<close> returns for a document.\<close>

primrec of_json :: "json \<Rightarrow> jsval" where
  "of_json JsNull = JNull"
| "of_json (JsBool b) = JBool b"
| "of_json (JsNumber q) = JNum (Fin q)"
| "of_json (JsHuge neg) = JNum (if neg then NegInfinity else Infinity)"
| "of_json (JsString s) = JStr s"
| "of_json (JsArray xs) = JArr (map of_json xs)"
| "of_json (JsObject kvs) = JObj (object_of (map (map_prod id of_json) kvs))"

definition JSON_parse :: "blob \<Rightarrow> exn + jsval" where
  "JSON_parse b = (case b of Doc n j \<Rightarrow> Inr (of_json j) | Raw s \<Rightarrow> Inl SyntaxError)"

text \<open>
  The document \<^verbatim>\<open>JSON.stringify\<close> writes for a value, \<open>None\<close> where it returns
  \<^verbatim>\<open>undefined\<close>: \<open>NaN\<close> and the infinities are written \<^verbatim>\<open>null\<close>, an
  \<^verbatim>\<open>undefined\<close> array element is written \<^verbatim>\<open>null\<close>, and a property whose value is
  \<^verbatim>\<open>undefined\<close> is left out.
\<close>

primrec to_json :: "jsval \<Rightarrow> json option" where
  "to_json JUndefined = None"
| "to_json JNull = Some JsNull"
| "to_json (JBool b) = Some (JsBool b)"
| "to_json (JNum n) = Some (case n of Fin q \<Rightarrow> JsNumber q | _ \<Rightarrow> JsNull)"
| "to_json (JStr s) = Some (JsString s)"
| "to_json (JArr xs) =
     Some (JsArray (map (\<lambda>r. case r of None \<Rightarrow> JsNull | Some j \<Rightarrow> j) (map to_json xs)))"
| "to_json (JObj kvs) =
     Some (JsObject (concat (map (\<lambda>kr. case snd kr of None \<Rightarrow> [] | Some j \<Rightarrow> [(fst kr, j)])
                               (map (map_prod id to_json) kvs))))"

definition JSON_stringify :: "jsval \<Rightarrow> blob option" where
  "JSON_stringify v = map_option (Doc 0) (to_json v)"

subsection \<open>The globals of the script\<close>

definition LS_KEY :: string where
  "LS_KEY = ''bashinsBudgetData_v1''"

text \<open>The object \<^verbatim>\<open>state\<close>: always these five properties, each holding any value.\<close>

record ledger =
  expenseCategories :: jsval
  incomeCategories :: jsval
  budgets :: jsval
  expenses :: jsval
  incomes :: jsval

definition state_object :: "ledger \<Rightarrow> jsval" where
  "state_object L = JObj
     [(''expenseCategories'', expenseCategories L),
      (''incomeCategories'', incomeCategories L),
      (''budgets'', budgets L),
      (''expenses'', expenses L),
      (''incomes'', incomes L)]"

text \<open>The literal \<^verbatim>\<open>DEFAULT\<close>; the category names with their letters outside ASCII in UTF-8.\<close>

definition DEFAULT_literal :: ledger where
  "DEFAULT_literal =
     \<lparr> expenseCategories = JArr (map JStr
          [''Hyra'', ''Mat'', ''Egenv'' @ [CHR 0xC3, CHR 0xA5] @ ''rd'', ''Transport'',
           ''N'' @ [CHR 0xC3, CHR 0xB6] @ ''je'', ''Abonnemang'',
           ''Kl'' @ [CHR 0xC3, CHR 0xA4] @ ''der'', ''Presenter'', ''Resor'',
           ''H'' @ [CHR 0xC3, CHR 0xA4] @ ''lsa & tr'' @ [CHR 0xC3, CHR 0xA4] @ ''ning'',
           ''Sparande'', [CHR 0xC3, CHR 0x96] @ ''vrigt'']),
       incomeCategories = JArr (map JStr [''CSN'', ''Jobb'', ''Extra'']),
       budgets = JObj [],
       expenses = JArr [],
       incomes = JArr [] \<rparr>"

text \<open>
  \<^verbatim>\<open>localStorage\<close> belongs to the browser. It is a parameter: a state of any type \<open>'s\<close>
  with the two methods the modelled functions call, each of which may throw.
  \<^verbatim>\<open>getItem\<close> returns \<^verbatim>\<open>null\<close> (\<open>None\<close>) for a key that is not there.
\<close>

record 's Storage =
  getItem :: "'s \<Rightarrow> string \<Rightarrow> exn + blob option"
  setItem :: "'s \<Rightarrow> string \<Rightarrow> blob \<Rightarrow> exn + 's"

text \<open>
  The global variables. \<^verbatim>\<open>let state = { ...DEFAULT }\<close> copies the five properties
  of \<^verbatim>\<open>DEFAULT\<close> and not the arrays and the object they hold, so \<^verbatim>\<open>state.expenses\<close> and
  \<^verbatim>\<open>DEFAULT.expenses\<close> are one array until \<^verbatim>\<open>state.expenses\<close> is assigned another;
  \<open>DEFAULT\<close> is what the object \<^verbatim>\<open>DEFAULT\<close> holds now, and the three \<open>shares\<close> flags
  say which of the containers of \<^verbatim>\<open>state\<close> are still those of \<^verbatim>\<open>DEFAULT\<close>.
  \<open>reminderTimer\<close> is \<open>True\<close> while the variable holds a timer and \<open>False\<close> while it
  is \<^verbatim>\<open>null\<close>.
\<close>

record 's world =
  state :: ledger
  DEFAULT :: ledger
  shares_budgets :: bool
  shares_expenses :: bool
  shares_incomes :: bool
  hasUnsavedChanges :: bool
  reminderTimer :: bool
  localStorage :: 's

text \<open>The globals when the script has been loaded and \<^verbatim>\<open>initializeApp\<close> has run.\<close>

definition initial_world :: "'s \<Rightarrow> 's world" where
  "initial_world ls =
     \<lparr> state = DEFAULT_literal, DEFAULT = DEFAULT_literal,
       shares_budgets = True, shares_expenses = True, shares_incomes = True,
       hasUnsavedChanges = False, reminderTimer = False, localStorage = ls \<rparr>"

subsection \<open>The reminder\<close>

definition clearReminderTimer :: "'s world \<Rightarrow> 's world" where
  "clearReminderTimer w = (if reminderTimer w then w\<lparr>reminderTimer := False\<rparr> else w)"

definition startReminderTimer :: "'s world \<Rightarrow> 's world" where
  "startReminderTimer w = (clearReminderTimer w)\<lparr>reminderTimer := True\<rparr>"

definition markUnsavedChanges :: "'s world \<Rightarrow> 's world" where
  "markUnsavedChanges w = startReminderTimer (w\<lparr>hasUnsavedChanges := True\<rparr>)"

definition markSavedChanges :: "'s world \<Rightarrow> 's world" where
  "markSavedChanges w = clearReminderTimer (w\<lparr>hasUnsavedChanges := False\<rparr>)"

subsection \<open>saveState and loadState\<close>

text \<open>
  \<^verbatim>\<open>
  function saveState() {
      try {
          if (!state || typeof state !== 'object') { ...; return false; }
          const stateString = JSON.stringify(state);
          if (!stateString || stateString === '{}') { ...; return false; }
          localStorage.setItem(LS_KEY, stateString);
          const verification = localStorage.getItem(LS_KEY);
          if (verification === stateString) { markSavedChanges(); ...; return true; }
          else { ...; return false; }
      } catch (error) { ...; showMessage(...); return false; }
  }
  \<close>
  First the \<^verbatim>\<open>try\<close> block: the value it returns, or the exception that leaves it, and
  the globals at that moment. \<^verbatim>\<open>state\<close> is an object, so the first test of the block
  never returns.
\<close>

definition saveState_try :: "'s Storage \<Rightarrow> 's world \<Rightarrow> (exn + bool) \<times> 's world" where
  "saveState_try api w =
     (case JSON_stringify (state_object (state w)) of
        None \<Rightarrow> (Inr False, w)
      | Some stateString \<Rightarrow>
          if stateString = Raw [] \<or> stateString = Doc 0 (JsObject []) then (Inr False, w)
          else
            (case setItem api (localStorage w) LS_KEY stateString of
               Inl e \<Rightarrow> (Inl e, w)
             | Inr ls \<Rightarrow>
                 (case getItem api ls LS_KEY of
                    Inl e \<Rightarrow> (Inl e, w\<lparr>localStorage := ls\<rparr>)
                  | Inr verification \<Rightarrow>
                      if verification = Some stateString
                      then (Inr True, markSavedChanges (w\<lparr>localStorage := ls\<rparr>))
                      else (Inr False, w\<lparr>localStorage := ls\<rparr>))))"

text \<open>\<^verbatim>\<open>saveState\<close>: the \<^verbatim>\<open>catch\<close> clause logs, shows a message and returns \<^verbatim>\<open>false\<close>.\<close>

definition saveState :: "'s Storage \<Rightarrow> 's world \<Rightarrow> bool \<times> 's world" where
  "saveState api w =
     (case saveState_try api w of
        (Inl e, w') \<Rightarrow> (False, w')
      | (Inr r, w') \<Rightarrow> (r, w'))"

text \<open>
  \<^verbatim>\<open>
  function loadState() {
      try {
          const saved = localStorage.getItem(LS_KEY);
          if (saved) {
              const parsed = JSON.parse(saved);
              if (parsed && typeof parsed === 'object') {
                  state = {
                      expenseCategories: parsed.expenseCategories || DEFAULT.expenseCategories,
                      incomeCategories: parsed.incomeCategories || DEFAULT.incomeCategories,
                      budgets: parsed.budgets || {},
                      expenses: parsed.expenses || [],
                      incomes: parsed.incomes || []
                  };
                  return true;
              }
          }
      } catch (error) { ...; showMessage(...); }
      state = { ...DEFAULT };
      return false;
  }
  \<close>
  First the object literal, field by field.
\<close>

definition merged :: "jsval \<Rightarrow> ledger \<Rightarrow> exn + ledger" where
  "merged parsed d =
     (case get_prop parsed ''expenseCategories'' of Inl e \<Rightarrow> Inl e | Inr ec \<Rightarrow>
      case get_prop parsed ''incomeCategories'' of Inl e \<Rightarrow> Inl e | Inr ic \<Rightarrow>
      case get_prop parsed ''budgets'' of Inl e \<Rightarrow> Inl e | Inr b \<Rightarrow>
      case get_prop parsed ''expenses'' of Inl e \<Rightarrow> Inl e | Inr ex \<Rightarrow>
      case get_prop parsed ''incomes'' of Inl e \<Rightarrow> Inl e | Inr i \<Rightarrow>
        Inr \<lparr> expenseCategories = js_or ec (expenseCategories d),
              incomeCategories = js_or ic (incomeCategories d),
              budgets = js_or b (JObj []),
              expenses = js_or ex (JArr []),
              incomes = js_or i (JArr []) \<rparr>)"

text \<open>\<^verbatim>\<open>state = { ...DEFAULT }; return false;\<close>\<close>

definition use_default :: "'s world \<Rightarrow> bool \<times> 's world" where
  "use_default w =
     (False, w\<lparr>state := DEFAULT w,
               shares_budgets := True, shares_expenses := True, shares_incomes := True\<rparr>)"

definition loadState :: "'s Storage \<Rightarrow> 's world \<Rightarrow> bool \<times> 's world" where
  "loadState api w =
     (case getItem api (localStorage w) LS_KEY of
        Inl e \<Rightarrow> use_default w
      | Inr None \<Rightarrow> use_default w
      | Inr (Some saved) \<Rightarrow>
          if blob_truthy saved then
            (case JSON_parse saved of
               Inl e \<Rightarrow> use_default w
             | Inr parsed \<Rightarrow>
                 if truthy parsed \<and> typeof_object parsed then
                   (case merged parsed (DEFAULT w) of
                      Inl e \<Rightarrow> use_default w
                    | Inr L \<Rightarrow>
                        (True, w\<lparr>state := L, shares_budgets := False,
                                  shares_expenses := False, shares_incomes := False\<rparr>))
                 else use_default w)
          else use_default w)"

subsection \<open>What the script takes from its surroundings\<close>

text \<open>
  One record holds what a handler reads from outside the script while it runs:
  \<^verbatim>\<open>Date.now()\<close>, the string \<^verbatim>\<open>Math.random().toString(36)\<close>, the string
  \<^verbatim>\<open>new Date().toISOString()\<close>, the answer to \<^verbatim>\<open>confirm(...)\<close>, and whether
  \<^verbatim>\<open>renderAll()\<close>, which only writes to the page, returns or throws.
\<close>

record env =
  now_ms :: nat
  random36 :: string
  now_iso :: string
  confirm :: bool
  renderAll_returns :: bool

text \<open>The value of a form field: \<open>None\<close> when the page has no element of that id, so
  that \<^verbatim>\<open>document.getElementById(id)?.value\<close> is \<^verbatim>\<open>undefined\<close>.\<close>

record expense_form =
  expenseCategory :: "string option"
  expenseDesc :: "string option"
  expenseAmount :: "string option"

record income_form =
  incomeSource :: "string option"
  incomeAmount :: "string option"

definition of_input :: "string option \<Rightarrow> jsval" where
  "of_input x = (case x of None \<Rightarrow> JUndefined | Some s \<Rightarrow> JStr s)"

text \<open>The decimal digits of a natural number, as \<^verbatim>\<open>toString()\<close> writes an integer.\<close>

fun toString_nat :: "nat \<Rightarrow> string" where
  "toString_nat n =
     (if n < 10 then [''0123456789'' ! n]
      else toString_nat (n div 10) @ [''0123456789'' ! (n mod 10)])"

declare toString_nat.simps [simp del]

text \<open>
  \<^verbatim>\<open>
  function generateId() {
      return Date.now().toString() + Math.random().toString(36).substr(2, 9);
  }
  \<close>
\<close>

definition generateId :: "env \<Rightarrow> string" where
  "generateId e = toString_nat (now_ms e) @ take 9 (drop 2 (random36 e))"

text \<open>What a handler did: it showed a validation message and returned, the user declined
  the confirmation, it ran to its end with this value of \<^verbatim>\<open>saved\<close>, or an exception
  left it.\<close>

datatype validation = MissingCategory | MissingSource | InvalidAmount

datatype outcome = Rejected validation | Cancelled | Done bool | Uncaught exn

subsection \<open>Adding\<close>

text \<open>\<^verbatim>\<open>state.expenses.push(expense)\<close>: only an array has a \<^verbatim>\<open>push\<close>; the array is
  changed in place, so \<^verbatim>\<open>DEFAULT.expenses\<close> changes with it while it is the same array.\<close>

definition push_expense :: "jsval \<Rightarrow> 's world \<Rightarrow> exn + 's world" where
  "push_expense x w =
     (case expenses (state w) of
        JArr xs \<Rightarrow>
          Inr (w\<lparr>state := (state w)\<lparr>expenses := JArr (xs @ [x])\<rparr>,
                 DEFAULT := (if shares_expenses w
                             then (DEFAULT w)\<lparr>expenses := JArr (xs @ [x])\<rparr>
                             else DEFAULT w)\<rparr>)
      | _ \<Rightarrow> Inl TypeError)"

definition push_income :: "jsval \<Rightarrow> 's world \<Rightarrow> exn + 's world" where
  "push_income x w =
     (case incomes (state w) of
        JArr xs \<Rightarrow>
          Inr (w\<lparr>state := (state w)\<lparr>incomes := JArr (xs @ [x])\<rparr>,
                 DEFAULT := (if shares_incomes w
                             then (DEFAULT w)\<lparr>incomes := JArr (xs @ [x])\<rparr>
                             else DEFAULT w)\<rparr>)
      | _ \<Rightarrow> Inl TypeError)"

text \<open>The end that the four handlers share: \<^verbatim>\<open>renderAll()\<close>, then
  \<^verbatim>\<open>const saved = saveState(); if (saved) { markUnsavedChanges(); ... }\<close>.\<close>

definition render_and_save :: "'s Storage \<Rightarrow> env \<Rightarrow> 's world \<Rightarrow> outcome \<times> 's world" where
  "render_and_save api e w =
     (if renderAll_returns e then
        (case saveState api w of
           (saved, w') \<Rightarrow> if saved then (Done True, markUnsavedChanges w') else (Done False, w'))
      else (Uncaught TypeError, w))"

text \<open>The expense that \<^verbatim>\<open>onAddExpense\<close> builds for the amount \<^verbatim>\<open>numAmount\<close>.\<close>

definition new_expense :: "env \<Rightarrow> expense_form \<Rightarrow> number \<Rightarrow> jsval" where
  "new_expense e f numAmount = JObj
     [(''id'', JStr (generateId e)),
      (''category'', of_input (expenseCategory f)),
      (''amount'', JNum numAmount),
      (''desc'', js_or (of_input (map_option trim (expenseDesc f))) (JStr ''Ingen beskrivning'')),
      (''date'', JStr (now_iso e))]"

text \<open>
  \<^verbatim>\<open>
  function onAddExpense() {
      const category = document.getElementById('expenseCategory')?.value;
      const desc = document.getElementById('expenseDesc')?.value?.trim();
      const amount = document.getElementById('expenseAmount')?.value;
      if (!category) { showMessage(...); return; }
      const numAmount = toNumber(amount);
      if (numAmount <= 0) { showMessage(...); return; }
      const expense = { id: generateId(), category: category, amount: numAmount,
                        desc: desc || 'Ingen beskrivning', date: new Date().toISOString() };
      state.expenses.push(expense);
      document.getElementById('expenseDesc').value = '';
      document.getElementById('expenseAmount').value = '';
      renderAll();
      const saved = saveState();
      if (saved) { markUnsavedChanges(); showMessage(...); } else { showMessage(...); }
  }
  \<close>
  After the push the two fields of the form are emptied without \<^verbatim>\<open>?.\<close>, which throws
  when the element is missing. \<open>onAddIncome\<close> is the same with \<^verbatim>\<open>source\<close> for
  \<^verbatim>\<open>category\<close>, no description, and \<^verbatim>\<open>state.incomes\<close>.
\<close>

definition onAddExpense ::
  "'s Storage \<Rightarrow> env \<Rightarrow> expense_form \<Rightarrow> 's world \<Rightarrow> outcome \<times> 's world" where
  "onAddExpense api e f w =
     (if \<not> truthy (of_input (expenseCategory f)) then (Rejected MissingCategory, w)
      else
        (case toNumber (of_input (expenseAmount f)) of
           Inl x \<Rightarrow> (Uncaught x, w)
         | Inr numAmount \<Rightarrow>
             if le_number numAmount (Fin 0) then (Rejected InvalidAmount, w)
             else
               (case push_expense (new_expense e f numAmount) w of
                  Inl x \<Rightarrow> (Uncaught x, w)
                | Inr w1 \<Rightarrow>
                    if expenseDesc f = None \<or> expenseAmount f = None
                    then (Uncaught TypeError, w1)
                    else render_and_save api e w1)))"

definition new_income :: "env \<Rightarrow> income_form \<Rightarrow> number \<Rightarrow> jsval" where
  "new_income e f numAmount = JObj
     [(''id'', JStr (generateId e)),
      (''source'', of_input (incomeSource f)),
      (''amount'', JNum numAmount),
      (''date'', JStr (now_iso e))]"

definition onAddIncome ::
  "'s Storage \<Rightarrow> env \<Rightarrow> income_form \<Rightarrow> 's world \<Rightarrow> outcome \<times> 's world" where
  "onAddIncome api e f w =
     (if \<not> truthy (of_input (incomeSource f)) then (Rejected MissingSource, w)
      else
        (case toNumber (of_input (incomeAmount f)) of
           Inl x \<Rightarrow> (Uncaught x, w)
         | Inr numAmount \<Rightarrow>
             if le_number numAmount (Fin 0) then (Rejected InvalidAmount, w)
             else
               (case push_income (new_income e f numAmount) w of
                  Inl x \<Rightarrow> (Uncaught x, w)
                | Inr w1 \<Rightarrow>
                    if incomeAmount f = None then (Uncaught TypeError, w1)
                    else render_and_save api e w1)))"

subsection \<open>Deleting\<close>

text \<open>\<^verbatim>\<open>xs.filter(p)\<close> with a test that may throw: the first exception ends the call.\<close>

fun filter_exn :: "('a \<Rightarrow> exn + bool) \<Rightarrow> 'a list \<Rightarrow> exn + 'a list" where
  "filter_exn p [] = Inr []"
| "filter_exn p (x # xs) =
     (case p x of
        Inl e \<Rightarrow> Inl e
      | Inr b \<Rightarrow>
          (case filter_exn p xs of
             Inl e \<Rightarrow> Inl e
           | Inr ys \<Rightarrow> Inr (if b then x # ys else ys)))"

text \<open>\<^verbatim>\<open>x.k !== s\<close> and \<^verbatim>\<open>x.k === s\<close> for a string \<open>s\<close>.\<close>

definition prop_differs :: "string \<Rightarrow> string \<Rightarrow> jsval \<Rightarrow> exn + bool" where
  "prop_differs k s x = (case get_prop x k of Inl e \<Rightarrow> Inl e | Inr v \<Rightarrow> Inr (v \<noteq> JStr s))"


text \<open>\<^verbatim>\<open>c.filter(x => x.id !== id)\<close>: only an array has a \<^verbatim>\<open>filter\<close>.\<close>

definition without_id :: "string \<Rightarrow> jsval \<Rightarrow> exn + jsval" where
  "without_id i c =
     (case c of
        JArr xs \<Rightarrow> (case filter_exn (prop_differs ''id'' i) xs of
                      Inl e \<Rightarrow> Inl e | Inr ys \<Rightarrow> Inr (JArr ys))
      | _ \<Rightarrow> Inl TypeError)"

text \<open>
  \<^verbatim>\<open>
  function deleteExpense(expenseId) {
      if (confirm(...)) {
          state.expenses = state.expenses.filter(exp => exp.id !== expenseId);
          renderAll();
          const saved = saveState();
          if (saved) { markUnsavedChanges(); showMessage(...); } else { showMessage(...); }
      }
  }
  \<close>
  It is called with the id of an entry, a string. The filtered array is a new one, which
  \<^verbatim>\<open>DEFAULT\<close> does not hold. \<open>deleteIncome\<close> is the same on \<^verbatim>\<open>state.incomes\<close>.
\<close>

definition deleteExpense ::
  "'s Storage \<Rightarrow> env \<Rightarrow> string \<Rightarrow> 's world \<Rightarrow> outcome \<times> 's world" where
  "deleteExpense api e expenseId w =
     (if confirm e then
        (case without_id expenseId (expenses (state w)) of
           Inl x \<Rightarrow> (Uncaught x, w)
         | Inr ys \<Rightarrow>
             render_and_save api e
               (w\<lparr>state := (state w)\<lparr>expenses := ys\<rparr>, shares_expenses := False\<rparr>))
      else (Cancelled, w))"

definition deleteIncome ::
  "'s Storage \<Rightarrow> env \<Rightarrow> string \<Rightarrow> 's world \<Rightarrow> outcome \<times> 's world" where
  "deleteIncome api e incomeId w =
     (if confirm e then
        (case without_id incomeId (incomes (state w)) of
           Inl x \<Rightarrow> (Uncaught x, w)
         | Inr ys \<Rightarrow>
             render_and_save api e
               (w\<lparr>state := (state w)\<lparr>incomes := ys\<rparr>, shares_incomes := False\<rparr>))
      else (Cancelled, w))"

subsection \<open>Spent by category\<close>




subsection \<open>Four storages\<close>

text \<open>A storage that keeps what it is given, one that is full, one that accepts a
  write and loses it, and one that gives back another text of the document it was
  given.\<close>

definition memStorage :: "(string \<Rightarrow> blob option) Storage" where
  "memStorage = \<lparr> getItem = (\<lambda>s k. Inr (s k)), setItem = (\<lambda>s k v. Inr (s(k \<mapsto> v))) \<rparr>"

definition fullStorage :: "(string \<Rightarrow> blob option) Storage" where
  "fullStorage = \<lparr> getItem = (\<lambda>s k. Inr (s k)), setItem = (\<lambda>s k v. Inl QuotaExceededError) \<rparr>"

definition lossyStorage :: "(string \<Rightarrow> blob option) Storage" where
  "lossyStorage = \<lparr> getItem = (\<lambda>s k. Inr (s k)), setItem = (\<lambda>s k v. Inr s) \<rparr>"

definition respellStorage :: "(string \<Rightarrow> blob option) Storage" where
  "respellStorage =
     \<lparr> getItem = (\<lambda>s k. Inr (case s k of Some (Doc n j) \<Rightarrow> Some (Doc (Suc n) j) | r \<Rightarrow> r)),
       setItem = (\<lambda>s k v. Inr (s(k \<mapsto> v))) \<rparr>"

subsection \<open>The handlers as one step\<close>

text \<open>The four user actions that change the state, and the handler of each.\<close>

datatype event =
    AddExpense expense_form
  | AddIncome income_form
  | DeleteExpense string
  | DeleteIncome string

fun handle :: "'s Storage \<Rightarrow> env \<Rightarrow> event \<Rightarrow> 's world \<Rightarrow> outcome \<times> 's world" where
  "handle api e (AddExpense f) w = onAddExpense api e f w"
| "handle api e (AddIncome g) w = onAddIncome api e g w"
| "handle api e (DeleteExpense i) w = deleteExpense api e i w"
| "handle api e (DeleteIncome i) w = deleteIncome api e i w"

subsection \<open>Notions the statements use\<close>

text \<open>A value that a JSON text can spell and that is an object in memory: no
  \<^verbatim>\<open>undefined\<close>, every number a finite number of binary64, no property name twice in
  an object.\<close>

fun json_value :: "jsval \<Rightarrow> bool" where
  "json_value JUndefined = False"
| "json_value JNull = True"
| "json_value (JBool b) = True"
| "json_value (JNum n) = (case n of Fin q \<Rightarrow> binary64 q = Fin q | _ \<Rightarrow> False)"
| "json_value (JStr s) = True"
| "json_value (JArr xs) = (\<forall>x \<in> set xs. json_value x)"
| "json_value (JObj kvs) = (distinct (map fst kvs) \<and> (\<forall>x \<in> set (map snd kvs). json_value x))"

definition ledger_json :: "ledger \<Rightarrow> bool" where
  "ledger_json L \<longleftrightarrow>
     json_value (expenseCategories L) \<and> truthy (expenseCategories L) \<and>
     json_value (incomeCategories L) \<and> truthy (incomeCategories L) \<and>
     json_value (budgets L) \<and> truthy (budgets L) \<and>
     json_value (expenses L) \<and> truthy (expenses L) \<and>
     json_value (incomes L) \<and> truthy (incomes L)"

text \<open>The state and the object \<^verbatim>\<open>DEFAULT\<close> both hold such values, and \<^verbatim>\<open>DEFAULT\<close> still
  has the two category lists it was written with.\<close>

definition world_json :: "'s world \<Rightarrow> bool" where
  "world_json w \<longleftrightarrow>
     ledger_json (state w) \<and> ledger_json (DEFAULT w) \<and>
     expenseCategories (DEFAULT w) = expenseCategories DEFAULT_literal \<and>
     incomeCategories (DEFAULT w) = incomeCategories DEFAULT_literal"

text \<open>A document in which every numeral is read as a finite number of binary64.\<close>

fun finite_numbers :: "json \<Rightarrow> bool" where
  "finite_numbers (JsNumber q) = (binary64 q = Fin q)"
| "finite_numbers (JsHuge neg) = False"
| "finite_numbers (JsArray xs) = (\<forall>x \<in> set xs. finite_numbers x)"
| "finite_numbers (JsObject kvs) = (\<forall>x \<in> set (map snd kvs). finite_numbers x)"
| "finite_numbers _ = True"

text \<open>What \<open>loadState\<close> would read now is no document, or such a document.\<close>

definition stored_finite :: "'s Storage \<Rightarrow> 's world \<Rightarrow> bool" where
  "stored_finite api w =
     (case getItem api (localStorage w) LS_KEY of
        Inr (Some (Doc n j)) \<Rightarrow> finite_numbers j
      | _ \<Rightarrow> True)"

text \<open>
  The globals that the modelled functions can build from the start, when no amount that
  is added is \<^verbatim>\<open>Infinity\<close> after its coercion and no document that is loaded has a
  numeral beyond the range of binary64; the storage may change between two calls.
\<close>

inductive built :: "'s Storage \<Rightarrow> 's world \<Rightarrow> bool" for api :: "'s Storage" where
  start: "built api (initial_world ls)"
| outside: "built api w \<Longrightarrow> built api (w\<lparr>localStorage := ls\<rparr>)"
| load: "built api w \<Longrightarrow> stored_finite api w \<Longrightarrow> built api (snd (loadState api w))"
| save: "built api w \<Longrightarrow> built api (snd (saveState api w))"
| add_expense:
    "built api w \<Longrightarrow> toNumber (of_input (expenseAmount f)) \<noteq> Inr Infinity
     \<Longrightarrow> built api (snd (onAddExpense api e f w))"
| add_income:
    "built api w \<Longrightarrow> toNumber (of_input (incomeAmount g)) \<noteq> Inr Infinity
     \<Longrightarrow> built api (snd (onAddIncome api e g w))"
| delete_expense: "built api w \<Longrightarrow> built api (snd (deleteExpense api e i w))"
| delete_income: "built api w \<Longrightarrow> built api (snd (deleteIncome api e i w))"

text \<open>A field of the state by its name, and the five names.\<close>

definition field :: "string \<Rightarrow> ledger \<Rightarrow> jsval" where
  "field k L = (case map_of
       [(''expenseCategories'', expenseCategories L),
        (''incomeCategories'', incomeCategories L),
        (''budgets'', budgets L),
        (''expenses'', expenses L),
        (''incomes'', incomes L)] k of None \<Rightarrow> JUndefined | Some v \<Rightarrow> v)"

definition field_names :: "string list" where
  "field_names = [''expenseCategories'', ''incomeCategories'', ''budgets'', ''expenses'', ''incomes'']"

text \<open>The right-hand sides of the five \<^verbatim>\<open>||\<close> in \<^verbatim>\<open>loadState\<close>: the two category lists
  of \<^verbatim>\<open>DEFAULT\<close>, \<^verbatim>\<open>{}\<close>, \<^verbatim>\<open>[]\<close> and \<^verbatim>\<open>[]\<close>.\<close>

definition load_default :: "ledger \<Rightarrow> ledger" where
  "load_default d =
     \<lparr> expenseCategories = expenseCategories d, incomeCategories = incomeCategories d,
       budgets = JObj [], expenses = JArr [], incomes = JArr [] \<rparr>"

text \<open>The value a document gives a name: that of the last member so named.\<close>

definition member :: "(string \<times> json) list \<Rightarrow> string \<Rightarrow> json option" where
  "member kvs k = map_of (rev kvs) k"

text \<open>The value of the property \<open>k\<close> of the object parsed from a document.\<close>

definition parsed_field :: "(string \<times> json) list \<Rightarrow> string \<Rightarrow> jsval" where
  "parsed_field kvs k = (case member kvs k of None \<Rightarrow> JUndefined | Some j \<Rightarrow> of_json j)"

text \<open>The persistence status that the caller tracks in \<^verbatim>\<open>hasUnsavedChanges\<close>.\<close>

datatype status = Saved | Dirty

definition status_of :: "'s world \<Rightarrow> status" where
  "status_of w = (if hasUnsavedChanges w then Dirty else Saved)"


text \<open>The part of an id that \<^verbatim>\<open>Math.random()\<close> gives.\<close>

definition random_part :: "env \<Rightarrow> string" where
  "random_part e = take 9 (drop 2 (random36 e))"

subsection \<open>Concrete runs\<close>

definition empty_storage :: "string \<Rightarrow> blob option" where
  "empty_storage = (\<lambda>k. None)"

definition world0 :: "(string \<Rightarrow> blob option) world" where
  "world0 = initial_world empty_storage"

definition env0 :: env where
  "env0 = \<lparr> now_ms = 1700000000000, random36 = ''0.4fzyo82mvyr'',
            now_iso = ''2023-11-14T22:13:20.000Z'', confirm = True,
            renderAll_returns = True \<rparr>"

definition env1 :: env where
  "env1 = \<lparr> now_ms = 1700000060000, random36 = ''0.k2j8v0q1xw'',
            now_iso = ''2023-11-14T22:14:20.000Z'', confirm = True,
            renderAll_returns = True \<rparr>"

definition form_mat :: expense_form where
  "form_mat = \<lparr> expenseCategory = Some ''Mat'', expenseDesc = Some '' lunch '',
                expenseAmount = Some ''120.555'' \<rparr>"

definition form_minus_five :: expense_form where
  "form_minus_five = \<lparr> expenseCategory = Some ''Mat'', expenseDesc = Some ''lunch'',
                       expenseAmount = Some ''-5'' \<rparr>"




definition form_1005 :: expense_form where
  "form_1005 = \<lparr> expenseCategory = Some ''Mat'', expenseDesc = Some ''lunch'',
                 expenseAmount = Some ''1.005'' \<rparr>"

definition form_jobb :: income_form where
  "form_jobb = \<lparr> incomeSource = Some ''Jobb'', incomeAmount = Some ''3000'' \<rparr>"

definition form_zero :: income_form where
  "form_zero = \<lparr> incomeSource = Some ''Jobb'', incomeAmount = Some ''0'' \<rparr>"

text \<open>An expense of \<open>120.555\<close> added to the first state, with a storage that works and
  with one that is full.\<close>

definition world_mat :: "(string \<Rightarrow> blob option) world" where
  "world_mat = snd (onAddExpense memStorage env0 form_mat world0)"

definition world_mat_full :: "(string \<Rightarrow> blob option) world" where
  "world_mat_full = snd (onAddExpense fullStorage env0 form_mat world0)"




definition world_1005 :: "(string \<Rightarrow> blob option) world" where
  "world_1005 = snd (onAddExpense memStorage env0 form_1005 world0)"



text \<open>Stored documents: \<^verbatim>\<open>{"expenses":null}\<close>, then
  \<^verbatim>\<open>{"expenseCategories":null,"expenses":[]}\<close>, then one with a single expense, of
  \<open>120.5\<close>; and the first state with each in its storage.\<close>

definition doc_expenses_null :: json where
  "doc_expenses_null = JsObject [(''expenses'', JsNull)]"

definition doc_categories_null :: json where
  "doc_categories_null = JsObject [(''expenseCategories'', JsNull), (''expenses'', JsArray [])]"

definition doc_only_expenses :: json where
  "doc_only_expenses = JsObject
     [(''expenses'', JsArray
        [JsObject [(''id'', JsString ''a1''), (''category'', JsString ''Mat''),
                   (''amount'', JsNumber (241 / 2)), (''desc'', JsString ''lunch''),
                   (''date'', JsString ''2023-11-14T22:13:20.000Z'')]])]"

definition world_with :: "json \<Rightarrow> (string \<Rightarrow> blob option) world" where
  "world_with j = initial_world (empty_storage(LS_KEY \<mapsto> Doc 0 j))"


section \<open>Properties\<close>

subsection \<open>Rounding to binary64\<close>

lemma round_even_near:
  assumes "\<bar>x - of_int m\<bar> < 1 / 2"
  shows "round_even x = m"
proof (cases "of_int m \<le> x")
  case True
  with assms have "\<lfloor>x\<rfloor> = m" by (simp add: floor_eq_iff abs_less_iff)
  with assms True show ?thesis by (simp add: round_even_def Let_def abs_less_iff)
next
  case False
  with assms have f: "\<lfloor>x\<rfloor> = m - 1" by (simp add: floor_eq_iff abs_less_iff)
  from assms False have "1 / 2 < x - of_int (m - 1)" by (simp add: abs_less_iff)
  with f show ?thesis by (simp add: round_even_def Let_def)
qed

lemma round_even_of_int: "round_even (of_int m) = m"
  by (rule round_even_near) simp


lemma round_even_cases:
  obtains "round_even x = \<lfloor>x\<rfloor>" and "x - of_int \<lfloor>x\<rfloor> \<le> 1 / 2"
  | "round_even x = \<lfloor>x\<rfloor> + 1" and "1 / 2 \<le> x - of_int \<lfloor>x\<rfloor>"
  by (cases "x - of_int \<lfloor>x\<rfloor> < 1 / 2"; cases "1 / 2 < x - of_int \<lfloor>x\<rfloor>";
      cases "even \<lfloor>x\<rfloor>") (simp_all add: round_even_def Let_def)

lemma round_even_bounds:
  "of_int (round_even x) \<le> x + 1 / 2" "x - 1 / 2 \<le> of_int (round_even x)"
proof -
  have a: "of_int \<lfloor>x\<rfloor> \<le> x" "x < of_int \<lfloor>x\<rfloor> + 1" by linarith+
  show "of_int (round_even x) \<le> x + 1 / 2"
  proof (rule round_even_cases [of x])
    assume "round_even x = \<lfloor>x\<rfloor>"
    with a show ?thesis by linarith
  next
    assume "round_even x = \<lfloor>x\<rfloor> + 1" "1 / 2 \<le> x - of_int \<lfloor>x\<rfloor>"
    then show ?thesis by simp
  qed
  show "x - 1 / 2 \<le> of_int (round_even x)"
  proof (rule round_even_cases [of x])
    assume "round_even x = \<lfloor>x\<rfloor>" "x - of_int \<lfloor>x\<rfloor> \<le> 1 / 2"
    then show ?thesis by simp
  next
    assume "round_even x = \<lfloor>x\<rfloor> + 1"
    with a show ?thesis by simp
  qed
qed

lemma round_even_nonneg: "0 \<le> x \<Longrightarrow> 0 \<le> round_even x"
proof -
  assume "0 \<le> x"
  then have "0 \<le> \<lfloor>x\<rfloor>" by simp
  then show ?thesis by (rule_tac round_even_cases [of x]) simp_all
qed

lemma round_even_le:
  assumes "x \<le> of_int k"
  shows "round_even x \<le> k"
proof (rule round_even_cases [of x])
  assume "round_even x = \<lfloor>x\<rfloor>"
  moreover have "\<lfloor>x\<rfloor> \<le> k" using assms by (simp add: floor_le_iff)
  ultimately show ?thesis by simp
next
  assume r: "round_even x = \<lfloor>x\<rfloor> + 1" and h: "1 / 2 \<le> x - of_int \<lfloor>x\<rfloor>"
  from h assms have "of_int \<lfloor>x\<rfloor> < (of_int k :: rat)" by linarith
  then have "\<lfloor>x\<rfloor> < k" by (simp only: of_int_less_iff)
  with r show ?thesis by simp
qed

lemma quantum_eval:
  assumes "0 < q" and "x < 2 ^ 53 * (q * 2 ^ n)" and "n = 0 \<or> 2 ^ 53 * (q * 2 ^ n) \<le> 2 * x"
  shows "quantum q x = q * 2 ^ n"
  using assms
proof (induction n arbitrary: q)
  case 0
  then show ?case by (simp add: quantum.simps)
next
  case (Suc n)
  from Suc.prems(3) have "2 ^ 53 * (q * 2 ^ n) \<le> x" by simp
  moreover have "2 ^ 53 * q \<le> 2 ^ 53 * (q * 2 ^ n)" using Suc.prems(1) by simp
  ultimately have s: "2 ^ 53 * q \<le> x" by linarith
  have "quantum (2 * q) x = 2 * q * 2 ^ n"
  proof (rule Suc.IH)
    show "0 < 2 * q" using Suc.prems(1) by simp
    show "x < 2 ^ 53 * (2 * q * 2 ^ n)"
      using Suc.prems(2) by (simp add: mult.assoc mult.left_commute)
    show "n = 0 \<or> 2 ^ 53 * (2 * q * 2 ^ n) \<le> 2 * x"
      using Suc.prems(3) by (simp add: mult.assoc mult.left_commute)
  qed
  with s Suc.prems(1) show ?case by (subst quantum.simps) simp
qed

lemma quantum_pow:
  "0 < q \<Longrightarrow> \<exists>n. quantum q x = q * 2 ^ n \<and> x < 2 ^ 53 * (q * 2 ^ n)
                   \<and> (n = 0 \<or> 2 ^ 53 * (q * 2 ^ n) \<le> 2 * x)"
proof (induction q x rule: quantum.induct)
  case (1 q x)
  show ?case
  proof (cases "2 ^ 53 * q \<le> x")
    case True
    with "1.prems" have c: "0 < q \<and> 2 ^ 53 * q \<le> x" by simp
    from "1.prems" have "0 < 2 * q" by simp
    from "1.IH" [OF c this] obtain n where
      n: "quantum (2 * q) x = 2 * q * 2 ^ n" "x < 2 ^ 53 * (2 * q * 2 ^ n)"
         "n = 0 \<or> 2 ^ 53 * (2 * q * 2 ^ n) \<le> 2 * x" by blast
    have "2 ^ 53 * (q * 2 ^ Suc n) \<le> 2 * x"
    proof (cases "n = 0")
      case True
      with c show ?thesis by simp
    next
      case False
      with n(3) show ?thesis by (simp add: mult.assoc mult.left_commute)
    qed
    moreover have "quantum q x = q * 2 ^ Suc n"
      using c n(1) by (subst quantum.simps) simp
    moreover have "x < 2 ^ 53 * (q * 2 ^ Suc n)"
      using n(2) by (simp add: mult.assoc mult.left_commute)
    ultimately show ?thesis by blast
  next
    case False
    then have "quantum q x = q * 2 ^ 0" "x < 2 ^ 53 * (q * 2 ^ 0)"
      by (simp_all add: quantum.simps)
    then show ?thesis by blast
  qed
qed

lemma quantum_least:
  "0 < q \<Longrightarrow> x < 2 ^ 53 * (q * 2 ^ n) \<Longrightarrow> \<exists>j \<le> n. quantum q x = q * 2 ^ j"
proof (induction n arbitrary: q)
  case 0
  then have "quantum q x = q * 2 ^ 0" by (simp add: quantum.simps)
  then show ?case by blast
next
  case (Suc n)
  show ?case
  proof (cases "2 ^ 53 * q \<le> x")
    case True
    have "\<exists>j \<le> n. quantum (2 * q) x = 2 * q * 2 ^ j"
    proof (rule Suc.IH)
      show "0 < 2 * q" using Suc.prems(1) by simp
      show "x < 2 ^ 53 * (2 * q * 2 ^ n)"
        using Suc.prems(2) by (simp add: mult.assoc mult.left_commute)
    qed
    then obtain j where j: "j \<le> n" "quantum (2 * q) x = 2 * q * 2 ^ j" by blast
    from True Suc.prems(1) j(2) have "quantum q x = q * 2 ^ Suc j"
      by (subst quantum.simps) simp
    with j(1) show ?thesis by (metis Suc_le_mono)
  next
    case False
    then have "quantum q x = q * 2 ^ 0" by (simp add: quantum.simps)
    then show ?thesis by blast
  qed
qed

lemma binary64_eval:
  assumes "0 < x" and "x < 2 ^ 53 * (2 ^ n / 2 ^ 1074)"
    and "n = 0 \<or> 2 ^ 53 * (2 ^ n / 2 ^ 1074) \<le> 2 * x"
    and "round_even (x / (2 ^ n / 2 ^ 1074)) = m"
  shows "binary64 x = (if (2::rat) ^ 1024 \<le> of_int m * (2 ^ n / 2 ^ 1074) then Infinity
                       else Fin (of_int m * (2 ^ n / 2 ^ 1074)))"
proof -
  have "quantum (1 / 2 ^ 1074) x = 1 / 2 ^ 1074 * 2 ^ n"
    by (rule quantum_eval) (use assms in simp_all)
  then have q: "quantum (1 / 2 ^ 1074) x = 2 ^ n / 2 ^ 1074" by simp
  have a: "\<bar>x\<bar> = x" using assms(1) by simp
  show ?thesis unfolding binary64_def a q Let_def assms(4) using assms(1) by simp
qed

lemma binary64_frac:
  assumes "0 < x" and "j \<le> 1074" and "x * 2 ^ j < 2 ^ 53"
    and "j = 1074 \<or> 2 ^ 52 \<le> x * 2 ^ j" and "round_even (x * 2 ^ j) = m"
  shows "binary64 x = Fin (of_int m / 2 ^ j)"
proof -
  define n where "n = 1074 - j"
  have p: "(2::rat) ^ n / 2 ^ 1074 = 1 / 2 ^ j"
    using assms(2) by (simp add: n_def power_diff)
  have m: "m \<le> 2 ^ 53"
  proof -
    have "x * 2 ^ j \<le> of_int (2 ^ 53)" using assms(3) by simp
    from round_even_le [OF this] assms(5) show ?thesis by simp
  qed
  have "(of_int m :: rat) \<le> of_int (2 ^ 53)" using m by (simp only: of_int_le_iff)
  then have "(of_int m :: rat) \<le> 2 ^ 53" by simp
  then have "of_int m / 2 ^ j \<le> (2::rat) ^ 53 / 2 ^ j" by (simp add: divide_right_mono)
  also have "\<dots> \<le> 2 ^ 53 / 1" by (rule divide_left_mono) simp_all
  finally have "of_int m / 2 ^ j \<le> (2::rat) ^ 53" by simp
  then have lt: "\<not> 2 ^ 1024 \<le> of_int m * (1 / (2::rat) ^ j)" by simp
  have "binary64 x = (if (2::rat) ^ 1024 \<le> of_int m * (2 ^ n / 2 ^ 1074) then Infinity
                       else Fin (of_int m * (2 ^ n / 2 ^ 1074)))"
  proof (rule binary64_eval)
    show "0 < x" by fact
    show "x < 2 ^ 53 * (2 ^ n / 2 ^ 1074)"
      unfolding p using assms(3) by (simp add: pos_less_divide_eq)
    show "n = 0 \<or> 2 ^ 53 * (2 ^ n / 2 ^ 1074) \<le> 2 * x"
      unfolding p using assms(2,4) by (auto simp: n_def pos_divide_le_eq)
    show "round_even (x / (2 ^ n / 2 ^ 1074)) = m" unfolding p using assms(5) by simp
  qed
  then show ?thesis unfolding p using lt by simp
qed

lemma binary64_big:
  assumes "0 < x" and "x < 2 ^ 53 * 2 ^ j" and "2 ^ 52 * 2 ^ j \<le> x"
    and "round_even (x / 2 ^ j) = m"
  shows "binary64 x = (if (2::rat) ^ 1024 \<le> of_int m * 2 ^ j then Infinity
                       else Fin (of_int m * 2 ^ j))"
proof -
  have p: "(2::rat) ^ (1074 + j) / 2 ^ 1074 = 2 ^ j" by (simp add: power_add)
  have "binary64 x = (if (2::rat) ^ 1024 \<le> of_int m * (2 ^ (1074 + j) / 2 ^ 1074) then Infinity
                       else Fin (of_int m * (2 ^ (1074 + j) / 2 ^ 1074)))"
  proof (rule binary64_eval)
    show "0 < x" by fact
    show "x < 2 ^ 53 * (2 ^ (1074 + j) / 2 ^ 1074)" unfolding p by fact
    show "1074 + j = 0 \<or> 2 ^ 53 * (2 ^ (1074 + j) / 2 ^ 1074) \<le> 2 * x"
      unfolding p using assms(3) by simp
    show "round_even (x / (2 ^ (1074 + j) / 2 ^ 1074)) = m" unfolding p by fact
  qed
  then show ?thesis unfolding p .
qed

lemma binary64_0: "binary64 0 = Fin 0"
proof -
  have "quantum (1 / 2 ^ 1074) 0 = 1 / 2 ^ 1074" by (simp add: quantum.simps)
  then show ?thesis using round_even_of_int [of 0] by (simp add: binary64_def)
qed

lemma binary64_uminus:
  assumes "0 < x" and "binary64 x = Fin y"
  shows "binary64 (- x) = Fin (- y)"
  using assms by (simp add: binary64_def Let_def split: if_splits)

lemma binary64_not_NaN: "binary64 x \<noteq> NaN"
  by (simp add: binary64_def Let_def)

lemma binary64_idem:
  assumes "binary64 x = Fin y"
  shows "binary64 y = Fin y"
proof -
  define a where "a = \<bar>x\<bar>"
  define Q where "Q = quantum (1 / 2 ^ 1074) a"
  define m where "m = round_even (a / Q)"
  have a0: "0 \<le> a" by (simp add: a_def)
  obtain n where n: "Q = 1 / 2 ^ 1074 * 2 ^ n" "a < 2 ^ 53 * (1 / 2 ^ 1074 * 2 ^ n)"
    using quantum_pow [of "1 / 2 ^ 1074" a] unfolding Q_def by auto
  have Q0: "0 < Q" unfolding n(1) by simp
  from assms have lt: "\<not> 2 ^ 1024 \<le> of_int m * Q"
    and y: "y = (if 0 < x then of_int m * Q else - (of_int m * Q))"
    by (auto simp: binary64_def Let_def a_def Q_def m_def split: if_splits)
  have m0: "0 \<le> m" unfolding m_def using a0 Q0 by (intro round_even_nonneg) simp
  have ay: "\<bar>y\<bar> = of_int m * Q" using y m0 Q0 by simp
  have m53: "m \<le> 2 ^ 53"
  proof -
    have "a / Q < 2 ^ 53" using n(2) Q0 unfolding n(1) [symmetric] by (simp add: pos_divide_less_eq)
    then have "a / Q \<le> of_int (2 ^ 53)" by simp
    from round_even_le [OF this] show ?thesis by (simp add: m_def)
  qed
  have r: "of_int (round_even (\<bar>y\<bar> / quantum (1 / 2 ^ 1074) \<bar>y\<bar>)) * quantum (1 / 2 ^ 1074) \<bar>y\<bar>
           = of_int m * Q"
  proof (cases "m = 2 ^ 53")
    case True
    have "quantum (1 / 2 ^ 1074) \<bar>y\<bar> = 1 / 2 ^ 1074 * 2 ^ Suc n"
    proof (rule quantum_eval)
      show "(0::rat) < 1 / 2 ^ 1074" by simp
      show "\<bar>y\<bar> < 2 ^ 53 * (1 / 2 ^ 1074 * 2 ^ Suc n)"
        unfolding ay True n(1) by simp
      show "Suc n = 0 \<or> 2 ^ 53 * (1 / 2 ^ 1074 * 2 ^ Suc n) \<le> 2 * \<bar>y\<bar>"
        unfolding ay True n(1) by simp
    qed
    then have q: "quantum (1 / 2 ^ 1074) \<bar>y\<bar> = 2 * Q" unfolding n(1) by simp
    have "\<bar>y\<bar> / (2 * Q) = of_int (2 ^ 52)" unfolding ay True using Q0 by simp
    then have "round_even (\<bar>y\<bar> / (2 * Q)) = 2 ^ 52" by (simp only: round_even_of_int)
    then show ?thesis unfolding q True by simp
  next
    case False
    with m53 have "m < 2 ^ 53" by simp
    then have "(of_int m :: rat) < of_int (2 ^ 53)" by (simp only: of_int_less_iff)
    then have "of_int m * Q < 2 ^ 53 * Q" using Q0 by simp
    then have "\<bar>y\<bar> < 2 ^ 53 * (1 / 2 ^ 1074 * 2 ^ n)" unfolding ay n(1) .
    from quantum_least [OF _ this] obtain j where
      j: "j \<le> n" "quantum (1 / 2 ^ 1074) \<bar>y\<bar> = 1 / 2 ^ 1074 * 2 ^ j" by auto
    have "(2::rat) ^ n = 2 ^ (n - j) * 2 ^ j" using j(1) by (simp add: power_add [symmetric])
    then have Q: "Q = 2 ^ (n - j) * (1 / 2 ^ 1074 * 2 ^ j)" unfolding n(1) by simp
    have "\<bar>y\<bar> / (1 / 2 ^ 1074 * 2 ^ j) = of_int (m * 2 ^ (n - j))"
      unfolding ay Q by simp
    then have "round_even (\<bar>y\<bar> / (1 / 2 ^ 1074 * 2 ^ j)) = m * 2 ^ (n - j)"
      by (simp only: round_even_of_int)
    then show ?thesis unfolding j(2) Q by simp
  qed
  have pos: "0 \<le> of_int m * Q" using m0 Q0 by simp
  show ?thesis
  proof (cases "0 < x")
    case True
    with y have "y = of_int m * Q" by simp
    with pos lt show ?thesis unfolding binary64_def Let_def r by auto
  next
    case False
    with y have "y = - (of_int m * Q)" by simp
    with pos lt show ?thesis unfolding binary64_def Let_def r by auto
  qed
qed

subsection \<open>Coercion of amounts\<close>

lemma toNumber_throws: "Number v = Inl e \<Longrightarrow> toNumber v = Inl e"
  by (simp add: toNumber_def)

lemma toNumber_NaN: "Number v = Inr NaN \<Longrightarrow> toNumber v = Inr (Fin 0)"
  by (simp add: toNumber_def isNaN_def)

lemma toNumber_Infinity: "Number v = Inr Infinity \<Longrightarrow> toNumber v = Inr Infinity"
  by (simp add: toNumber_def isNaN_def)

lemma toNumber_NegInfinity: "Number v = Inr NegInfinity \<Longrightarrow> toNumber v = Inr NegInfinity"
  by (simp add: toNumber_def isNaN_def)

lemma toNumber_Fin:
  "Number v = Inr (Fin q) \<Longrightarrow>
     toNumber v = Inr (divide_number (Math_round (binary64 (q * 100))) (Fin 100))"
  by (simp add: toNumber_def isNaN_def)

lemma toNumber_Fin_Fin:
  assumes "Number v = Inr (Fin q)" and "binary64 (q * 100) = Fin s"
  shows "toNumber v = Inr (binary64 (of_int \<lfloor>s + 1 / 2\<rfloor> / 100))"
  using assms by (simp add: toNumber_Fin)

text \<open>The definitions that evaluate \<open>Number\<close> on a given string, and the value of
  \<open>toNumber\<close> from an integer that brackets the scaled number.\<close>

lemmas number_defs = Number_def StringToNumber_def trim_def is_ws_def white_space_def
  char_bytes_def non_decimal_def str_decimal_def unsigned_decimal_def is_digit_def digit_of_def
  digits_value_def all_digits_def pow10_def Let_def

lemma toNumber_eval:
  assumes "Number v = Inr (Fin q)" and "binary64 (q * 100) = Fin s"
    and "of_int k \<le> s + 1 / 2" and "s + 1 / 2 < of_int k + 1"
    and "binary64 (of_int k / 100) = r"
  shows "toNumber v = Inr r"
proof -
  have "\<lfloor>s + 1 / 2\<rfloor> = k" using assms(3,4) by (simp add: floor_eq_iff)
  with toNumber_Fin_Fin [OF assms(1,2)] assms(5) show ?thesis by simp
qed

text \<open>A string or a missing form field is converted without an exception.\<close>

lemma Number_of_input: "Number (of_input a) = Inr (ToNumber (of_input a))"
  by (cases a) (simp_all add: Number_def of_input_def)

lemma toNumber_of_input: "\<exists>n. toNumber (of_input a) = Inr n"
  by (simp add: toNumber_def Number_of_input)

lemma toNumber_not_NaN: "toNumber v \<noteq> Inr NaN"
proof (cases "Number v")
  case (Inl e)
  then show ?thesis by (simp add: toNumber_def)
next
  case (Inr n)
  then show ?thesis
  proof (cases n)
    case (Fin q)
    with Inr show ?thesis
      by (cases "binary64 (q * 100)")
         (simp_all add: toNumber_def isNaN_def binary64_not_NaN)
  qed (simp_all add: toNumber_def isNaN_def)
qed

text \<open>A finite number that \<open>toNumber\<close> returns is a number of binary64.\<close>

lemma toNumber_binary64:
  assumes "toNumber v = Inr (Fin y)"
  shows "binary64 y = Fin y"
proof (cases "Number v")
  case (Inl e)
  with assms show ?thesis by (simp add: toNumber_def)
next
  case (Inr n)
  show ?thesis
  proof (cases n)
    case NaN
    with Inr assms have "y = 0" by (simp add: toNumber_def isNaN_def)
    then show ?thesis by (simp add: binary64_0)
  next
    case (Fin q)
    show ?thesis
    proof (cases "binary64 (q * 100)")
      case (Fin s)
      with Inr \<open>n = Fin q\<close> assms
      have "binary64 (of_int \<lfloor>s + 1 / 2\<rfloor> / 100) = Fin y"
        by (simp add: toNumber_def isNaN_def)
      then show ?thesis by (rule binary64_idem)
    qed (use Inr \<open>n = Fin q\<close> assms in \<open>simp_all add: toNumber_def isNaN_def\<close>)
  qed (use Inr assms in \<open>simp_all add: toNumber_def isNaN_def\<close>)
qed

text \<open>Rounding \<open>- x\<close> half up and negating is rounding \<open>x\<close> half up, unless \<open>x\<close> lies
  halfway between two integers.\<close>

lemma floor_half_neg:
  fixes x :: rat
  shows "(- \<lfloor>- x + 1 / 2\<rfloor> = \<lfloor>x + 1 / 2\<rfloor>) \<longleftrightarrow> x + 1 / 2 \<notin> \<int>"
proof
  assume n: "x + 1 / 2 \<notin> \<int>"
  define k where "k = \<lfloor>x + 1 / 2\<rfloor>"
  have lo: "of_int k < x + 1 / 2"
    using n unfolding k_def by (metis Ints_of_int of_int_floor_le order_le_less)
  have hi: "x + 1 / 2 < of_int k + 1" unfolding k_def by linarith
  have "\<lfloor>- x + 1 / 2\<rfloor> = - k"
    using lo hi by (simp add: floor_eq_iff)
  then show "- \<lfloor>- x + 1 / 2\<rfloor> = \<lfloor>x + 1 / 2\<rfloor>"
    by (simp add: k_def)
next
  assume e: "- \<lfloor>- x + 1 / 2\<rfloor> = \<lfloor>x + 1 / 2\<rfloor>"
  show "x + 1 / 2 \<notin> \<int>"
  proof
    assume "x + 1 / 2 \<in> \<int>"
    then obtain k :: int where k: "x + 1 / 2 = of_int k" by (auto elim: Ints_cases)
    then have x: "x = of_int k - 1 / 2" by simp
    have a: "\<lfloor>x + 1 / 2\<rfloor> = k" using k by simp
    have "- x + 1 / 2 = of_int (1 - k)" using x by simp
    then have b: "\<lfloor>- x + 1 / 2\<rfloor> = 1 - k" by (metis floor_of_int)
    from e a b show False by simp
  qed
qed

lemma half_away_iff:
  "\<lfloor>s + 1 / 2\<rfloor> = round_half_away s \<longleftrightarrow> 0 \<le> s \<or> s + 1 / 2 \<notin> \<int>"
  using floor_half_neg [of s] by (auto simp: round_half_away_def)

subsection \<open>Some numbers in binary64\<close>

text \<open>
  The binary64 numbers for the decimals of the concrete runs, each found from the
  integer significand that brackets it, and the values of \<open>toNumber\<close> they lead to:
  for an input, for its product with \<open>100\<close>, and for the rounded product divided by
  \<open>100\<close>.
\<close>


lemma binary64_120555:
  "binary64 (24111 / 200) = Fin (2120825988584571 / 17592186044416)"
proof -
  have "round_even (24111 / 200 * 2 ^ 46) = 8483303954338284"
    by (rule round_even_near) simp
  from binary64_frac [OF _ _ _ _ this] show ?thesis by simp
qed

lemma binary64_120555_scaled:
  "binary64 (53020649714614275 / 4398046511104) = Fin (24111 / 2)"
proof -
  have "round_even (53020649714614275 / 4398046511104 * 2 ^ 39) = 6627581214326784"
    by (rule round_even_near) simp
  from binary64_frac [OF _ _ _ _ this] show ?thesis by simp
qed

lemma binary64_120555_rounded:
  "binary64 (3014 / 25) = Fin (2120913949514793 / 17592186044416)"
proof -
  have "round_even (3014 / 25 * 2 ^ 46) = 8483655798059172"
    by (rule round_even_near) simp
  from binary64_frac [OF _ _ _ _ this] show ?thesis by simp
qed

lemma toNumber_120555:
  "toNumber (JStr ''120.555'') = Inr (Fin (2120913949514793 / 17592186044416))"
proof -
  have n: "Number (JStr ''120.555'') = Inr (Fin (2120825988584571 / 17592186044416))"
    by (simp add: number_defs binary64_120555)
  show ?thesis
    by (rule toNumber_eval [OF n, where s = "24111 / 2" and k = "12056"])
       (simp_all add: binary64_120555_scaled binary64_120555_rounded)
qed

lemma binary64_1005:
  "binary64 (201 / 200) = Fin (1131529406376837 / 1125899906842624)"
proof -
  have "round_even (201 / 200 * 2 ^ 52) = 4526117625507348"
    by (rule round_even_near) simp
  from binary64_frac [OF _ _ _ _ this] show ?thesis by simp
qed

lemma binary64_1005_scaled:
  "binary64 (28288235159420925 / 281474976710656) = Fin (7072058789855231 / 70368744177664)"
proof -
  have "round_even (28288235159420925 / 281474976710656 * 2 ^ 46) = 7072058789855231"
    by (rule round_even_near) simp
  from binary64_frac [OF _ _ _ _ this] show ?thesis by simp
qed

lemma binary64_1005_rounded:
  "binary64 (1) = Fin (1)"
proof -
  have "round_even (1 * 2 ^ 52) = 4503599627370496"
    by (rule round_even_near) simp
  from binary64_frac [OF _ _ _ _ this] show ?thesis by simp
qed

lemma toNumber_1005:
  "toNumber (JStr ''1.005'') = Inr (Fin (1))"
proof -
  have n: "Number (JStr ''1.005'') = Inr (Fin (1131529406376837 / 1125899906842624))"
    by (simp add: number_defs binary64_1005)
  show ?thesis
    by (rule toNumber_eval [OF n, where s = "7072058789855231 / 70368744177664" and k = "100"])
       (simp_all add: binary64_1005_scaled binary64_1005_rounded)
qed

lemma binary64_0015:
  "binary64 (3 / 200) = Fin (1080863910568919 / 72057594037927936)"
proof -
  have "round_even (3 / 200 * 2 ^ 59) = 8646911284551352"
    by (rule round_even_near) simp
  from binary64_frac [OF _ _ _ _ this] show ?thesis by simp
qed

lemma binary64_0015_scaled:
  "binary64 (27021597764222975 / 18014398509481984) = Fin (3 / 2)"
proof -
  have "round_even (27021597764222975 / 18014398509481984 * 2 ^ 52) = 6755399441055744"
    by (rule round_even_near) simp
  from binary64_frac [OF _ _ _ _ this] show ?thesis by simp
qed

lemma binary64_0015_rounded:
  "binary64 (1 / 50) = Fin (5764607523034235 / 288230376151711744)"
proof -
  have "round_even (1 / 50 * 2 ^ 58) = 5764607523034235"
    by (rule round_even_near) simp
  from binary64_frac [OF _ _ _ _ this] show ?thesis by simp
qed

lemma toNumber_0015:
  "toNumber (JStr ''0.015'') = Inr (Fin (5764607523034235 / 288230376151711744))"
proof -
  have n: "Number (JStr ''0.015'') = Inr (Fin (1080863910568919 / 72057594037927936))"
    by (simp add: number_defs binary64_0015)
  show ?thesis
    by (rule toNumber_eval [OF n, where s = "3 / 2" and k = "2"])
       (simp_all add: binary64_0015_scaled binary64_0015_rounded)
qed







lemma binary64_0005:
  "binary64 (1 / 200) = Fin (5764607523034235 / 1152921504606846976)"
proof -
  have "round_even (1 / 200 * 2 ^ 60) = 5764607523034235"
    by (rule round_even_near) simp
  from binary64_frac [OF _ _ _ _ this] show ?thesis by simp
qed

lemma binary64_minus_0005:
  "binary64 (- (1 / 200)) = Fin (- (5764607523034235 / 1152921504606846976))"
  using binary64_uminus [OF _ binary64_0005] by simp

lemma binary64_0005_scaled:
  "binary64 (144115188075855875 / 288230376151711744) = Fin (1 / 2)"
proof -
  have "round_even (144115188075855875 / 288230376151711744 * 2 ^ 53) = 4503599627370496"
    by (rule round_even_near) simp
  from binary64_frac [OF _ _ _ _ this] show ?thesis by simp
qed

lemma binary64_minus_0005_scaled:
  "binary64 (- (144115188075855875 / 288230376151711744)) = Fin (- (1 / 2))"
  using binary64_uminus [OF _ binary64_0005_scaled] by simp

lemma toNumber_minus_0005:
  "toNumber (JStr ''-0.005'') = Inr (Fin (0))"
proof -
  have n: "Number (JStr ''-0.005'') = Inr (Fin (- (5764607523034235 / 1152921504606846976)))"
    by (simp add: number_defs binary64_minus_0005)
  show ?thesis
    by (rule toNumber_eval [OF n, where s = "- (1 / 2)" and k = "0"])
       (simp_all add: binary64_minus_0005_scaled binary64_0)
qed

lemma binary64_5:
  "binary64 (5) = Fin (5)"
proof -
  have "round_even (5 * 2 ^ 50) = 5629499534213120"
    by (rule round_even_near) simp
  from binary64_frac [OF _ _ _ _ this] show ?thesis by simp
qed

lemma binary64_minus_5:
  "binary64 (- 5) = Fin (- 5)"
  using binary64_uminus [OF _ binary64_5] by simp

lemma binary64_5_scaled:
  "binary64 (500) = Fin (500)"
proof -
  have "round_even (500 * 2 ^ 44) = 8796093022208000"
    by (rule round_even_near) simp
  from binary64_frac [OF _ _ _ _ this] show ?thesis by simp
qed

lemma binary64_minus_5_scaled:
  "binary64 (- 500) = Fin (- 500)"
  using binary64_uminus [OF _ binary64_5_scaled] by simp

lemma toNumber_minus_5:
  "toNumber (JStr ''-5'') = Inr (Fin (- 5))"
proof -
  have n: "Number (JStr ''-5'') = Inr (Fin (- 5))"
    by (simp add: number_defs binary64_minus_5)
  show ?thesis
    by (rule toNumber_eval [OF n, where s = "- 500" and k = "- 500"])
       (simp_all add: binary64_minus_5_scaled binary64_minus_5)
qed

lemma binary64_3000:
  "binary64 (3000) = Fin (3000)"
proof -
  have "round_even (3000 * 2 ^ 41) = 6597069766656000"
    by (rule round_even_near) simp
  from binary64_frac [OF _ _ _ _ this] show ?thesis by simp
qed

lemma binary64_3000_scaled:
  "binary64 (300000) = Fin (300000)"
proof -
  have "round_even (300000 * 2 ^ 34) = 5153960755200000"
    by (rule round_even_near) simp
  from binary64_frac [OF _ _ _ _ this] show ?thesis by simp
qed

lemma toNumber_3000:
  "toNumber (JStr ''3000'') = Inr (Fin (3000))"
proof -
  have n: "Number (JStr ''3000'') = Inr (Fin (3000))"
    by (simp add: number_defs binary64_3000)
  show ?thesis
    by (rule toNumber_eval [OF n, where s = "300000" and k = "300000"])
       (simp_all add: binary64_3000_scaled binary64_3000)
qed

lemma binary64_eighth_scaled:
  "binary64 (25 / 2) = Fin (25 / 2)"
proof -
  have "round_even (25 / 2 * 2 ^ 49) = 7036874417766400"
    by (rule round_even_near) simp
  from binary64_frac [OF _ _ _ _ this] show ?thesis by simp
qed

lemma binary64_minus_eighth_scaled:
  "binary64 (- (25 / 2)) = Fin (- (25 / 2))"
  using binary64_uminus [OF _ binary64_eighth_scaled] by simp

lemma binary64_eighth_rounded:
  "binary64 (3 / 25) = Fin (1080863910568919 / 9007199254740992)"
proof -
  have "round_even (3 / 25 * 2 ^ 56) = 8646911284551352"
    by (rule round_even_near) simp
  from binary64_frac [OF _ _ _ _ this] show ?thesis by simp
qed

lemma binary64_minus_eighth_rounded:
  "binary64 (- (3 / 25)) = Fin (- (1080863910568919 / 9007199254740992))"
  using binary64_uminus [OF _ binary64_eighth_rounded] by simp

lemma toNumber_minus_eighth:
  "toNumber (JNum (Fin (- (1 / 8)))) = Inr (Fin (- (1080863910568919 / 9007199254740992)))"
proof -
  have n: "Number (JNum (Fin (- (1 / 8)))) = Inr (Fin (- (1 / 8)))"
    by (simp add: Number_def)
  show ?thesis
    by (rule toNumber_eval [OF n, where s = "- (25 / 2)" and k = "- 12"])
       (simp_all add: binary64_minus_eighth_scaled binary64_minus_eighth_rounded)
qed










lemma binary64_101:
  "binary64 (101 / 100) = Fin (4548635623644201 / 4503599627370496)"
proof -
  have "round_even (101 / 100 * 2 ^ 52) = 4548635623644201"
    by (rule round_even_near) simp
  from binary64_frac [OF _ _ _ _ this] show ?thesis by simp
qed

lemma binary64_013:
  "binary64 (13 / 100) = Fin (1170935903116329 / 9007199254740992)"
proof -
  have "round_even (13 / 100 * 2 ^ 55) = 4683743612465316"
    by (rule round_even_near) simp
  from binary64_frac [OF _ _ _ _ this] show ?thesis by simp
qed

lemma binary64_minus_013:
  "binary64 (- (13 / 100)) = Fin (- (1170935903116329 / 9007199254740992))"
  using binary64_uminus [OF _ binary64_013] by simp

lemma binary64_001:
  "binary64 (1 / 100) = Fin (5764607523034235 / 576460752303423488)"
proof -
  have "round_even (1 / 100 * 2 ^ 59) = 5764607523034235"
    by (rule round_even_near) simp
  from binary64_frac [OF _ _ _ _ this] show ?thesis by simp
qed

lemma binary64_minus_001:
  "binary64 (- (1 / 100)) = Fin (- (5764607523034235 / 576460752303423488))"
  using binary64_uminus [OF _ binary64_001] by simp

lemma toNumber_0:
  "toNumber (JStr ''0'') = Inr (Fin (0))"
proof -
  have n: "Number (JStr ''0'') = Inr (Fin (0))"
    by (simp add: number_defs binary64_0)
  show ?thesis
    by (rule toNumber_eval [OF n, where s = "0" and k = "0"])
       (simp_all add: binary64_0 binary64_0)
qed


lemma binary64_0145:
  "binary64 (29 / 200) = Fin (5224175567749775 / 36028797018963968)"
proof -
  have "round_even (29 / 200 * 2 ^ 55) = 5224175567749775"
    by (rule round_even_near) simp
  from binary64_frac [OF _ _ _ _ this] show ?thesis by simp
qed

lemma binary64_0145_scaled:
  "binary64 (130604389193744375 / 9007199254740992) = Fin (8162774324609023 / 562949953421312)"
proof -
  have "round_even (130604389193744375 / 9007199254740992 * 2 ^ 49) = 8162774324609023"
    by (rule round_even_near) simp
  from binary64_frac [OF _ _ _ _ this] show ?thesis by simp
qed

lemma binary64_0145_rounded:
  "binary64 (7 / 50) = Fin (1261007895663739 / 9007199254740992)"
proof -
  have "round_even (7 / 50 * 2 ^ 55) = 5044031582654956"
    by (rule round_even_near) simp
  from binary64_frac [OF _ _ _ _ this] show ?thesis by simp
qed

lemma toNumber_0145:
  "toNumber (JStr ''0.145'') = Inr (Fin (1261007895663739 / 9007199254740992))"
proof -
  have n: "Number (JStr ''0.145'') = Inr (Fin (5224175567749775 / 36028797018963968))"
    by (simp add: number_defs binary64_0145)
  show ?thesis
    by (rule toNumber_eval [OF n, where s = "8162774324609023 / 562949953421312" and k = "14"])
       (simp_all add: binary64_0145_scaled binary64_0145_rounded)
qed

lemma binary64_2675:
  "binary64 (107 / 40) = Fin (3011782250804019 / 1125899906842624)"
proof -
  have "round_even (107 / 40 * 2 ^ 51) = 6023564501608038"
    by (rule round_even_near) simp
  from binary64_frac [OF _ _ _ _ this] show ?thesis by simp
qed

lemma binary64_2675_itself_scaled:
  "binary64 (75294556270100475 / 281474976710656) = Fin (535 / 2)"
proof -
  have "round_even (75294556270100475 / 281474976710656 * 2 ^ 44) = 4705909766881280"
    by (rule round_even_near) simp
  from binary64_frac [OF _ _ _ _ this] show ?thesis by simp
qed

lemma binary64_2675_itself_rounded:
  "binary64 (67 / 25) = Fin (6034823500676465 / 2251799813685248)"
proof -
  have "round_even (67 / 25 * 2 ^ 51) = 6034823500676465"
    by (rule round_even_near) simp
  from binary64_frac [OF _ _ _ _ this] show ?thesis by simp
qed

lemma toNumber_2675:
  "toNumber (JNum (Fin (3011782250804019 / 1125899906842624))) = Inr (Fin (6034823500676465 / 2251799813685248))"
proof -
  have n: "Number (JNum (Fin (3011782250804019 / 1125899906842624))) = Inr (Fin (3011782250804019 / 1125899906842624))"
    by (simp add: Number_def)
  show ?thesis
    by (rule toNumber_eval [OF n, where s = "535 / 2" and k = "268"])
       (simp_all add: binary64_2675_itself_scaled binary64_2675_itself_rounded)
qed



lemma binary64_1e308:
  "binary64 (10 ^ 308) = Fin (5010420900022432 * 2 ^ 971)"
proof -
  have "round_even (10 ^ 308 / 2 ^ 971) = 5010420900022432"
    by (rule round_even_near) simp
  from binary64_big [OF _ _ _ this] show ?thesis by simp
qed

lemma binary64_1e308_scaled:
  "binary64 (5010420900022432 * 2 ^ 971 * 100) = Infinity"
proof -
  have "round_even (5010420900022432 * 2 ^ 971 * 100 / 2 ^ 977) = 7828782656285050"
    by (rule round_even_near) simp
  from binary64_big [OF _ _ _ this] show ?thesis by simp
qed


subsection \<open>What toNumber returns\<close>

text \<open>
  \<^bold>\<open>C6\<close> (as amended). \<open>toNumber\<close> turns a value that \<open>Number\<close> makes \<open>NaN\<close> into \<open>0\<close>
  and leaves the infinities as they are. For a finite number it takes the product with
  \<open>100\<close> as binary64 computes it, rounds that product to an integer with
  \<^verbatim>\<open>Math.round\<close>, where a half goes towards \<open>+\<infinity>\<close>, and divides by \<open>100\<close> in binary64;
  a product beyond the range gives an infinity. The integer is the product rounded with
  a half going away from zero exactly when the product is not negative or not halfway
  between two integers. \<open>Number\<close>, and with it \<open>toNumber\<close>, throws a \<^verbatim>\<open>TypeError\<close> for
  an object that has a property named \<^verbatim>\<open>toString\<close> of its own and for an array that
  holds such an object, and for nothing else.
\<close>

theorem toNumber_rounds_half_up:
  "(no_string v \<longleftrightarrow> Number v = Inl TypeError) \<and>
   (no_string v \<longleftrightarrow> toNumber v = Inl TypeError) \<and>
   (Number v = Inr NaN \<longrightarrow> toNumber v = Inr (Fin 0)) \<and>
   (Number v = Inr Infinity \<longrightarrow> toNumber v = Inr Infinity) \<and>
   (Number v = Inr NegInfinity \<longrightarrow> toNumber v = Inr NegInfinity) \<and>
   (\<forall>q. Number v = Inr (Fin q) \<longrightarrow>
      (binary64 (q * 100) = Infinity \<longrightarrow> toNumber v = Inr Infinity) \<and>
      (binary64 (q * 100) = NegInfinity \<longrightarrow> toNumber v = Inr NegInfinity) \<and>
      (\<forall>s. binary64 (q * 100) = Fin s \<longrightarrow>
         toNumber v = Inr (binary64 (of_int \<lfloor>s + 1 / 2\<rfloor> / 100)) \<and>
         (\<lfloor>s + 1 / 2\<rfloor> = round_half_away s \<longleftrightarrow> 0 \<le> s \<or> s + 1 / 2 \<notin> \<int>)))"
proof (intro conjI allI impI)
  show "no_string v \<longleftrightarrow> Number v = Inl TypeError" by (simp add: Number_def)
  show "no_string v \<longleftrightarrow> toNumber v = Inl TypeError" by (simp add: toNumber_def Number_def)
next
  fix q s
  assume "Number v = Inr (Fin q)" and "binary64 (q * 100) = Fin s"
  then show "toNumber v = Inr (binary64 (of_int \<lfloor>s + 1 / 2\<rfloor> / 100))"
    by (rule toNumber_Fin_Fin)
  show "\<lfloor>s + 1 / 2\<rfloor> = round_half_away s \<longleftrightarrow> 0 \<le> s \<or> s + 1 / 2 \<notin> \<int>"
    by (rule half_away_iff)
qed (simp_all add: toNumber_NaN toNumber_Infinity toNumber_NegInfinity toNumber_Fin)

text \<open>
  The string \<^verbatim>\<open>120.555\<close> is read as the binary64 number next to \<open>120.555\<close>; its product
  with \<open>100\<close> is \<open>12055.5\<close> in binary64, which is rounded to \<open>12056\<close>, and the result is
  the binary64 number next to \<open>120.56\<close>. The string \<^verbatim>\<open>1.005\<close> is read as a number just
  below \<open>1.005\<close>, its product with \<open>100\<close> is just below \<open>100.5\<close>, and the result is \<open>1\<close>.
  The string \<^verbatim>\<open>abc\<close> becomes \<open>0\<close>. Further, \<^verbatim>\<open>0.145\<close> becomes \<open>0.14\<close>, the number
  written \<open>2.675\<close> becomes \<open>2.68\<close>, and \<^verbatim>\<open>1e308\<close>, whose product with \<open>100\<close> is beyond the
  range, becomes \<^verbatim>\<open>Infinity\<close>.
\<close>

theorem toNumber_rounds_half_up_witness:
  "Number (JStr ''120.555'') = Inr (binary64 (120555 / 1000)) \<and>
   binary64 (120555 / 1000) = Fin (2120825988584571 / 2 ^ 44) \<and>
   binary64 (2120825988584571 / 2 ^ 44 * 100) = Fin (24111 / 2) \<and>
   toNumber (JStr ''120.555'') = Inr (binary64 (12056 / 100)) \<and>
   \<lfloor>24111 / 2 + 1 / 2 :: rat\<rfloor> = round_half_away (24111 / 2) \<and>
   Number (JStr ''1.005'') = Inr (Fin (1131529406376837 / 2 ^ 50)) \<and>
   binary64 (1131529406376837 / 2 ^ 50 * 100) = Fin (7072058789855231 / 2 ^ 46) \<and>
   7072058789855231 / 2 ^ 46 < (1005 / 10 :: rat) \<and>
   toNumber (JStr ''1.005'') = Inr (Fin 1) \<and>
   \<not> no_string (JStr ''abc'') \<and>
   Number (JStr ''abc'') = Inr NaN \<and> toNumber (JStr ''abc'') = Inr (Fin 0) \<and>
   toNumber (JStr ''0.145'') = Inr (binary64 (14 / 100)) \<and>
   binary64 (2675 / 1000) = Fin (3011782250804019 / 2 ^ 50) \<and>
   toNumber (JNum (Fin (3011782250804019 / 2 ^ 50))) = Inr (binary64 (268 / 100)) \<and>
   Number (JStr ''1e308'') = Inr (binary64 (10 ^ 308)) \<and>
   binary64 (10 ^ 308) = Fin (5010420900022432 * 2 ^ 971) \<and>
   binary64 (5010420900022432 * 2 ^ 971 * 100) = Infinity \<and>
   toNumber (JStr ''1e308'') = Inr Infinity"
proof -
  let ?a = "JStr ''120.555''" and ?b = "JStr ''1.005''" and ?c = "JStr ''abc''"
  let ?d = "2120825988584571 / 2 ^ 44 :: rat" and ?e = "1131529406376837 / 2 ^ 50 :: rat"
  let ?s = "7072058789855231 / 2 ^ 46 :: rat"
  have a0: "Number ?a = Inr (binary64 (120555 / 1000))" by (simp add: number_defs)
  have a1: "binary64 (120555 / 1000) = Fin ?d" by (simp add: binary64_120555)
  have a2: "binary64 (?d * 100) = Fin (24111 / 2)" by (simp add: binary64_120555_scaled)
  have a3: "\<lfloor>24111 / 2 + 1 / 2 :: rat\<rfloor> = 12056" by (simp add: floor_eq_iff)
  have a4: "(0::rat) \<le> 24111 / 2" by simp
  have b0: "Number ?b = Inr (Fin ?e)" by (simp add: number_defs binary64_1005)
  have b1: "binary64 (?e * 100) = Fin ?s" by (simp add: binary64_1005_scaled)
  have b2: "\<lfloor>?s + 1 / 2\<rfloor> = 100" by (simp add: floor_eq_iff)
  have b3: "?s < 1005 / 10" by simp
  have c0: "Number ?c = Inr NaN" by (simp add: number_defs)
  have c1: "\<not> no_string ?c" by simp
  note A = toNumber_rounds_half_up [of ?a] and B = toNumber_rounds_half_up [of ?b]
    and C = toNumber_rounds_half_up [of ?c]
  from a0 a1 have a0': "Number ?a = Inr (Fin ?d)" by (simp only:)
  from A a0' a2
  have a5: "toNumber ?a = Inr (binary64 (of_int \<lfloor>24111 / 2 + 1 / 2 :: rat\<rfloor> / 100))"
    and a6: "\<lfloor>24111 / 2 + 1 / 2 :: rat\<rfloor> = round_half_away (24111 / 2)
             \<longleftrightarrow> (0::rat) \<le> 24111 / 2 \<or> (24111 / 2 :: rat) + 1 / 2 \<notin> \<int>"
    by blast+
  from a5 have a7: "toNumber ?a = Inr (binary64 (12056 / 100))" unfolding a3 by simp
  from a6 a4 have a8: "\<lfloor>24111 / 2 + 1 / 2 :: rat\<rfloor> = round_half_away (24111 / 2)" by blast
  from B b0 b1
  have "toNumber ?b = Inr (binary64 (of_int \<lfloor>?s + 1 / 2\<rfloor> / 100))" by blast
  then have b4: "toNumber ?b = Inr (Fin 1)" unfolding b2 by (simp add: binary64_1005_rounded)
  from C c0 have c2: "toNumber ?c = Inr (Fin 0)" by blast
  have d0: "toNumber (JStr ''0.145'') = Inr (binary64 (14 / 100))"
    by (simp add: toNumber_0145 binary64_0145_rounded)
  have d1: "binary64 (2675 / 1000) = Fin (3011782250804019 / 2 ^ 50)"
    by (simp add: binary64_2675)
  have d2: "toNumber (JNum (Fin (3011782250804019 / 2 ^ 50))) = Inr (binary64 (268 / 100))"
    using toNumber_2675 by (simp add: binary64_2675_itself_rounded)
  let ?h = "JStr ''1e308''"
  have e0: "Number ?h = Inr (binary64 (10 ^ 308))" by (simp add: number_defs)
  note H = toNumber_rounds_half_up [of ?h]
  from e0 have e0': "Number ?h = Inr (Fin (5010420900022432 * 2 ^ 971))"
    by (simp only: binary64_1e308)
  from H e0' binary64_1e308_scaled have e1: "toNumber ?h = Inr Infinity" by blast
  from a0 a1 a2 a7 a8 b0 b1 b3 b4 c0 c1 c2 d0 d1 d2 e0 e1 binary64_1e308
    binary64_1e308_scaled
  show ?thesis by blast
qed


text \<open>
  Against \<^bold>\<open>C6\<close> as it is worded. The string \<^verbatim>\<open>-0.005\<close> is read as a number whose
  product with \<open>100\<close> is \<open>-0.5\<close> in binary64; a half going away from zero makes that \<open>-1\<close>
  and the result \<open>-0.01\<close>, and \<open>toNumber\<close> returns zero. The number \<open>-0.125\<close> is coerced
  to \<open>-0.12\<close>, where a half going away from zero gives \<open>-0.13\<close>. And the object
  \<^verbatim>\<open>{"toString": null}\<close>, which is no number, is not coerced to \<open>0\<close>: the call throws.
\<close>

theorem toNumber_half_away_counterexample:
  "Number (JStr ''-0.005'') = Inr (Fin (- (5764607523034235 / 2 ^ 60))) \<and>
   binary64 (- (5764607523034235 / 2 ^ 60) * 100) = Fin (- (1 / 2)) \<and>
   round_half_away (- (1 / 2)) = - 1 \<and>
   round_half_away_2dp (- (5 / 1000)) = - (1 / 100) \<and>
   toNumber (JStr ''-0.005'') = Inr (Fin 0) \<and>
   binary64 (- (1 / 100)) \<noteq> Fin 0 \<and>
   binary64 (- (1 / 8) * 100) = Fin (- (25 / 2)) \<and>
   round_half_away (- (25 / 2)) = - 13 \<and>
   round_half_away_2dp (- (1 / 8)) = - (13 / 100) \<and>
   toNumber (JNum (Fin (- (1 / 8)))) = Inr (binary64 (- (12 / 100))) \<and>
   binary64 (- (13 / 100)) \<noteq> binary64 (- (12 / 100)) \<and>
   Number (JObj [(''toString'', JNull)]) = Inl TypeError \<and>
   toNumber (JObj [(''toString'', JNull)]) = Inl TypeError"
proof -
  have a: "Number (JStr ''-0.005'') = Inr (Fin (- (5764607523034235 / 2 ^ 60)))"
    by (simp add: number_defs binary64_minus_0005)
  have b: "binary64 (- (5764607523034235 / 2 ^ 60) * 100) = Fin (- (1 / 2))"
    by (simp add: binary64_minus_0005_scaled)
  have c: "round_half_away (- (1 / 2)) = - 1" "round_half_away (- (25 / 2)) = - 13"
    by (simp_all add: round_half_away_def floor_eq_iff)
  have d: "round_half_away_2dp (- (5 / 1000)) = - (1 / 100)"
    "round_half_away_2dp (- (1 / 8)) = - (13 / 100)"
    by (simp_all add: round_half_away_2dp_def round_half_away_def floor_eq_iff)
  have e: "toNumber (JStr ''-0.005'') = Inr (Fin 0)" by (rule toNumber_minus_0005)
  have f: "binary64 (- (1 / 100)) \<noteq> Fin 0" by (simp add: binary64_minus_001)
  have g: "binary64 (- (1 / 8) * 100) = Fin (- (25 / 2))"
    by (simp add: binary64_minus_eighth_scaled)
  have h: "toNumber (JNum (Fin (- (1 / 8)))) = Inr (binary64 (- (12 / 100)))"
    by (simp add: toNumber_minus_eighth binary64_minus_eighth_rounded)
  have i: "binary64 (- (13 / 100)) \<noteq> binary64 (- (12 / 100))"
    by (simp add: binary64_minus_013 binary64_minus_eighth_rounded)
  have j: "Number (JObj [(''toString'', JNull)]) = Inl TypeError"
    "toNumber (JObj [(''toString'', JNull)]) = Inl TypeError"
    by (simp_all add: toNumber_def Number_def)
  from a b c d e f g h i j show ?thesis by blast
qed

subsection \<open>Adding an expense or an income\<close>

lemma render_and_save_state: "state (snd (render_and_save api e w)) = state w"
  by (simp add: render_and_save_def saveState_def saveState_try_def markUnsavedChanges_def
        startReminderTimer_def clearReminderTimer_def markSavedChanges_def
      split: option.splits sum.splits prod.splits)

lemma onAddExpense_rejects:
  assumes "expenseCategory f = None \<or> expenseCategory f = Some []
           \<or> (\<exists>n. toNumber (of_input (expenseAmount f)) = Inr n \<and> le_number n (Fin 0))"
  shows "\<exists>r. onAddExpense api e f w = (Rejected r, w)"
  using assms by (auto simp: onAddExpense_def of_input_def)

lemma onAddIncome_rejects:
  assumes "incomeSource g = None \<or> incomeSource g = Some []
           \<or> (\<exists>n. toNumber (of_input (incomeAmount g)) = Inr n \<and> le_number n (Fin 0))"
  shows "\<exists>r. onAddIncome api e g w = (Rejected r, w)"
  using assms by (auto simp: onAddIncome_def of_input_def)

lemma onAddExpense_state:
  assumes "expenseCategory f = Some c" "c \<noteq> []"
    "toNumber (of_input (expenseAmount f)) = Inr n" "\<not> le_number n (Fin 0)"
    "expenses (state w) = JArr xs"
  shows "state (snd (onAddExpense api e f w))
         = (state w)\<lparr>expenses := JArr (xs @ [new_expense e f n])\<rparr>"
  using assms
  by (simp add: onAddExpense_def of_input_def push_expense_def render_and_save_state)

lemma onAddIncome_state:
  assumes "incomeSource g = Some c" "c \<noteq> []"
    "toNumber (of_input (incomeAmount g)) = Inr n" "\<not> le_number n (Fin 0)"
    "incomes (state w) = JArr xs"
  shows "state (snd (onAddIncome api e g w))
         = (state w)\<lparr>incomes := JArr (xs @ [new_income e g n])\<rparr>"
  using assms
  by (simp add: onAddIncome_def of_input_def push_income_def render_and_save_state)

lemma new_expense_props:
  "get_prop (new_expense e f n) ''id''
     = Inr (JStr (toString_nat (now_ms e) @ take 9 (drop 2 (random36 e))))"
  "get_prop (new_expense e f n) ''category'' = Inr (of_input (expenseCategory f))"
  "get_prop (new_expense e f n) ''amount'' = Inr (JNum n)"
  "get_prop (new_expense e f n) ''date'' = Inr (JStr (now_iso e))"
  "get_prop (new_expense e f n) ''desc''
     = Inr (js_or (of_input (map_option trim (expenseDesc f))) (JStr ''Ingen beskrivning''))"
  by (simp_all add: new_expense_def generateId_def)

lemma new_income_props:
  "get_prop (new_income e g n) ''id''
     = Inr (JStr (toString_nat (now_ms e) @ take 9 (drop 2 (random36 e))))"
  "get_prop (new_income e g n) ''source'' = Inr (of_input (incomeSource g))"
  "get_prop (new_income e g n) ''amount'' = Inr (JNum n)"
  "get_prop (new_income e g n) ''date'' = Inr (JStr (now_iso e))"
  by (simp_all add: new_income_def generateId_def)

text \<open>The amounts of the forms used in the concrete runs.\<close>

lemma amount_form_mat:
  "toNumber (of_input (expenseAmount form_mat)) = Inr (Fin (2120913949514793 / 2 ^ 44))"
  by (simp add: form_mat_def of_input_def toNumber_120555)

lemma amount_form_minus_five:
  "toNumber (of_input (expenseAmount form_minus_five)) = Inr (Fin (- 5))"
  by (simp add: form_minus_five_def of_input_def toNumber_minus_5)


lemma amount_form_jobb: "toNumber (of_input (incomeAmount form_jobb)) = Inr (Fin 3000)"
  by (simp add: form_jobb_def of_input_def toNumber_3000)

lemma amount_form_zero: "toNumber (of_input (incomeAmount form_zero)) = Inr (Fin 0)"
  by (simp add: form_zero_def of_input_def toNumber_0)



lemma amount_form_1005: "toNumber (of_input (expenseAmount form_1005)) = Inr (Fin 1)"
  by (simp add: form_1005_def of_input_def toNumber_1005)

text \<open>
  \<^bold>\<open>C4\<close>. When the category or source of the form is missing or empty, or the coerced
  amount is at most \<open>0\<close>, \<open>onAddExpense\<close> and \<open>onAddIncome\<close> show a validation message
  and return with every global as it was: the state, and with it every other variable
  and the storage. The coercion of what a form holds always returns a number.
\<close>

theorem add_rejects_invalid_input:
  "(expenseCategory f = None \<or> expenseCategory f = Some []
      \<or> (\<exists>n. toNumber (of_input (expenseAmount f)) = Inr n \<and> le_number n (Fin 0))
    \<longrightarrow> (\<exists>r. onAddExpense api e f w = (Rejected r, w))) \<and>
   (incomeSource g = None \<or> incomeSource g = Some []
      \<or> (\<exists>n. toNumber (of_input (incomeAmount g)) = Inr n \<and> le_number n (Fin 0))
    \<longrightarrow> (\<exists>r. onAddIncome api e g w = (Rejected r, w))) \<and>
   (\<exists>n. toNumber (of_input (expenseAmount f)) = Inr n) \<and>
   (\<exists>n. toNumber (of_input (incomeAmount g)) = Inr n)"
  using onAddExpense_rejects [of f api e w] onAddIncome_rejects [of g api e w]
    toNumber_of_input [of "expenseAmount f"] toNumber_of_input [of "incomeAmount g"]
  by blast

text \<open>An expense of \<^verbatim>\<open>-5\<close> and an income of \<^verbatim>\<open>0\<close> are turned down and change nothing.\<close>

theorem add_rejects_invalid_input_witness:
  "toNumber (of_input (expenseAmount form_minus_five)) = Inr (Fin (- 5)) \<and>
   le_number (Fin (- 5)) (Fin 0) \<and>
   (\<exists>r. onAddExpense memStorage env0 form_minus_five world_mat = (Rejected r, world_mat)) \<and>
   toNumber (of_input (incomeAmount form_zero)) = Inr (Fin 0) \<and>
   le_number (Fin 0) (Fin 0) \<and>
   (\<exists>r. onAddIncome memStorage env0 form_zero world_mat = (Rejected r, world_mat))"
proof -
  have a: "\<exists>n. toNumber (of_input (expenseAmount form_minus_five)) = Inr n \<and> le_number n (Fin 0)"
    unfolding amount_form_minus_five by simp
  have b: "\<exists>n. toNumber (of_input (incomeAmount form_zero)) = Inr n \<and> le_number n (Fin 0)"
    unfolding amount_form_zero by simp
  have c: "le_number (Fin (- 5)) (Fin 0)" "le_number (Fin 0) (Fin 0)" by simp_all
  from add_rejects_invalid_input [of form_minus_five memStorage env0 world_mat form_zero] a b c
    amount_form_minus_five amount_form_zero
  show ?thesis by blast
qed

text \<open>What is not positive stays so in binary64, and an amount that passes the test
  \<^verbatim>\<open>numAmount <= 0\<close> came from a product that rounds to a positive integer.\<close>

lemma quantum_pos: "0 < q \<Longrightarrow> 0 < quantum q x"
  using quantum_pow [of q x] by auto

lemma binary64_nonpos:
  assumes "x \<le> 0"
  shows "le_number (binary64 x) (Fin 0)"
proof -
  have "0 \<le> round_even (\<bar>x\<bar> / quantum (1 / 2 ^ 1074) \<bar>x\<bar>)"
    using quantum_pos [of "1 / 2 ^ 1074" "\<bar>x\<bar>"] by (intro round_even_nonneg) simp
  then have "0 \<le> of_int (round_even (\<bar>x\<bar> / quantum (1 / 2 ^ 1074) \<bar>x\<bar>))
                  * quantum (1 / 2 ^ 1074) \<bar>x\<bar>"
    using quantum_pos [of "1 / 2 ^ 1074" "\<bar>x\<bar>"] by simp
  with assms show ?thesis by (simp add: binary64_def Let_def)
qed

lemma positive_amount:
  assumes "toNumber v = Inr n" and "\<not> le_number n (Fin 0)" and "Number v = Inr (Fin q)"
  shows "(binary64 (q * 100) = Infinity \<and> n = Infinity) \<or>
         (\<exists>s. binary64 (q * 100) = Fin s \<and> 0 < \<lfloor>s + 1 / 2\<rfloor> \<and>
              \<lfloor>s + 1 / 2\<rfloor> = round_half_away s \<and>
              n = binary64 (of_int \<lfloor>s + 1 / 2\<rfloor> / 100))"
proof (cases "binary64 (q * 100)")
  case NaN
  then show ?thesis by (simp add: binary64_not_NaN)
next
  case Infinity
  with assms show ?thesis by (simp add: toNumber_Fin)
next
  case NegInfinity
  with assms show ?thesis by (simp add: toNumber_Fin)
next
  case (Fin s)
  with assms(1,3) have n: "n = binary64 (of_int \<lfloor>s + 1 / 2\<rfloor> / 100)"
    by (simp add: toNumber_Fin)
  have pos: "0 < \<lfloor>s + 1 / 2\<rfloor>"
  proof (rule ccontr)
    assume "\<not> 0 < \<lfloor>s + 1 / 2\<rfloor>"
    then have "(of_int \<lfloor>s + 1 / 2\<rfloor> :: rat) / 100 \<le> 0" by simp
    from binary64_nonpos [OF this] assms(2) n show False by simp
  qed
  then have "0 \<le> s" by (simp add: floor_less_iff not_le [symmetric])
  then have "\<lfloor>s + 1 / 2\<rfloor> = round_half_away s" by (simp add: round_half_away_def)
  with Fin n pos show ?thesis by blast
qed

subsection \<open>The id of a new entry\<close>

lemma digit_of_nth: "d < 10 \<Longrightarrow> digit_of (''0123456789'' ! d) = Some d"
proof -
  assume "d < 10"
  then have "d \<in> {0, 1, 2, 3, 4, 5, 6, 7, 8, 9}" by auto
  then show ?thesis by (auto simp: digit_of_def)
qed

lemma digits_value_snoc:
  "digits_value b (ds @ [c])
   = digits_value b ds * b + (case digit_of c of None \<Rightarrow> 0 | Some d \<Rightarrow> d)"
  by (simp add: digits_value_def)

lemma digits_value_toString_nat: "digits_value 10 (toString_nat n) = n"
proof (induction n rule: toString_nat.induct)
  case (1 n)
  show ?case
  proof (cases "n < 10")
    case True
    then show ?thesis
      by (subst toString_nat.simps) (simp add: digits_value_def digit_of_nth)
  next
    case False
    with 1 have "digits_value 10 (toString_nat (n div 10)) = n div 10" by simp
    with False show ?thesis
      by (subst toString_nat.simps) (simp add: digits_value_snoc digit_of_nth)
  qed
qed

lemma toString_nat_inject: "toString_nat m = toString_nat n \<longleftrightarrow> m = n"
  by (metis digits_value_toString_nat)

text \<open>Two ids whose times have as many digits are equal only when the times and the
  random parts are.\<close>

lemma generateId_inject:
  assumes "length (toString_nat (now_ms e')) = length (toString_nat (now_ms e))"
  shows "generateId e' = generateId e
         \<longleftrightarrow> now_ms e' = now_ms e \<and> random_part e' = random_part e"
  using assms by (simp add: generateId_def random_part_def toString_nat_inject)

lemma toString_nat_env0: "toString_nat 1700000000000 = ''1700000000000''"
  by (simp add: toString_nat.simps [of 1700000000000] toString_nat.simps [of 170000000000]
        toString_nat.simps [of 17000000000] toString_nat.simps [of 1700000000]
        toString_nat.simps [of 170000000] toString_nat.simps [of 17000000]
        toString_nat.simps [of 1700000] toString_nat.simps [of 170000]
        toString_nat.simps [of 17000] toString_nat.simps [of 1700]
        toString_nat.simps [of 170] toString_nat.simps [of 17] toString_nat.simps [of "Suc 0"])

lemma toString_nat_env1: "toString_nat 1700000060000 = ''1700000060000''"
  by (simp add: toString_nat.simps [of 1700000060000] toString_nat.simps [of 170000006000]
        toString_nat.simps [of 17000000600] toString_nat.simps [of 1700000060]
        toString_nat.simps [of 170000006] toString_nat.simps [of 17000000]
        toString_nat.simps [of 1700000] toString_nat.simps [of 170000]
        toString_nat.simps [of 17000] toString_nat.simps [of 1700]
        toString_nat.simps [of 170] toString_nat.simps [of 17] toString_nat.simps [of "Suc 0"])

lemma generateId_env0: "generateId env0 = ''17000000000004fzyo82mv''"
  by (simp add: generateId_def env0_def toString_nat_env0)

lemma generateId_env1: "generateId env1 = ''1700000060000k2j8v0q1x''"
  by (simp add: generateId_def env1_def toString_nat_env1)

text \<open>
  \<^bold>\<open>C5\<close> (as amended). When the category or source is a non-empty string, the coerced
  amount is greater than \<open>0\<close> and the collection is an array, \<open>onAddExpense\<close> and
  \<open>onAddIncome\<close> leave a state that differs from the old one in that collection only,
  which has one entry more, at its end. The date of the entry is the time of the call,
  and the description of an expense is the trimmed input, or a placeholder when that is
  empty.
  Its id is made at the call from the clock and the random source: the digits of
  \<^verbatim>\<open>Date.now()\<close> followed by at most nine characters of the random string; two such ids
  whose times have as many digits are equal only when the times and the random parts
  are. Its amount is \<open>toNumber\<close> of the input, which for a finite input is the product of
  the input and \<open>100\<close>, as binary64 computes it, rounded to an integer with a half going
  away from zero, and divided by \<open>100\<close> in binary64 (or \<^verbatim>\<open>Infinity\<close> when the product is
  beyond the range).
\<close>

theorem add_appends_one_record:
  "(expenseCategory f = Some c \<and> c \<noteq> []
      \<and> toNumber (of_input (expenseAmount f)) = Inr n \<and> \<not> le_number n (Fin 0)
      \<and> expenses (state w) = JArr xs
    \<longrightarrow> (\<exists>x. state (snd (onAddExpense api e f w)) = (state w)\<lparr>expenses := JArr (xs @ [x])\<rparr>
           \<and> get_prop x ''id'' = Inr (JStr (generateId e))
           \<and> get_prop x ''date'' = Inr (JStr (now_iso e))
           \<and> get_prop x ''category'' = Inr (JStr c)
           \<and> get_prop x ''amount'' = Inr (JNum n)
           \<and> get_prop x ''desc''
               = Inr (js_or (of_input (map_option trim (expenseDesc f)))
                            (JStr ''Ingen beskrivning'')))
        \<and> (\<forall>q. Number (of_input (expenseAmount f)) = Inr (Fin q) \<longrightarrow>
              (binary64 (q * 100) = Infinity \<and> n = Infinity) \<or>
              (\<exists>s. binary64 (q * 100) = Fin s \<and> 0 < \<lfloor>s + 1 / 2\<rfloor> \<and>
                   \<lfloor>s + 1 / 2\<rfloor> = round_half_away s \<and>
                   n = binary64 (of_int \<lfloor>s + 1 / 2\<rfloor> / 100)))) \<and>
   (incomeSource g = Some c' \<and> c' \<noteq> []
      \<and> toNumber (of_input (incomeAmount g)) = Inr n' \<and> \<not> le_number n' (Fin 0)
      \<and> incomes (state w) = JArr ys
    \<longrightarrow> (\<exists>y. state (snd (onAddIncome api e g w)) = (state w)\<lparr>incomes := JArr (ys @ [y])\<rparr>
           \<and> get_prop y ''id'' = Inr (JStr (generateId e))
           \<and> get_prop y ''date'' = Inr (JStr (now_iso e))
           \<and> get_prop y ''source'' = Inr (JStr c')
           \<and> get_prop y ''amount'' = Inr (JNum n'))
        \<and> (\<forall>q. Number (of_input (incomeAmount g)) = Inr (Fin q) \<longrightarrow>
              (binary64 (q * 100) = Infinity \<and> n' = Infinity) \<or>
              (\<exists>s. binary64 (q * 100) = Fin s \<and> 0 < \<lfloor>s + 1 / 2\<rfloor> \<and>
                   \<lfloor>s + 1 / 2\<rfloor> = round_half_away s \<and>
                   n' = binary64 (of_int \<lfloor>s + 1 / 2\<rfloor> / 100)))) \<and>
   generateId e = toString_nat (now_ms e) @ random_part e \<and>
   random_part e = take 9 (drop 2 (random36 e)) \<and>
   (\<forall>e' :: env. length (toString_nat (now_ms e')) = length (toString_nat (now_ms e)) \<longrightarrow>
      (generateId e' = generateId e
       \<longleftrightarrow> now_ms e' = now_ms e \<and> random_part e' = random_part e))"
proof (intro conjI impI allI)
  assume h: "expenseCategory f = Some c \<and> c \<noteq> []
      \<and> toNumber (of_input (expenseAmount f)) = Inr n \<and> \<not> le_number n (Fin 0)
      \<and> expenses (state w) = JArr xs"
  then have s: "state (snd (onAddExpense api e f w))
                = (state w)\<lparr>expenses := JArr (xs @ [new_expense e f n])\<rparr>"
    by (simp add: onAddExpense_state)
  have c: "get_prop (new_expense e f n) ''category'' = Inr (JStr c)"
    using h by (simp add: new_expense_props of_input_def)
  have i: "get_prop (new_expense e f n) ''id'' = Inr (JStr (generateId e))"
    by (simp add: new_expense_props generateId_def)
  from s c i new_expense_props(3,4,5) [of e f n]
  show "\<exists>x. state (snd (onAddExpense api e f w)) = (state w)\<lparr>expenses := JArr (xs @ [x])\<rparr>
           \<and> get_prop x ''id'' = Inr (JStr (generateId e))
           \<and> get_prop x ''date'' = Inr (JStr (now_iso e))
           \<and> get_prop x ''category'' = Inr (JStr c)
           \<and> get_prop x ''amount'' = Inr (JNum n)
           \<and> get_prop x ''desc''
               = Inr (js_or (of_input (map_option trim (expenseDesc f)))
                            (JStr ''Ingen beskrivning''))"
    by blast
  fix q
  assume "Number (of_input (expenseAmount f)) = Inr (Fin q)"
  with h show "(binary64 (q * 100) = Infinity \<and> n = Infinity) \<or>
              (\<exists>s. binary64 (q * 100) = Fin s \<and> 0 < \<lfloor>s + 1 / 2\<rfloor> \<and>
                   \<lfloor>s + 1 / 2\<rfloor> = round_half_away s \<and>
                   n = binary64 (of_int \<lfloor>s + 1 / 2\<rfloor> / 100))"
    by (intro positive_amount) simp_all
next
  assume h: "incomeSource g = Some c' \<and> c' \<noteq> []
      \<and> toNumber (of_input (incomeAmount g)) = Inr n' \<and> \<not> le_number n' (Fin 0)
      \<and> incomes (state w) = JArr ys"
  then have s: "state (snd (onAddIncome api e g w))
                = (state w)\<lparr>incomes := JArr (ys @ [new_income e g n'])\<rparr>"
    by (simp add: onAddIncome_state)
  have c: "get_prop (new_income e g n') ''source'' = Inr (JStr c')"
    using h by (simp add: new_income_props of_input_def)
  have i: "get_prop (new_income e g n') ''id'' = Inr (JStr (generateId e))"
    by (simp add: new_income_props generateId_def)
  from s c i new_income_props(3,4) [of e g n']
  show "\<exists>y. state (snd (onAddIncome api e g w)) = (state w)\<lparr>incomes := JArr (ys @ [y])\<rparr>
           \<and> get_prop y ''id'' = Inr (JStr (generateId e))
           \<and> get_prop y ''date'' = Inr (JStr (now_iso e))
           \<and> get_prop y ''source'' = Inr (JStr c')
           \<and> get_prop y ''amount'' = Inr (JNum n')"
    by blast
  fix q
  assume "Number (of_input (incomeAmount g)) = Inr (Fin q)"
  with h show "(binary64 (q * 100) = Infinity \<and> n' = Infinity) \<or>
              (\<exists>s. binary64 (q * 100) = Fin s \<and> 0 < \<lfloor>s + 1 / 2\<rfloor> \<and>
                   \<lfloor>s + 1 / 2\<rfloor> = round_half_away s \<and>
                   n' = binary64 (of_int \<lfloor>s + 1 / 2\<rfloor> / 100))"
    by (intro positive_amount) simp_all
next
  show "generateId e = toString_nat (now_ms e) @ random_part e"
    by (simp add: generateId_def random_part_def)
  show "random_part e = take 9 (drop 2 (random36 e))" by (simp add: random_part_def)
next
  fix e' :: env
  assume "length (toString_nat (now_ms e')) = length (toString_nat (now_ms e))"
  then show "generateId e' = generateId e
             \<longleftrightarrow> now_ms e' = now_ms e \<and> random_part e' = random_part e"
    by (rule generateId_inject)
qed

text \<open>An expense of \<^verbatim>\<open>120.555\<close> for \<^verbatim>\<open>Mat\<close> and an income of \<^verbatim>\<open>3000\<close> from
  \<^verbatim>\<open>Jobb\<close>, each added to the first state; and the id that would be made a minute
  later.\<close>

theorem add_appends_one_record_witness:
  "expenseCategory form_mat = Some ''Mat'' \<and> ''Mat'' \<noteq> [] \<and>
   toNumber (of_input (expenseAmount form_mat)) = Inr (binary64 (12056 / 100)) \<and>
   \<not> le_number (binary64 (12056 / 100)) (Fin 0) \<and>
   expenses (state world0) = JArr [] \<and>
   (\<exists>x. state (snd (onAddExpense memStorage env0 form_mat world0))
           = (state world0)\<lparr>expenses := JArr ([] @ [x])\<rparr>
        \<and> get_prop x ''id'' = Inr (JStr ''17000000000004fzyo82mv'')
        \<and> get_prop x ''date'' = Inr (JStr ''2023-11-14T22:13:20.000Z'')
        \<and> get_prop x ''category'' = Inr (JStr ''Mat'')
        \<and> get_prop x ''amount'' = Inr (JNum (binary64 (12056 / 100)))
        \<and> get_prop x ''desc'' = Inr (JStr ''lunch'')) \<and>
   Number (of_input (expenseAmount form_mat)) = Inr (Fin (2120825988584571 / 2 ^ 44)) \<and>
   binary64 (2120825988584571 / 2 ^ 44 * 100) = Fin (24111 / 2) \<and>
   \<lfloor>24111 / 2 + 1 / 2 :: rat\<rfloor> = 12056 \<and> round_half_away (24111 / 2) = 12056 \<and>
   incomeSource form_jobb = Some ''Jobb'' \<and>
   toNumber (of_input (incomeAmount form_jobb)) = Inr (Fin 3000) \<and>
   \<not> le_number (Fin 3000) (Fin 0) \<and>
   incomes (state world0) = JArr [] \<and>
   (\<exists>y. state (snd (onAddIncome memStorage env0 form_jobb world0))
           = (state world0)\<lparr>incomes := JArr ([] @ [y])\<rparr>
        \<and> get_prop y ''id'' = Inr (JStr ''17000000000004fzyo82mv'')
        \<and> get_prop y ''date'' = Inr (JStr ''2023-11-14T22:13:20.000Z'')
        \<and> get_prop y ''source'' = Inr (JStr ''Jobb'')
        \<and> get_prop y ''amount'' = Inr (JNum (Fin 3000))) \<and>
   length (toString_nat (now_ms env1)) = length (toString_nat (now_ms env0)) \<and>
   now_ms env1 \<noteq> now_ms env0 \<and>
   generateId env1 = ''1700000060000k2j8v0q1x'' \<and>
   generateId env1 \<noteq> generateId env0"
proof -
  let ?n = "Fin (2120913949514793 / 2 ^ 44)"
  have v: "binary64 (12056 / 100) = ?n" by (simp add: binary64_120555_rounded)
  have h1: "expenseCategory form_mat = Some ''Mat'' \<and> ''Mat'' \<noteq> [] \<and>
            toNumber (of_input (expenseAmount form_mat)) = Inr ?n \<and>
            \<not> le_number ?n (Fin 0) \<and> expenses (state world0) = JArr []"
    using amount_form_mat
    by (simp add: form_mat_def world0_def initial_world_def DEFAULT_literal_def)
  have h2: "incomeSource form_jobb = Some ''Jobb'' \<and> ''Jobb'' \<noteq> [] \<and>
            toNumber (of_input (incomeAmount form_jobb)) = Inr (Fin 3000) \<and>
            \<not> le_number (Fin 3000) (Fin 0) \<and> incomes (state world0) = JArr []"
    using amount_form_jobb
    by (simp add: form_jobb_def world0_def initial_world_def DEFAULT_literal_def)
  have q: "Number (of_input (expenseAmount form_mat)) = Inr (Fin (2120825988584571 / 2 ^ 44))"
    by (simp add: form_mat_def of_input_def number_defs binary64_120555)
  have s: "binary64 (2120825988584571 / 2 ^ 44 * 100) = Fin (24111 / 2)"
    by (simp add: binary64_120555_scaled)
  have r: "\<lfloor>24111 / 2 + 1 / 2 :: rat\<rfloor> = 12056" "round_half_away (24111 / 2) = 12056"
    by (simp_all add: round_half_away_def floor_eq_iff)
  have l: "length (toString_nat (now_ms env1)) = length (toString_nat (now_ms env0))"
    "now_ms env1 \<noteq> now_ms env0"
    by (simp_all add: env0_def env1_def toString_nat_env0 toString_nat_env1)
  have d: "now_iso env0 = ''2023-11-14T22:13:20.000Z''" by (simp add: env0_def)
  have t: "js_or (of_input (map_option trim (expenseDesc form_mat))) (JStr ''Ingen beskrivning'')
           = JStr ''lunch''"
    by (simp add: form_mat_def of_input_def js_or_def trim_def is_ws_def white_space_def
          char_bytes_def)
  note T = add_appends_one_record
         [of form_mat "''Mat''" ?n world0 "[]" memStorage env0 form_jobb "''Jobb''" "Fin 3000" "[]"]
  from T h1 have a: "\<exists>x. state (snd (onAddExpense memStorage env0 form_mat world0))
           = (state world0)\<lparr>expenses := JArr ([] @ [x])\<rparr>
        \<and> get_prop x ''id'' = Inr (JStr (generateId env0))
        \<and> get_prop x ''date'' = Inr (JStr (now_iso env0))
        \<and> get_prop x ''category'' = Inr (JStr ''Mat'')
        \<and> get_prop x ''amount'' = Inr (JNum ?n)
        \<and> get_prop x ''desc''
            = Inr (js_or (of_input (map_option trim (expenseDesc form_mat)))
                         (JStr ''Ingen beskrivning''))"
    by blast
  from T h2 have b: "\<exists>y. state (snd (onAddIncome memStorage env0 form_jobb world0))
           = (state world0)\<lparr>incomes := JArr ([] @ [y])\<rparr>
        \<and> get_prop y ''id'' = Inr (JStr (generateId env0))
        \<and> get_prop y ''date'' = Inr (JStr (now_iso env0))
        \<and> get_prop y ''source'' = Inr (JStr ''Jobb'')
        \<and> get_prop y ''amount'' = Inr (JNum (Fin 3000))"
    by blast
  from T l have c: "generateId env1 \<noteq> generateId env0" by blast
  from h1 h2 a b c q s r l generateId_env1 show ?thesis
    unfolding v generateId_env0 d t by blast
qed

text \<open>
  Against \<^bold>\<open>C5\<close> as it is worded. The input \<^verbatim>\<open>1.005\<close> is valid and adds an expense whose
  amount is \<open>1\<close>; the input rounded to two decimals is \<open>1.01\<close>. Nor is the amount always
  the number that was read, rounded to two decimals: \<^verbatim>\<open>0.015\<close> is read as a number
  below \<open>0.015\<close>, which rounded to two decimals is \<open>0.01\<close>, and is coerced to \<open>0.02\<close>.
\<close>

theorem add_amount_counterexample:
  "expenseCategory form_1005 = Some ''Mat'' \<and> expenseAmount form_1005 = Some ''1.005'' \<and>
   toNumber (of_input (expenseAmount form_1005)) = Inr (Fin 1) \<and>
   \<not> le_number (Fin 1) (Fin 0) \<and>
   state world_1005 = (state world0)
     \<lparr>expenses := JArr [new_expense env0 form_1005 (Fin 1)]\<rparr> \<and>
   get_prop (new_expense env0 form_1005 (Fin 1)) ''amount'' = Inr (JNum (Fin 1)) \<and>
   unsigned_decimal ''1.005'' = Some (1005 / 1000) \<and>
   round_half_away_2dp (1005 / 1000) = 101 / 100 \<and>
   binary64 (101 / 100) \<noteq> Fin 1 \<and>
   Number (JStr ''0.015'') = Inr (Fin (1080863910568919 / 2 ^ 56)) \<and>
   1080863910568919 / 2 ^ 56 < (15 / 1000 :: rat) \<and>
   round_half_away_2dp (1080863910568919 / 2 ^ 56) = 1 / 100 \<and>
   toNumber (JStr ''0.015'') = Inr (binary64 (2 / 100)) \<and>
   binary64 (2 / 100) \<noteq> binary64 (1 / 100)"
proof -
  have a: "expenseCategory form_1005 = Some ''Mat''" "expenseAmount form_1005 = Some ''1.005''"
    by (simp_all add: form_1005_def)
  have b: "\<not> le_number (Fin 1) (Fin 0)" by simp
  have x: "expenses (state world0) = JArr []"
    by (simp add: world0_def initial_world_def DEFAULT_literal_def)
  have c: "state world_1005 = (state world0)
     \<lparr>expenses := JArr [new_expense env0 form_1005 (Fin 1)]\<rparr>"
    unfolding world_1005_def
    using onAddExpense_state [OF a(1) _ amount_form_1005 b x, of memStorage env0] by simp
  have d: "get_prop (new_expense env0 form_1005 (Fin 1)) ''amount'' = Inr (JNum (Fin 1))"
    by (simp add: new_expense_props)
  have e: "unsigned_decimal ''1.005'' = Some (1005 / 1000)" by (simp add: number_defs)
  have f: "round_half_away_2dp (1005 / 1000) = 101 / 100"
    by (simp add: round_half_away_2dp_def round_half_away_def floor_eq_iff)
  have g: "binary64 (101 / 100) \<noteq> Fin 1" by (simp add: binary64_101)
  have h: "Number (JStr ''0.015'') = Inr (Fin (1080863910568919 / 2 ^ 56))"
    by (simp add: number_defs binary64_0015)
  have i: "1080863910568919 / 2 ^ 56 < (15 / 1000 :: rat)" by simp
  have j: "round_half_away_2dp (1080863910568919 / 2 ^ 56) = 1 / 100"
    by (simp add: round_half_away_2dp_def round_half_away_def floor_eq_iff)
  have k: "toNumber (JStr ''0.015'') = Inr (binary64 (2 / 100))"
    by (simp add: toNumber_0015 binary64_0015_rounded)
  have l: "binary64 (2 / 100) \<noteq> binary64 (1 / 100)"
    by (simp add: binary64_0015_rounded binary64_001)
  from a amount_form_1005 b c d e f g h i j k l show ?thesis by blast
qed

subsection \<open>Saving\<close>

lemma saveState_True_iff:
  "fst (saveState api w) \<longleftrightarrow>
     (\<exists>s ls. JSON_stringify (state_object (state w)) = Some s
        \<and> s \<noteq> Raw [] \<and> s \<noteq> Doc 0 (JsObject [])
        \<and> setItem api (localStorage w) LS_KEY s = Inr ls
        \<and> getItem api ls LS_KEY = Inr (Some s))"
  by (auto simp: saveState_def saveState_try_def split: option.splits sum.splits)

lemma saveState_True_world:
  assumes "fst (saveState api w)"
    and "JSON_stringify (state_object (state w)) = Some s"
    and "setItem api (localStorage w) LS_KEY s = Inr ls"
  shows "snd (saveState api w) = markSavedChanges (w\<lparr>localStorage := ls\<rparr>)"
  using assms
  by (auto simp: saveState_def saveState_try_def split: option.splits sum.splits if_splits)

lemma saveState_False_world:
  assumes "\<not> fst (saveState api w)"
  shows "hasUnsavedChanges (snd (saveState api w)) = hasUnsavedChanges w"
    and "reminderTimer (snd (saveState api w)) = reminderTimer w"
  using assms
  by (auto simp: saveState_def saveState_try_def split: option.splits sum.splits if_splits)

lemma saveState_state: "state (snd (saveState api w)) = state w"
  by (simp add: saveState_def saveState_try_def markSavedChanges_def clearReminderTimer_def
      split: option.splits sum.splits prod.splits)

lemma saveState_DEFAULT: "DEFAULT (snd (saveState api w)) = DEFAULT w"
  by (simp add: saveState_def saveState_try_def markSavedChanges_def clearReminderTimer_def
      split: option.splits sum.splits prod.splits)

lemma saveState_try_throws:
  "fst (saveState_try api w) = Inl x \<Longrightarrow> \<not> fst (saveState api w)"
  by (cases "saveState_try api w") (simp add: saveState_def)

text \<open>The string written for the first state.\<close>

lemma stringify_world0:
  "JSON_stringify (state_object (state world0)) = Some (Doc 0 (JsObject
     [(''expenseCategories'', JsArray (map JsString
          [''Hyra'', ''Mat'', ''Egenv'' @ [CHR 0xC3, CHR 0xA5] @ ''rd'', ''Transport'',
           ''N'' @ [CHR 0xC3, CHR 0xB6] @ ''je'', ''Abonnemang'',
           ''Kl'' @ [CHR 0xC3, CHR 0xA4] @ ''der'', ''Presenter'', ''Resor'',
           ''H'' @ [CHR 0xC3, CHR 0xA4] @ ''lsa & tr'' @ [CHR 0xC3, CHR 0xA4] @ ''ning'',
           ''Sparande'', [CHR 0xC3, CHR 0x96] @ ''vrigt''])),
      (''incomeCategories'', JsArray (map JsString [''CSN'', ''Jobb'', ''Extra''])),
      (''budgets'', JsObject []),
      (''expenses'', JsArray []),
      (''incomes'', JsArray [])]))"
  by (simp add: JSON_stringify_def state_object_def world0_def initial_world_def
        DEFAULT_literal_def)

lemma saveState_memStorage_world0: "fst (saveState memStorage world0)"
  unfolding saveState_True_iff stringify_world0
  by (simp add: memStorage_def)

lemma saveState_fullStorage_world0:
  "fst (saveState_try fullStorage world0) = Inl QuotaExceededError"
  unfolding saveState_try_def stringify_world0
  by (simp add: fullStorage_def)

lemma saveState_lossyStorage_world0:
  "setItem lossyStorage (localStorage world0) LS_KEY s = Inr empty_storage"
  "getItem lossyStorage empty_storage LS_KEY = Inr None"
  by (simp_all add: lossyStorage_def world0_def initial_world_def empty_storage_def)

text \<open>
  \<^bold>\<open>C2\<close>. \<open>saveState\<close> returns \<^verbatim>\<open>true\<close> only when the state was serialised to a
  string, \<^verbatim>\<open>setItem\<close> took the string under the fixed key, and \<^verbatim>\<open>getItem\<close> on that
  key then returned a string equal to it. It returns \<^verbatim>\<open>false\<close> when an exception
  leaves the \<^verbatim>\<open>try\<close> block, as when \<^verbatim>\<open>setItem\<close> throws for want of room; when what
  is read back is anything else; and when nothing was serialised. It returns a value in
  each case: no exception reaches the caller.
\<close>

theorem saveState_true_only_if_verified:
  "(fst (saveState api w) \<longrightarrow>
      (\<exists>s ls. JSON_stringify (state_object (state w)) = Some s
         \<and> setItem api (localStorage w) LS_KEY s = Inr ls
         \<and> getItem api ls LS_KEY = Inr (Some s)
         \<and> localStorage (snd (saveState api w)) = ls)) \<and>
   (\<forall>x. fst (saveState_try api w) = Inl x \<longrightarrow> \<not> fst (saveState api w)) \<and>
   (\<forall>s x. JSON_stringify (state_object (state w)) = Some s
         \<and> setItem api (localStorage w) LS_KEY s = Inl x
      \<longrightarrow> \<not> fst (saveState api w)) \<and>
   (\<forall>s ls r. JSON_stringify (state_object (state w)) = Some s
         \<and> setItem api (localStorage w) LS_KEY s = Inr ls
         \<and> getItem api ls LS_KEY = r \<and> r \<noteq> Inr (Some s)
      \<longrightarrow> \<not> fst (saveState api w)) \<and>
   (JSON_stringify (state_object (state w)) = None \<longrightarrow> \<not> fst (saveState api w))"
proof (intro conjI allI impI)
  assume t: "fst (saveState api w)"
  then obtain s ls where a: "JSON_stringify (state_object (state w)) = Some s"
    and b: "setItem api (localStorage w) LS_KEY s = Inr ls"
    and c: "getItem api ls LS_KEY = Inr (Some s)"
    unfolding saveState_True_iff by blast
  have "localStorage (snd (saveState api w)) = ls"
    unfolding saveState_True_world [OF t a b]
    by (simp add: markSavedChanges_def clearReminderTimer_def)
  with a b c
  show "\<exists>s ls. JSON_stringify (state_object (state w)) = Some s
         \<and> setItem api (localStorage w) LS_KEY s = Inr ls
         \<and> getItem api ls LS_KEY = Inr (Some s)
         \<and> localStorage (snd (saveState api w)) = ls"
    by blast
next
  fix x assume "fst (saveState_try api w) = Inl x"
  then show "\<not> fst (saveState api w)" by (rule saveState_try_throws)
next
  fix s x
  assume h: "JSON_stringify (state_object (state w)) = Some s
         \<and> setItem api (localStorage w) LS_KEY s = Inl x"
  then show "\<not> fst (saveState api w)"
    unfolding saveState_True_iff by auto
next
  fix s ls r
  assume "JSON_stringify (state_object (state w)) = Some s
         \<and> setItem api (localStorage w) LS_KEY s = Inr ls
         \<and> getItem api ls LS_KEY = r \<and> r \<noteq> Inr (Some s)"
  then show "\<not> fst (saveState api w)"
    unfolding saveState_True_iff by auto
next
  assume "JSON_stringify (state_object (state w)) = None"
  then show "\<not> fst (saveState api w)"
    unfolding saveState_True_iff by simp
qed

text \<open>The first state is saved by a storage that works. A full storage throws, a
  storage that loses the write returns \<^verbatim>\<open>null\<close>, and a storage that gives back
  another text of the same document returns a string that is not the one written: each
  time the result is \<^verbatim>\<open>false\<close>.\<close>

theorem saveState_true_only_if_verified_witness:
  "fst (saveState memStorage world0) \<and>
   (\<exists>s ls. JSON_stringify (state_object (state world0)) = Some s
      \<and> setItem memStorage (localStorage world0) LS_KEY s = Inr ls
      \<and> getItem memStorage ls LS_KEY = Inr (Some s)
      \<and> localStorage (snd (saveState memStorage world0)) = ls) \<and>
   fst (saveState_try fullStorage world0) = Inl QuotaExceededError \<and>
   \<not> fst (saveState fullStorage world0) \<and>
   getItem lossyStorage empty_storage LS_KEY = Inr None \<and>
   \<not> fst (saveState lossyStorage world0) \<and>
   \<not> fst (saveState respellStorage world0)"
proof -
  note p = saveState_true_only_if_verified [of respellStorage world0]
  note m = saveState_true_only_if_verified [of memStorage world0]
  note f = saveState_true_only_if_verified [of fullStorage world0]
  note l = saveState_true_only_if_verified [of lossyStorage world0]
  obtain s where s: "JSON_stringify (state_object (state world0)) = Some s"
    using stringify_world0 by blast
  have r: "Inr None \<noteq> (Inr (Some s) :: exn + blob option)" by simp
  from l s saveState_lossyStorage_world0 (1) [of s] saveState_lossyStorage_world0 (2) r
  have n: "\<not> fst (saveState lossyStorage world0)" by blast
  obtain j where j: "JSON_stringify (state_object (state world0)) = Some (Doc 0 j)"
    using stringify_world0 by blast
  have "setItem respellStorage (localStorage world0) LS_KEY (Doc 0 j)
          = Inr ((localStorage world0)(LS_KEY \<mapsto> Doc 0 j))"
    and "getItem respellStorage ((localStorage world0)(LS_KEY \<mapsto> Doc 0 j)) LS_KEY
          = Inr (Some (Doc (Suc 0) j))"
    and "Inr (Some (Doc (Suc 0) j)) \<noteq> (Inr (Some (Doc 0 j)) :: exn + blob option)"
    by (simp_all add: respellStorage_def)
  with p j have q: "\<not> fst (saveState respellStorage world0)" by blast
  from m f n q saveState_memStorage_world0 saveState_fullStorage_world0
    saveState_lossyStorage_world0 (2)
  show ?thesis by blast
qed

subsection \<open>The persistence status\<close>

lemma saveState_True_status:
  assumes "fst (saveState api w)"
  shows "\<not> hasUnsavedChanges (snd (saveState api w))" and "\<not> reminderTimer (snd (saveState api w))"
proof -
  from assms obtain s ls where a: "JSON_stringify (state_object (state w)) = Some s"
    and b: "setItem api (localStorage w) LS_KEY s = Inr ls"
    unfolding saveState_True_iff by blast
  show "\<not> hasUnsavedChanges (snd (saveState api w))"
    unfolding saveState_True_world [OF assms a b]
    by (simp add: markSavedChanges_def clearReminderTimer_def)
  show "\<not> reminderTimer (snd (saveState api w))"
    unfolding saveState_True_world [OF assms a b]
    by (simp add: markSavedChanges_def clearReminderTimer_def)
qed

lemma markUnsavedChanges_status:
  "hasUnsavedChanges (markUnsavedChanges w)" "reminderTimer (markUnsavedChanges w)"
  by (simp_all add: markUnsavedChanges_def startReminderTimer_def clearReminderTimer_def)

lemma render_and_save_Done_True:
  assumes "fst (render_and_save api e w) = Done True"
  shows "hasUnsavedChanges (snd (render_and_save api e w))"
    and "reminderTimer (snd (render_and_save api e w))"
  using assms
  by (auto simp: render_and_save_def markUnsavedChanges_status split: prod.splits if_splits)

lemma render_and_save_other:
  assumes "fst (render_and_save api e w) \<noteq> Done True"
  shows "hasUnsavedChanges (snd (render_and_save api e w)) = hasUnsavedChanges w"
    and "reminderTimer (snd (render_and_save api e w)) = reminderTimer w"
proof -
  have "hasUnsavedChanges (snd (render_and_save api e w)) = hasUnsavedChanges w
        \<and> reminderTimer (snd (render_and_save api e w)) = reminderTimer w"
  proof (cases "renderAll_returns e")
    case False
    then show ?thesis by (simp add: render_and_save_def)
  next
    case True
    with assms have n: "\<not> fst (saveState api w)"
      by (auto simp: render_and_save_def split: prod.splits if_splits)
    from True n have "snd (render_and_save api e w) = snd (saveState api w)"
      by (auto simp: render_and_save_def split: prod.splits)
    with saveState_False_world [OF n] show ?thesis by simp
  qed
  then show "hasUnsavedChanges (snd (render_and_save api e w)) = hasUnsavedChanges w"
    and "reminderTimer (snd (render_and_save api e w)) = reminderTimer w"
    by simp_all
qed

lemma push_expense_status:
  "push_expense x w = Inr w1 \<Longrightarrow>
   hasUnsavedChanges w1 = hasUnsavedChanges w \<and> reminderTimer w1 = reminderTimer w"
  by (auto simp: push_expense_def split: jsval.splits)

lemma push_income_status:
  "push_income x w = Inr w1 \<Longrightarrow>
   hasUnsavedChanges w1 = hasUnsavedChanges w \<and> reminderTimer w1 = reminderTimer w"
  by (auto simp: push_income_def split: jsval.splits)

lemma handle_status:
  "(fst (handle api e ev w) = Done True \<longrightarrow>
      hasUnsavedChanges (snd (handle api e ev w)) \<and> reminderTimer (snd (handle api e ev w))) \<and>
   (fst (handle api e ev w) \<noteq> Done True \<longrightarrow>
      hasUnsavedChanges (snd (handle api e ev w)) = hasUnsavedChanges w \<and>
      reminderTimer (snd (handle api e ev w)) = reminderTimer w)"
proof (cases ev)
  case (AddExpense f)
  show ?thesis
  proof (cases "\<exists>w1. onAddExpense api e f w = render_and_save api e w1
                  \<and> hasUnsavedChanges w1 = hasUnsavedChanges w \<and> reminderTimer w1 = reminderTimer w")
    case True
    then obtain w1 where "onAddExpense api e f w = render_and_save api e w1"
      and "hasUnsavedChanges w1 = hasUnsavedChanges w" and "reminderTimer w1 = reminderTimer w"
      by blast
    with render_and_save_Done_True [of api e w1] render_and_save_other [of api e w1] AddExpense
    show ?thesis by auto
  next
    case False
    then have "fst (onAddExpense api e f w) \<noteq> Done True
               \<and> hasUnsavedChanges (snd (onAddExpense api e f w)) = hasUnsavedChanges w
               \<and> reminderTimer (snd (onAddExpense api e f w)) = reminderTimer w"
      by (auto simp: onAddExpense_def split: sum.splits if_splits dest: push_expense_status)
    with AddExpense show ?thesis by simp
  qed
next
  case (AddIncome g)
  show ?thesis
  proof (cases "\<exists>w1. onAddIncome api e g w = render_and_save api e w1
                  \<and> hasUnsavedChanges w1 = hasUnsavedChanges w \<and> reminderTimer w1 = reminderTimer w")
    case True
    then obtain w1 where "onAddIncome api e g w = render_and_save api e w1"
      and "hasUnsavedChanges w1 = hasUnsavedChanges w" and "reminderTimer w1 = reminderTimer w"
      by blast
    with render_and_save_Done_True [of api e w1] render_and_save_other [of api e w1] AddIncome
    show ?thesis by auto
  next
    case False
    then have "fst (onAddIncome api e g w) \<noteq> Done True
               \<and> hasUnsavedChanges (snd (onAddIncome api e g w)) = hasUnsavedChanges w
               \<and> reminderTimer (snd (onAddIncome api e g w)) = reminderTimer w"
      by (auto simp: onAddIncome_def split: sum.splits if_splits dest: push_income_status)
    with AddIncome show ?thesis by simp
  qed
next
  case (DeleteExpense i)
  show ?thesis
  proof (cases "confirm e \<and> (\<exists>ys. without_id i (expenses (state w)) = Inr ys)")
    case True
    then obtain ys where "without_id i (expenses (state w)) = Inr ys" by blast
    with True have "deleteExpense api e i w = render_and_save api e
        (w\<lparr>state := (state w)\<lparr>expenses := ys\<rparr>, shares_expenses := False\<rparr>)"
      by (simp add: deleteExpense_def)
    with render_and_save_Done_True
           [of api e "w\<lparr>state := (state w)\<lparr>expenses := ys\<rparr>, shares_expenses := False\<rparr>"]
         render_and_save_other
           [of api e "w\<lparr>state := (state w)\<lparr>expenses := ys\<rparr>, shares_expenses := False\<rparr>"]
         DeleteExpense
    show ?thesis by auto
  next
    case False
    then have "fst (deleteExpense api e i w) \<noteq> Done True \<and> snd (deleteExpense api e i w) = w"
      by (auto simp: deleteExpense_def split: sum.splits)
    with DeleteExpense show ?thesis by simp
  qed
next
  case (DeleteIncome i)
  show ?thesis
  proof (cases "confirm e \<and> (\<exists>ys. without_id i (incomes (state w)) = Inr ys)")
    case True
    then obtain ys where "without_id i (incomes (state w)) = Inr ys" by blast
    with True have "deleteIncome api e i w = render_and_save api e
        (w\<lparr>state := (state w)\<lparr>incomes := ys\<rparr>, shares_incomes := False\<rparr>)"
      by (simp add: deleteIncome_def)
    with render_and_save_Done_True
           [of api e "w\<lparr>state := (state w)\<lparr>incomes := ys\<rparr>, shares_incomes := False\<rparr>"]
         render_and_save_other
           [of api e "w\<lparr>state := (state w)\<lparr>incomes := ys\<rparr>, shares_incomes := False\<rparr>"]
         DeleteIncome
    show ?thesis by auto
  next
    case False
    then have "fst (deleteIncome api e i w) \<noteq> Done True \<and> snd (deleteIncome api e i w) = w"
      by (auto simp: deleteIncome_def split: sum.splits)
    with DeleteIncome show ?thesis by simp
  qed
qed

lemma to_json_None_iff: "to_json v = None \<longleftrightarrow> v = JUndefined"
  by (cases v) simp_all

lemma saveState_memStorage:
  assumes "expenseCategories (state w) \<noteq> JUndefined"
  shows "fst (saveState memStorage w)"
proof -
  from assms obtain j where "to_json (expenseCategories (state w)) = Some j"
    using to_json_None_iff [of "expenseCategories (state w)"] by auto
  then obtain kvs where "to_json (state_object (state w)) = Some (JsObject ((''expenseCategories'', j) # kvs))"
    by (simp add: state_object_def)
  then show ?thesis
    unfolding saveState_True_iff by (simp add: JSON_stringify_def memStorage_def)
qed

lemma saveState_fullStorage: "\<not> fst (saveState fullStorage w)"
  unfolding saveState_True_iff by (simp add: fullStorage_def)

lemma onAddExpense_valid:
  assumes "expenseCategory f = Some c" "c \<noteq> []"
    "toNumber (of_input (expenseAmount f)) = Inr n" "\<not> le_number n (Fin 0)"
    "expenses (state w) = JArr xs" "expenseDesc f \<noteq> None" "expenseAmount f \<noteq> None"
  shows "onAddExpense api e f w = render_and_save api e
           (w\<lparr>state := (state w)\<lparr>expenses := JArr (xs @ [new_expense e f n])\<rparr>,
              DEFAULT := (if shares_expenses w
                          then (DEFAULT w)\<lparr>expenses := JArr (xs @ [new_expense e f n])\<rparr>
                          else DEFAULT w)\<rparr>)"
  using assms by (auto simp: onAddExpense_def of_input_def push_expense_def)

lemma render_and_save_memStorage:
  assumes "renderAll_returns e" "expenseCategories (state w) \<noteq> JUndefined"
  shows "fst (render_and_save memStorage e w) = Done True"
  using assms(1) saveState_memStorage [OF assms(2)]
  by (cases "saveState memStorage w") (simp add: render_and_save_def)

lemma render_and_save_fullStorage:
  assumes "renderAll_returns e"
  shows "fst (render_and_save fullStorage e w) = Done False"
  using assms saveState_fullStorage [of w]
  by (cases "saveState fullStorage w") (simp add: render_and_save_def)

lemma form_mat_valid:
  "expenseCategory form_mat = Some ''Mat''" "''Mat'' \<noteq> []"
  "toNumber (of_input (expenseAmount form_mat)) = Inr (Fin (2120913949514793 / 2 ^ 44))"
  "\<not> le_number (Fin (2120913949514793 / 2 ^ 44)) (Fin 0)"
  "expenseDesc form_mat \<noteq> None" "expenseAmount form_mat \<noteq> None"
  using amount_form_mat by (simp_all add: form_mat_def)

lemma world0_fields:
  "expenses (state world0) = JArr []" "incomes (state world0) = JArr []"
  "budgets (state world0) = JObj []"
  "\<not> hasUnsavedChanges world0" "\<not> reminderTimer world0" "shares_expenses world0"
  "expenseCategories (state world0) \<noteq> JUndefined"
  by (simp_all add: world0_def initial_world_def DEFAULT_literal_def)

lemma onAddExpense_form_mat_memStorage:
  "fst (onAddExpense memStorage env0 form_mat world0) = Done True"
  unfolding onAddExpense_valid [OF form_mat_valid(1,2,3,4) world0_fields(1) form_mat_valid(5,6)]
  by (rule render_and_save_memStorage) (simp_all add: env0_def world0_fields)

lemma onAddExpense_form_mat_fullStorage:
  "fst (onAddExpense fullStorage env0 form_mat world0) = Done False"
  unfolding onAddExpense_valid [OF form_mat_valid(1,2,3,4) world0_fields(1) form_mat_valid(5,6)]
  by (rule render_and_save_fullStorage) (simp add: env0_def)

lemma expenses_world_mat_full:
  "expenses (state world_mat_full)
   = JArr [new_expense env0 form_mat (Fin (2120913949514793 / 2 ^ 44))]"
  unfolding world_mat_full_def
  using onAddExpense_state [OF form_mat_valid(1,2,3,4) world0_fields(1), of fullStorage env0]
  by simp

lemma expenses_world_mat:
  "expenses (state world_mat)
   = JArr [new_expense env0 form_mat (Fin (2120913949514793 / 2 ^ 44))]"
  unfolding world_mat_def
  using onAddExpense_state [OF form_mat_valid(1,2,3,4) world0_fields(1), of memStorage env0]
  by simp

text \<open>
  \<^bold>\<open>C9\<close> (as amended). \<open>saveState\<close>, when it returns \<^verbatim>\<open>true\<close>, leaves the status
  \<open>Saved\<close> and the reminder timer cleared, and when it returns \<^verbatim>\<open>false\<close> leaves both as
  they were. Each of the four handlers that change the state calls
  \<open>markUnsavedChanges\<close> after its own \<open>saveState\<close> has returned \<^verbatim>\<open>true\<close>: it ends with
  the status \<open>Dirty\<close> and the timer set. When the handler ends in any other way, its
  save having failed among them, the status and the timer are what they were before.
\<close>

theorem status_after_save_and_handlers:
  "(fst (saveState api w) \<longrightarrow>
      status_of (snd (saveState api w)) = Saved \<and> \<not> reminderTimer (snd (saveState api w))) \<and>
   (\<not> fst (saveState api w) \<longrightarrow>
      status_of (snd (saveState api w)) = status_of w \<and>
      reminderTimer (snd (saveState api w)) = reminderTimer w) \<and>
   (fst (handle api e ev w) = Done True \<longrightarrow>
      status_of (snd (handle api e ev w)) = Dirty \<and> reminderTimer (snd (handle api e ev w))) \<and>
   (fst (handle api e ev w) \<noteq> Done True \<longrightarrow>
      status_of (snd (handle api e ev w)) = status_of w \<and>
      reminderTimer (snd (handle api e ev w)) = reminderTimer w)"
  using saveState_True_status [of api w] saveState_False_world [of api w]
    handle_status [of api e ev w]
  by (simp add: status_of_def)

text \<open>Saving the first state, and adding an expense to it, with a storage that works
  and with one that is full.\<close>

theorem status_after_save_and_handlers_witness:
  "fst (saveState memStorage world0) \<and>
   status_of (snd (saveState memStorage world0)) = Saved \<and>
   \<not> reminderTimer (snd (saveState memStorage world0)) \<and>
   fst (handle memStorage env0 (AddExpense form_mat) world0) = Done True \<and>
   status_of (snd (handle memStorage env0 (AddExpense form_mat) world0)) = Dirty \<and>
   reminderTimer (snd (handle memStorage env0 (AddExpense form_mat) world0)) \<and>
   \<not> fst (saveState fullStorage world0) \<and>
   status_of (snd (saveState fullStorage world0)) = status_of world0 \<and>
   fst (handle fullStorage env0 (AddExpense form_mat) world0) \<noteq> Done True \<and>
   status_of (snd (handle fullStorage env0 (AddExpense form_mat) world0)) = status_of world0"
proof -
  have a: "fst (handle memStorage env0 (AddExpense form_mat) world0) = Done True"
    by (simp add: onAddExpense_form_mat_memStorage)
  have b: "fst (handle fullStorage env0 (AddExpense form_mat) world0) \<noteq> Done True"
    by (simp add: onAddExpense_form_mat_fullStorage)
  from status_after_save_and_handlers [of memStorage world0 env0 "AddExpense form_mat"]
    status_after_save_and_handlers [of fullStorage world0 env0 "AddExpense form_mat"]
    saveState_memStorage_world0 saveState_fullStorage [of world0] a b
  show ?thesis by blast
qed

text \<open>
  Against \<^bold>\<open>C9\<close> as it is worded. From the first state, whose status is \<open>Saved\<close>, an
  expense is added and the save of the handler succeeds: the status is then \<open>Dirty\<close>
  and the timer is set. With a full storage the expense is added, the save fails, and
  the status is still \<open>Saved\<close>.
\<close>

theorem status_after_add_counterexample:
  "status_of world0 = Saved \<and>
   fst (handle memStorage env0 (AddExpense form_mat) world0) = Done True \<and>
   status_of world_mat = Dirty \<and> reminderTimer world_mat \<and>
   fst (handle fullStorage env0 (AddExpense form_mat) world0) = Done False \<and>
   expenses (state world_mat_full) \<noteq> expenses (state world0) \<and>
   status_of world_mat_full = Saved"
proof -
  have a: "fst (handle memStorage env0 (AddExpense form_mat) world0) = Done True"
    by (simp add: onAddExpense_form_mat_memStorage)
  have b: "fst (handle fullStorage env0 (AddExpense form_mat) world0) = Done False"
    by (simp add: onAddExpense_form_mat_fullStorage)
  have m: "snd (handle memStorage env0 (AddExpense form_mat) world0) = world_mat"
    by (simp add: world_mat_def)
  have f: "snd (handle fullStorage env0 (AddExpense form_mat) world0) = world_mat_full"
    by (simp add: world_mat_full_def)
  have s0: "status_of world0 = Saved" by (simp add: status_of_def world0_fields)
  from handle_status [of memStorage env0 "AddExpense form_mat" world0] a m
  have c: "status_of world_mat = Dirty \<and> reminderTimer world_mat"
    by (simp add: status_of_def)
  from handle_status [of fullStorage env0 "AddExpense form_mat" world0] b f s0
  have d: "status_of world_mat_full = Saved" by (simp add: status_of_def)
  have e: "expenses (state world_mat_full) \<noteq> expenses (state world0)"
    by (simp add: expenses_world_mat_full world0_fields)
  from s0 a b c d e show ?thesis by blast
qed


subsection \<open>Objects built from member lists\<close>

lemma map_of_set_prop: "map_of (set_prop kvs k v) = (map_of kvs)(k \<mapsto> v)"
  by (induction kvs) (auto simp: fun_eq_iff)

lemma fst_set_prop: "fst ` set (set_prop kvs k v) = insert k (fst ` set kvs)"
proof (induction kvs)
  case Nil
  then show ?case by simp
next
  case (Cons a kvs)
  show ?case
  proof (cases "fst a = k")
    case True
    then show ?thesis by (cases a) auto
  next
    case False
    with Cons show ?thesis by (cases a) auto
  qed
qed

lemma snd_set_prop: "snd ` set (set_prop kvs k v) \<subseteq> insert v (snd ` set kvs)"
proof (induction kvs)
  case Nil
  then show ?case by simp
next
  case (Cons a kvs)
  show ?case
  proof (cases "fst a = k")
    case True
    then show ?thesis by (cases a) auto
  next
    case False
    with Cons show ?thesis by (cases a) auto
  qed
qed

lemma distinct_set_prop:
  "distinct (map fst kvs) \<Longrightarrow> distinct (map fst (set_prop kvs k v))"
proof (induction kvs)
  case Nil
  then show ?case by simp
next
  case (Cons a kvs)
  then show ?case
    using fst_set_prop [of kvs k v] by (cases a) auto
qed


lemma foldl_set_prop_map_of:
  "map_of (foldl (\<lambda>acc kv. set_prop acc (fst kv) (snd kv)) acc kvs) = map_of (rev kvs @ acc)"
proof (induction kvs arbitrary: acc)
  case Nil
  then show ?case by simp
next
  case (Cons kv kvs)
  have "map_of (rev kvs @ set_prop acc (fst kv) (snd kv))
        = map_of (rev kvs @ [kv] @ acc)"
    by (simp add: map_of_set_prop fun_eq_iff map_add_def split: option.splits)
  with Cons show ?case by simp
qed

lemma foldl_set_prop_distinct:
  "distinct (map fst acc) \<Longrightarrow>
   distinct (map fst (foldl (\<lambda>acc kv. set_prop acc (fst kv) (snd kv)) acc kvs))"
  by (induction kvs arbitrary: acc) (simp_all add: distinct_set_prop)

lemma foldl_set_prop_values:
  "snd ` set (foldl (\<lambda>acc kv. set_prop acc (fst kv) (snd kv)) acc kvs)
   \<subseteq> snd ` set acc \<union> snd ` set kvs"
proof (induction kvs arbitrary: acc)
  case Nil
  then show ?case by simp
next
  case (Cons kv kvs)
  from Cons [of "set_prop acc (fst kv) (snd kv)"] snd_set_prop [of acc "fst kv" "snd kv"]
  show ?case by auto
qed


lemma map_of_object_of: "map_of (object_of kvs) = map_of (rev kvs)"
  using foldl_set_prop_map_of [of "[]" kvs] by (simp add: object_of_def)

lemma distinct_object_of: "distinct (map fst (object_of kvs))"
  using foldl_set_prop_distinct [of "[]" kvs] by (simp add: object_of_def)

lemma values_object_of: "snd ` set (object_of kvs) \<subseteq> snd ` set kvs"
  using foldl_set_prop_values [of "[]" kvs] by (simp add: object_of_def)


lemma map_of_map_prod: "map_of (map (map_prod id f) kvs) k = map_option f (map_of kvs k)"
  by (induction kvs) auto

text \<open>Reading a property of a parsed object is reading the last member of that name.\<close>

lemma get_prop_of_json_object:
  "get_prop (of_json (JsObject kvs)) k
   = Inr (case member kvs k of None \<Rightarrow> JUndefined | Some j \<Rightarrow> of_json j)"
proof -
  have "map_of (object_of (map (map_prod id of_json) kvs)) k
        = map_option of_json (map_of (rev kvs) k)"
    unfolding map_of_object_of rev_map by (rule map_of_map_prod)
  then show ?thesis by (simp add: member_def split: option.splits)
qed


subsection \<open>Loading\<close>

text \<open>What \<open>loadState\<close> does with a stored document that is an object.\<close>

lemma loadState_object:
  assumes "getItem api (localStorage w) LS_KEY = Inr (Some (Doc n (JsObject kvs)))"
  shows "loadState api w =
     (True, w\<lparr>state :=
                \<lparr> expenseCategories = js_or (parsed_field kvs ''expenseCategories'')
                                         (expenseCategories (DEFAULT w)),
                  incomeCategories = js_or (parsed_field kvs ''incomeCategories'')
                                        (incomeCategories (DEFAULT w)),
                  budgets = js_or (parsed_field kvs ''budgets'') (JObj []),
                  expenses = js_or (parsed_field kvs ''expenses'') (JArr []),
                  incomes = js_or (parsed_field kvs ''incomes'') (JArr []) \<rparr>,
              shares_budgets := False, shares_expenses := False, shares_incomes := False\<rparr>)"
proof -
  have m: "merged (of_json (JsObject kvs)) (DEFAULT w) =
     Inr \<lparr> expenseCategories = js_or (parsed_field kvs ''expenseCategories'')
                                         (expenseCategories (DEFAULT w)),
                  incomeCategories = js_or (parsed_field kvs ''incomeCategories'')
                                        (incomeCategories (DEFAULT w)),
                  budgets = js_or (parsed_field kvs ''budgets'') (JObj []),
                  expenses = js_or (parsed_field kvs ''expenses'') (JArr []),
                  incomes = js_or (parsed_field kvs ''incomes'') (JArr []) \<rparr>"
    unfolding merged_def get_prop_of_json_object parsed_field_def by simp
  have t: "truthy (of_json (JsObject kvs)) \<and> typeof_object (of_json (JsObject kvs))"
    by simp
  show ?thesis
    unfolding loadState_def assms using m t by (simp add: JSON_parse_def)
qed

lemma field_loadState_object:
  assumes "getItem api (localStorage w) LS_KEY = Inr (Some (Doc n (JsObject kvs)))"
    and "k \<in> set field_names"
  shows "field k (state (snd (loadState api w)))
         = js_or (parsed_field kvs k) (field k (load_default (DEFAULT w)))"
  using assms(2) unfolding loadState_object [OF assms(1)]
  by (auto simp: field_names_def field_def load_default_def)

lemma truthy_of_json:
  "truthy (of_json j) \<longleftrightarrow> j \<notin> {JsNull, JsBool False, JsNumber 0, JsString []}"
  by (cases j) auto

subsection \<open>Values that survive a save and a load\<close>

lemma json_value_of_json: "finite_numbers j \<Longrightarrow> json_value (of_json j)"
proof (induction j)
  case (JsObject kvs)
  have sub: "snd ` set (object_of (map (map_prod id of_json) kvs))
        \<subseteq> snd ` set (map (map_prod id of_json) kvs)"
    by (rule values_object_of)
  have ih: "\<forall>kv \<in> set kvs. json_value (of_json (snd kv))"
    using JsObject by fastforce
  have "\<forall>x \<in> set (map snd (object_of (map (map_prod id of_json) kvs))). json_value x"
  proof
    fix x
    assume "x \<in> set (map snd (object_of (map (map_prod id of_json) kvs)))"
    then have "x \<in> snd ` set (map (map_prod id of_json) kvs)" using sub by auto
    then obtain kv where "kv \<in> set kvs" and "x = of_json (snd kv)" by auto
    with ih show "json_value x" by simp
  qed
  then show ?case by (simp add: distinct_object_of)
qed simp_all







subsection \<open>What the operations keep\<close>

lemma world_json_cong:
  "state w' = state w \<Longrightarrow> DEFAULT w' = DEFAULT w \<Longrightarrow> world_json w' = world_json w"
  by (simp add: world_json_def)

lemma render_and_save_DEFAULT: "DEFAULT (snd (render_and_save api e w)) = DEFAULT w"
  by (simp add: render_and_save_def saveState_def saveState_try_def markUnsavedChanges_def
        startReminderTimer_def clearReminderTimer_def markSavedChanges_def
      split: option.splits sum.splits prod.splits)

lemma DEFAULT_literal_json [simp]:
  "json_value (expenseCategories DEFAULT_literal)" "truthy (expenseCategories DEFAULT_literal)"
  "json_value (incomeCategories DEFAULT_literal)" "truthy (incomeCategories DEFAULT_literal)"
  by (simp_all add: DEFAULT_literal_def)

lemma world_json_initial: "world_json (initial_world ls)"
  by (simp add: world_json_def ledger_json_def initial_world_def DEFAULT_literal_def)

lemma get_prop_json_value:
  assumes "json_value p" and "get_prop p k = Inr v"
  shows "v = JUndefined \<or> json_value v"
proof (cases p)
  case (JObj kvs)
  show ?thesis
  proof (cases "map_of kvs k")
    case None
    with JObj assms(2) show ?thesis by simp
  next
    case (Some u)
    then have "u \<in> set (map snd kvs)" by (auto dest: map_of_SomeD intro: rev_image_eqI)
    with JObj assms Some show ?thesis by auto
  qed
qed (use assms in auto)

lemma js_or_json_value:
  assumes "v = JUndefined \<or> json_value v" and "json_value d" and "truthy d"
  shows "json_value (js_or v d) \<and> truthy (js_or v d)"
  using assms by (auto simp: js_or_def)

lemma merged_ledger_json:
  assumes "json_value p" and "merged p d = Inr L"
    and "json_value (expenseCategories d)" "truthy (expenseCategories d)"
    and "json_value (incomeCategories d)" "truthy (incomeCategories d)"
  shows "ledger_json L"
proof -
  from assms(2) obtain ec ic b ex i where
    g: "get_prop p ''expenseCategories'' = Inr ec" "get_prop p ''incomeCategories'' = Inr ic"
       "get_prop p ''budgets'' = Inr b" "get_prop p ''expenses'' = Inr ex"
       "get_prop p ''incomes'' = Inr i" and
    L: "L = \<lparr> expenseCategories = js_or ec (expenseCategories d),
              incomeCategories = js_or ic (incomeCategories d),
              budgets = js_or b (JObj []),
              expenses = js_or ex (JArr []),
              incomes = js_or i (JArr []) \<rparr>"
    by (auto simp: merged_def split: sum.splits)
  note v = g [THEN get_prop_json_value [OF assms(1)]]
  from js_or_json_value [OF v(1) assms(3,4)] js_or_json_value [OF v(2) assms(5,6)]
    js_or_json_value [OF v(3), of "JObj []"] js_or_json_value [OF v(4), of "JArr []"]
    js_or_json_value [OF v(5), of "JArr []"]
  show ?thesis unfolding L ledger_json_def by simp
qed

lemma world_json_loadState:
  assumes "world_json w" and "stored_finite api w"
  shows "world_json (snd (loadState api w))"
proof (cases "fst (loadState api w)")
  case False
  then have "snd (loadState api w) = snd (use_default w)"
    by (auto simp: loadState_def use_default_def split: sum.splits option.splits if_splits)
  with assms show ?thesis by (simp add: use_default_def world_json_def)
next
  case True
  then obtain n j L where g: "getItem api (localStorage w) LS_KEY = Inr (Some (Doc n j))"
    and m: "merged (of_json j) (DEFAULT w) = Inr L"
    and s: "snd (loadState api w) = w\<lparr>state := L, shares_budgets := False,
              shares_expenses := False, shares_incomes := False\<rparr>"
    by (auto simp: loadState_def use_default_def JSON_parse_def
        split: sum.splits option.splits if_splits blob.splits)
  from assms(2) g have v: "json_value (of_json j)"
    by (simp add: stored_finite_def json_value_of_json)
  from assms have "json_value (expenseCategories (DEFAULT w))"
    "truthy (expenseCategories (DEFAULT w))" "json_value (incomeCategories (DEFAULT w))"
    "truthy (incomeCategories (DEFAULT w))"
    by (simp_all add: world_json_def ledger_json_def)
  from merged_ledger_json [OF v m this] assms(1)
  show ?thesis unfolding s by (simp add: world_json_def)
qed

lemma world_json_saveState:
  "world_json w \<Longrightarrow> world_json (snd (saveState api w))"
  by (simp add: world_json_cong [OF saveState_state saveState_DEFAULT])

lemma world_json_render_and_save:
  "world_json w \<Longrightarrow> world_json (snd (render_and_save api e w))"
  by (simp add: world_json_cong [OF render_and_save_state render_and_save_DEFAULT])

lemma toNumber_finite:
  assumes "toNumber v = Inr n" and "\<not> le_number n (Fin 0)" and "n \<noteq> Infinity"
  shows "\<exists>q. n = Fin q \<and> binary64 q = Fin q"
proof (cases n)
  case NaN
  with assms(1) toNumber_not_NaN [of v] show ?thesis by simp
next
  case (Fin q)
  with assms(1) toNumber_binary64 [of v q] show ?thesis by simp
qed (use assms in simp_all)

lemma json_value_new_expense:
  assumes "truthy (of_input (expenseCategory f))" and "binary64 q = Fin q"
  shows "json_value (new_expense e f (Fin q))"
proof -
  from assms(1) have "json_value (of_input (expenseCategory f))"
    by (cases "expenseCategory f") (simp_all add: of_input_def)
  moreover have "json_value (js_or (of_input (map_option trim (expenseDesc f)))
                                   (JStr ''Ingen beskrivning''))"
    by (cases "expenseDesc f") (simp_all add: of_input_def js_or_def)
  ultimately show ?thesis using assms(2) by (simp add: new_expense_def)
qed

lemma json_value_new_income:
  assumes "truthy (of_input (incomeSource g))" and "binary64 q = Fin q"
  shows "json_value (new_income e g (Fin q))"
proof -
  from assms(1) have "json_value (of_input (incomeSource g))"
    by (cases "incomeSource g") (simp_all add: of_input_def)
  then show ?thesis using assms(2) by (simp add: new_income_def)
qed

lemma world_json_push_expense:
  assumes "world_json w" and "json_value x" and "push_expense x w = Inr w1"
  shows "world_json w1"
proof -
  from assms(3) obtain xs where xs: "expenses (state w) = JArr xs"
    and w1: "w1 = w\<lparr>state := (state w)\<lparr>expenses := JArr (xs @ [x])\<rparr>,
                    DEFAULT := (if shares_expenses w
                                then (DEFAULT w)\<lparr>expenses := JArr (xs @ [x])\<rparr>
                                else DEFAULT w)\<rparr>"
    by (auto simp: push_expense_def split: jsval.splits)
  from assms(1) xs have "json_value (JArr xs)" by (simp add: world_json_def ledger_json_def)
  with assms(2) have "json_value (JArr (xs @ [x]))" by simp
  with assms(1) show ?thesis unfolding w1 by (simp add: world_json_def ledger_json_def)
qed

lemma world_json_push_income:
  assumes "world_json w" and "json_value x" and "push_income x w = Inr w1"
  shows "world_json w1"
proof -
  from assms(3) obtain xs where xs: "incomes (state w) = JArr xs"
    and w1: "w1 = w\<lparr>state := (state w)\<lparr>incomes := JArr (xs @ [x])\<rparr>,
                    DEFAULT := (if shares_incomes w
                                then (DEFAULT w)\<lparr>incomes := JArr (xs @ [x])\<rparr>
                                else DEFAULT w)\<rparr>"
    by (auto simp: push_income_def split: jsval.splits)
  from assms(1) xs have "json_value (JArr xs)" by (simp add: world_json_def ledger_json_def)
  with assms(2) have "json_value (JArr (xs @ [x]))" by simp
  with assms(1) show ?thesis unfolding w1 by (simp add: world_json_def ledger_json_def)
qed

lemma world_json_onAddExpense:
  assumes "world_json w" and "toNumber (of_input (expenseAmount f)) \<noteq> Inr Infinity"
  shows "world_json (snd (onAddExpense api e f w))"
proof -
  from toNumber_of_input obtain n where n: "toNumber (of_input (expenseAmount f)) = Inr n"
    by blast
  show ?thesis
  proof (cases "truthy (of_input (expenseCategory f)) \<and> \<not> le_number n (Fin 0)")
    case False
    with assms(1) n show ?thesis by (auto simp: onAddExpense_def)
  next
    case True
    from toNumber_finite [OF n] True assms(2) n obtain q
      where q: "n = Fin q" "binary64 q = Fin q" by auto
    from True q have j: "json_value (new_expense e f n)"
      by (simp add: json_value_new_expense)
    show ?thesis
    proof (cases "push_expense (new_expense e f n) w")
      case (Inl x)
      with True n assms(1) show ?thesis by (simp add: onAddExpense_def)
    next
      case (Inr w1)
      from world_json_push_expense [OF assms(1) j Inr] have "world_json w1" .
      with True n Inr show ?thesis
        by (simp add: onAddExpense_def world_json_render_and_save)
    qed
  qed
qed

lemma world_json_onAddIncome:
  assumes "world_json w" and "toNumber (of_input (incomeAmount g)) \<noteq> Inr Infinity"
  shows "world_json (snd (onAddIncome api e g w))"
proof -
  from toNumber_of_input obtain n where n: "toNumber (of_input (incomeAmount g)) = Inr n"
    by blast
  show ?thesis
  proof (cases "truthy (of_input (incomeSource g)) \<and> \<not> le_number n (Fin 0)")
    case False
    with assms(1) n show ?thesis by (auto simp: onAddIncome_def)
  next
    case True
    from toNumber_finite [OF n] True assms(2) n obtain q
      where q: "n = Fin q" "binary64 q = Fin q" by auto
    from True q have j: "json_value (new_income e g n)"
      by (simp add: json_value_new_income)
    show ?thesis
    proof (cases "push_income (new_income e g n) w")
      case (Inl x)
      with True n assms(1) show ?thesis by (simp add: onAddIncome_def)
    next
      case (Inr w1)
      from world_json_push_income [OF assms(1) j Inr] have "world_json w1" .
      with True n Inr show ?thesis
        by (simp add: onAddIncome_def world_json_render_and_save)
    qed
  qed
qed

lemma filter_exn_subset: "filter_exn p xs = Inr ys \<Longrightarrow> set ys \<subseteq> set xs"
proof (induction xs arbitrary: ys)
  case Nil
  then show ?case by simp
next
  case (Cons x xs)
  then show ?case by (fastforce split: sum.splits if_splits)
qed

lemma without_id_json_value:
  assumes "json_value c" and "without_id i c = Inr ys"
  shows "json_value ys \<and> truthy ys"
proof -
  from assms(2) obtain xs zs where c: "c = JArr xs" and ys: "ys = JArr zs"
    and f: "filter_exn (prop_differs ''id'' i) xs = Inr zs"
    by (auto simp: without_id_def split: jsval.splits sum.splits)
  from filter_exn_subset [OF f] assms(1) c ys show ?thesis by auto
qed

lemma world_json_deleteExpense:
  assumes "world_json w"
  shows "world_json (snd (deleteExpense api e i w))"
proof (cases "confirm e")
  case False
  with assms show ?thesis by (simp add: deleteExpense_def)
next
  case True
  show ?thesis
  proof (cases "without_id i (expenses (state w))")
    case (Inl x)
    with True assms show ?thesis by (simp add: deleteExpense_def)
  next
    case (Inr ys)
    from assms have "json_value (expenses (state w))"
      by (simp add: world_json_def ledger_json_def)
    from without_id_json_value [OF this Inr] assms
    have "world_json (w\<lparr>state := (state w)\<lparr>expenses := ys\<rparr>, shares_expenses := False\<rparr>)"
      by (simp add: world_json_def ledger_json_def)
    with True Inr show ?thesis by (simp add: deleteExpense_def world_json_render_and_save)
  qed
qed

lemma world_json_deleteIncome:
  assumes "world_json w"
  shows "world_json (snd (deleteIncome api e i w))"
proof (cases "confirm e")
  case False
  with assms show ?thesis by (simp add: deleteIncome_def)
next
  case True
  show ?thesis
  proof (cases "without_id i (incomes (state w))")
    case (Inl x)
    with True assms show ?thesis by (simp add: deleteIncome_def)
  next
    case (Inr ys)
    from assms have "json_value (incomes (state w))"
      by (simp add: world_json_def ledger_json_def)
    from without_id_json_value [OF this Inr] assms
    have "world_json (w\<lparr>state := (state w)\<lparr>incomes := ys\<rparr>, shares_incomes := False\<rparr>)"
      by (simp add: world_json_def ledger_json_def)
    with True Inr show ?thesis by (simp add: deleteIncome_def world_json_render_and_save)
  qed
qed

text \<open>Every state built from the start, with amounts and loaded numerals that are
  finite, holds values that a JSON text can spell.\<close>

lemma built_world_json: "built api w \<Longrightarrow> world_json w"
proof (induction rule: built.induct)
  case (start ls)
  show ?case by (rule world_json_initial)
next
  case (outside w ls)
  then show ?case by (simp add: world_json_def)
next
  case (load w)
  then show ?case by (simp add: world_json_loadState)
next
  case (save w)
  then show ?case by (simp add: world_json_saveState)
next
  case (add_expense w f e)
  then show ?case by (simp add: world_json_onAddExpense)
next
  case (add_income w g e)
  then show ?case by (simp add: world_json_onAddIncome)
next
  case (delete_expense w e i)
  then show ?case by (simp add: world_json_deleteExpense)
next
  case (delete_income w e i)
  then show ?case by (simp add: world_json_deleteIncome)
qed


subsection \<open>Loading what was saved\<close>















subsection \<open>Loading a document that is an object\<close>

lemma load_default_built:
  assumes "built api w"
  shows "load_default (DEFAULT w) = DEFAULT_literal"
  using built_world_json [OF assms]
  by (simp add: world_json_def load_default_def DEFAULT_literal_def)

lemma parsed_field_absent: "member kvs k = None \<Longrightarrow> parsed_field kvs k = JUndefined"
  by (simp add: parsed_field_def)

lemma parsed_field_present: "member kvs k = Some j \<Longrightarrow> parsed_field kvs k = of_json j"
  by (simp add: parsed_field_def)

lemma getItem_world_with:
  "getItem memStorage (localStorage (world_with j)) LS_KEY = Inr (Some (Doc 0 j))"
  by (simp add: world_with_def initial_world_def memStorage_def)

lemma DEFAULT_world_with: "DEFAULT (world_with j) = DEFAULT_literal"
  by (simp add: world_with_def initial_world_def)

lemma field_simps:
  "field ''expenseCategories'' L = expenseCategories L"
  "field ''incomeCategories'' L = incomeCategories L"
  "field ''budgets'' L = budgets L"
  "field ''expenses'' L = expenses L"
  "field ''incomes'' L = incomes L"
  by (simp_all add: field_def)

lemma field_names_mem:
  "''expenseCategories'' \<in> set field_names" "''incomeCategories'' \<in> set field_names"
  "''budgets'' \<in> set field_names" "''expenses'' \<in> set field_names"
  "''incomes'' \<in> set field_names"
  by (simp_all add: field_names_def)

text \<open>
  \<^bold>\<open>C3\<close> (as amended). When the stored string is the text of an object, \<open>loadState\<close>
  returns \<^verbatim>\<open>true\<close> and leaves a state with all five fields: a field that the object
  lacks has its default, and a field that the object has with a truthy value (any array
  or object among them) has that value. The defaults are those of the literal
  \<^verbatim>\<open>DEFAULT\<close> for every state built from the start.
\<close>

theorem loadState_partial_document:
  "getItem api (localStorage w) LS_KEY = Inr (Some (Doc n (JsObject kvs))) \<longrightarrow>
     fst (loadState api w) \<and>
     (\<forall>k \<in> set field_names.
        (member kvs k = None \<longrightarrow>
           field k (state (snd (loadState api w))) = field k (load_default (DEFAULT w))) \<and>
        (\<forall>j. member kvs k = Some j \<and> truthy (of_json j) \<longrightarrow>
           field k (state (snd (loadState api w))) = of_json j)) \<and>
     (built api w \<longrightarrow> load_default (DEFAULT w) = DEFAULT_literal)"
proof (intro impI conjI ballI allI)
  assume g: "getItem api (localStorage w) LS_KEY = Inr (Some (Doc n (JsObject kvs)))"
  show "fst (loadState api w)" unfolding loadState_object [OF g] by simp
  fix k
  assume k: "k \<in> set field_names"
  note f = field_loadState_object [OF g k]
  show "field k (state (snd (loadState api w))) = field k (load_default (DEFAULT w))"
    if "member kvs k = None"
    unfolding f parsed_field_absent [OF that] by (simp add: js_or_def)
  show "field k (state (snd (loadState api w))) = of_json j"
    if "member kvs k = Some j \<and> truthy (of_json j)" for j
    unfolding f using that by (simp add: parsed_field_present js_or_def)
next
  assume "built api w"
  then show "load_default (DEFAULT w) = DEFAULT_literal" by (rule load_default_built)
qed

text \<open>A stored document with nothing but one expense: the expense is loaded, and the
  other four fields are those of \<^verbatim>\<open>DEFAULT\<close>.\<close>

theorem loadState_partial_document_witness:
  "getItem memStorage (localStorage (world_with doc_only_expenses)) LS_KEY
     = Inr (Some (Doc 0 doc_only_expenses)) \<and>
   fst (loadState memStorage (world_with doc_only_expenses)) \<and>
   expenses (state (snd (loadState memStorage (world_with doc_only_expenses)))) = JArr
     [JObj [(''id'', JStr ''a1''), (''category'', JStr ''Mat''),
            (''amount'', JNum (Fin (241 / 2))), (''desc'', JStr ''lunch''),
            (''date'', JStr ''2023-11-14T22:13:20.000Z'')]] \<and>
   expenseCategories (state (snd (loadState memStorage (world_with doc_only_expenses))))
     = expenseCategories DEFAULT_literal \<and>
   incomeCategories (state (snd (loadState memStorage (world_with doc_only_expenses))))
     = incomeCategories DEFAULT_literal \<and>
   budgets (state (snd (loadState memStorage (world_with doc_only_expenses)))) = JObj [] \<and>
   incomes (state (snd (loadState memStorage (world_with doc_only_expenses)))) = JArr []"
proof -
  let ?w = "world_with doc_only_expenses"
  let ?e = "JsArray
        [JsObject [(''id'', JsString ''a1''), (''category'', JsString ''Mat''),
                   (''amount'', JsNumber (241 / 2)), (''desc'', JsString ''lunch''),
                   (''date'', JsString ''2023-11-14T22:13:20.000Z'')]]"
  let ?kvs = "[(''expenses'', ?e)]"
  have g: "getItem memStorage (localStorage ?w) LS_KEY = Inr (Some (Doc 0 (JsObject ?kvs)))"
    using getItem_world_with [of doc_only_expenses] by (simp add: doc_only_expenses_def)
  note T = loadState_partial_document [of memStorage ?w 0 ?kvs]
  from T g have a: "fst (loadState memStorage ?w)" by blast
  from T g have b: "\<forall>k \<in> set field_names.
        (member ?kvs k = None \<longrightarrow>
           field k (state (snd (loadState memStorage ?w))) = field k (load_default (DEFAULT ?w))) \<and>
        (\<forall>j. member ?kvs k = Some j \<and> truthy (of_json j) \<longrightarrow>
           field k (state (snd (loadState memStorage ?w))) = of_json j)"
    by blast
  have d: "load_default (DEFAULT ?w) = DEFAULT_literal"
    by (simp add: DEFAULT_world_with load_default_def DEFAULT_literal_def)
  have m: "member ?kvs ''expenses'' = Some ?e \<and> truthy (of_json ?e)"
    "member ?kvs ''expenseCategories'' = None" "member ?kvs ''incomeCategories'' = None"
    "member ?kvs ''budgets'' = None" "member ?kvs ''incomes'' = None"
    by (simp_all add: member_def)
  have o: "of_json ?e = JArr
     [JObj [(''id'', JStr ''a1''), (''category'', JStr ''Mat''),
            (''amount'', JNum (Fin (241 / 2))), (''desc'', JStr ''lunch''),
            (''date'', JStr ''2023-11-14T22:13:20.000Z'')]]"
    by (simp add: object_of_def)
  from b [rule_format, OF field_names_mem(4)] m(1) o
  have e1: "expenses (state (snd (loadState memStorage ?w))) = JArr
     [JObj [(''id'', JStr ''a1''), (''category'', JStr ''Mat''),
            (''amount'', JNum (Fin (241 / 2))), (''desc'', JStr ''lunch''),
            (''date'', JStr ''2023-11-14T22:13:20.000Z'')]]"
    unfolding field_simps by metis
  from b [rule_format, OF field_names_mem(1)] m(2) d
  have e2: "expenseCategories (state (snd (loadState memStorage ?w)))
            = expenseCategories DEFAULT_literal"
    unfolding field_simps by metis
  from b [rule_format, OF field_names_mem(2)] m(3) d
  have e3: "incomeCategories (state (snd (loadState memStorage ?w)))
            = incomeCategories DEFAULT_literal"
    unfolding field_simps by metis
  from b [rule_format, OF field_names_mem(3)] m(4) d
  have e4: "budgets (state (snd (loadState memStorage ?w))) = budgets DEFAULT_literal"
    unfolding field_simps by metis
  from b [rule_format, OF field_names_mem(5)] m(5) d
  have e5: "incomes (state (snd (loadState memStorage ?w))) = incomes DEFAULT_literal"
    unfolding field_simps by metis
  have l: "budgets DEFAULT_literal = JObj []" "incomes DEFAULT_literal = JArr []"
    by (simp_all add: DEFAULT_literal_def)
  from getItem_world_with [of doc_only_expenses] a e1 e2 e3 e4 e5 l
  show ?thesis by simp
qed

text \<open>
  Against \<^bold>\<open>C3\<close> as it is worded. The stored document \<^verbatim>\<open>{"expenses":null}\<close> has the
  field \<^verbatim>\<open>expenses\<close>, with the value \<^verbatim>\<open>null\<close>; the loaded state does not take it from
  the document, its \<^verbatim>\<open>expenses\<close> is the empty array.
\<close>

theorem loadState_present_field_counterexample:
  "getItem memStorage (localStorage (world_with doc_expenses_null)) LS_KEY
     = Inr (Some (Doc 0 (JsObject [(''expenses'', JsNull)]))) \<and>
   member [(''expenses'', JsNull)] ''expenses'' = Some JsNull \<and>
   of_json JsNull = JNull \<and>
   fst (loadState memStorage (world_with doc_expenses_null)) \<and>
   expenses (state (snd (loadState memStorage (world_with doc_expenses_null)))) = JArr [] \<and>
   expenses (state (snd (loadState memStorage (world_with doc_expenses_null)))) \<noteq> JNull"
proof -
  have g: "getItem memStorage (localStorage (world_with doc_expenses_null)) LS_KEY
     = Inr (Some (Doc 0 (JsObject [(''expenses'', JsNull)])))"
    using getItem_world_with [of doc_expenses_null] by (simp add: doc_expenses_null_def)
  have m: "member [(''expenses'', JsNull)] ''expenses'' = Some JsNull"
    by (simp add: member_def)
  have e: "expenses (state (snd (loadState memStorage (world_with doc_expenses_null)))) = JArr []"
    unfolding loadState_object [OF g]
    by (simp add: parsed_field_present [OF m] js_or_def)
  have f: "fst (loadState memStorage (world_with doc_expenses_null))"
    unfolding loadState_object [OF g] by simp
  from g m e f show ?thesis by simp
qed

text \<open>
  \<^bold>\<open>C10\<close>. When the stored string is the text of an object, a field that the object
  has with one of the values \<^verbatim>\<open>null\<close>, \<^verbatim>\<open>false\<close>, \<open>0\<close> and the empty string is given
  its default by \<open>loadState\<close>, as a missing field is; with any other value, among them
  every array and so the empty one, the field keeps the value of the document.
\<close>

theorem loadState_replaces_falsy_fields:
  "getItem api (localStorage w) LS_KEY = Inr (Some (Doc n (JsObject kvs))) \<longrightarrow>
     (\<forall>k \<in> set field_names. \<forall>j. member kvs k = Some j \<longrightarrow>
        (j \<in> {JsNull, JsBool False, JsNumber 0, JsString []} \<longrightarrow>
           field k (state (snd (loadState api w))) = field k (load_default (DEFAULT w))) \<and>
        (j \<notin> {JsNull, JsBool False, JsNumber 0, JsString []} \<longrightarrow>
           field k (state (snd (loadState api w))) = of_json j) \<and>
        (\<forall>xs. j = JsArray xs \<longrightarrow>
           field k (state (snd (loadState api w))) = JArr (map of_json xs)))"
proof (intro impI ballI allI)
  fix k j
  assume g: "getItem api (localStorage w) LS_KEY = Inr (Some (Doc n (JsObject kvs)))"
    and k: "k \<in> set field_names" and m: "member kvs k = Some j"
  have f: "field k (state (snd (loadState api w)))
           = js_or (of_json j) (field k (load_default (DEFAULT w)))"
    unfolding field_loadState_object [OF g k] parsed_field_present [OF m] ..
  show "(j \<in> {JsNull, JsBool False, JsNumber 0, JsString []} \<longrightarrow>
           field k (state (snd (loadState api w))) = field k (load_default (DEFAULT w))) \<and>
        (j \<notin> {JsNull, JsBool False, JsNumber 0, JsString []} \<longrightarrow>
           field k (state (snd (loadState api w))) = of_json j) \<and>
        (\<forall>xs. j = JsArray xs \<longrightarrow>
           field k (state (snd (loadState api w))) = JArr (map of_json xs))"
    unfolding f using truthy_of_json [of j] by (auto simp: js_or_def)
qed

text \<open>The stored document \<^verbatim>\<open>{"expenseCategories":null,"expenses":[]}\<close>: the categories
  loaded are those of \<^verbatim>\<open>DEFAULT\<close>, and the expenses are the empty array of the
  document.\<close>

theorem loadState_replaces_falsy_fields_witness:
  "getItem memStorage (localStorage (world_with doc_categories_null)) LS_KEY
     = Inr (Some (Doc 0 (JsObject [(''expenseCategories'', JsNull), (''expenses'', JsArray [])]))) \<and>
   member [(''expenseCategories'', JsNull), (''expenses'', JsArray [])] ''expenseCategories''
     = Some JsNull \<and>
   member [(''expenseCategories'', JsNull), (''expenses'', JsArray [])] ''expenses''
     = Some (JsArray []) \<and>
   expenseCategories (state (snd (loadState memStorage (world_with doc_categories_null))))
     = expenseCategories DEFAULT_literal \<and>
   expenses (state (snd (loadState memStorage (world_with doc_categories_null)))) = JArr []"
proof -
  let ?w = "world_with doc_categories_null"
  let ?kvs = "[(''expenseCategories'', JsNull), (''expenses'', JsArray [])]"
  have g: "getItem memStorage (localStorage ?w) LS_KEY = Inr (Some (Doc 0 (JsObject ?kvs)))"
    using getItem_world_with [of doc_categories_null] by (simp add: doc_categories_null_def)
  have m: "member ?kvs ''expenseCategories'' = Some JsNull"
    "member ?kvs ''expenses'' = Some (JsArray [])"
    by (simp_all add: member_def)
  have d: "expenseCategories (load_default (DEFAULT ?w)) = expenseCategories DEFAULT_literal"
    by (simp add: DEFAULT_world_with load_default_def)
  from loadState_replaces_falsy_fields [of memStorage ?w 0 ?kvs] g
  have b: "\<forall>k \<in> set field_names. \<forall>j. member ?kvs k = Some j \<longrightarrow>
        (j \<in> {JsNull, JsBool False, JsNumber 0, JsString []} \<longrightarrow>
           field k (state (snd (loadState memStorage ?w))) = field k (load_default (DEFAULT ?w))) \<and>
        (j \<notin> {JsNull, JsBool False, JsNumber 0, JsString []} \<longrightarrow>
           field k (state (snd (loadState memStorage ?w))) = of_json j) \<and>
        (\<forall>xs. j = JsArray xs \<longrightarrow>
           field k (state (snd (loadState memStorage ?w))) = JArr (map of_json xs))"
    by blast
  from b [rule_format, OF field_names_mem(1) m(1)] d
  have e1: "expenseCategories (state (snd (loadState memStorage ?w)))
            = expenseCategories DEFAULT_literal"
    unfolding field_simps by simp
  from b [rule_format, OF field_names_mem(4) m(2)]
  have e2: "expenses (state (snd (loadState memStorage ?w))) = JArr []"
    unfolding field_simps by simp
  from g m e1 e2 show ?thesis by simp
qed


subsection \<open>Deleting an id that is not there\<close>

lemma filter_exn_all:
  "\<forall>x \<in> set xs. p x = Inr True \<Longrightarrow> filter_exn p xs = Inr xs"
  by (induction xs) simp_all

lemma without_id_absent:
  assumes "c = JArr xs" and "\<forall>x \<in> set xs. \<exists>v. get_prop x ''id'' = Inr v \<and> v \<noteq> JStr i"
  shows "without_id i c = Inr c"
proof -
  from assms(2) have "\<forall>x \<in> set xs. prop_differs ''id'' i x = Inr True"
    by (auto simp: prop_differs_def)
  from filter_exn_all [OF this] assms(1) show ?thesis by (simp add: without_id_def)
qed

lemma render_and_save_no_exception:
  "renderAll_returns e \<Longrightarrow> \<exists>b. fst (render_and_save api e w) = Done b"
  by (cases "saveState api w") (auto simp: render_and_save_def)

lemma deleteExpense_absent:
  assumes "expenses (state w) = JArr xs"
    and "\<forall>x \<in> set xs. \<exists>v. get_prop x ''id'' = Inr v \<and> v \<noteq> JStr i"
  shows "state (snd (deleteExpense api e i w)) = state w"
    and "renderAll_returns e \<Longrightarrow>
         fst (deleteExpense api e i w) = Cancelled \<or> (\<exists>b. fst (deleteExpense api e i w) = Done b)"
proof -
  note a = without_id_absent [OF assms]
  have u: "(state w)\<lparr>expenses := expenses (state w)\<rparr> = state w" by simp
  show "state (snd (deleteExpense api e i w)) = state w"
    unfolding deleteExpense_def a by (simp add: render_and_save_state u)
  show "fst (deleteExpense api e i w) = Cancelled \<or> (\<exists>b. fst (deleteExpense api e i w) = Done b)"
    if "renderAll_returns e"
    unfolding deleteExpense_def a using render_and_save_no_exception [OF that] by auto
qed

lemma deleteIncome_absent:
  assumes "incomes (state w) = JArr xs"
    and "\<forall>x \<in> set xs. \<exists>v. get_prop x ''id'' = Inr v \<and> v \<noteq> JStr i"
  shows "state (snd (deleteIncome api e i w)) = state w"
    and "renderAll_returns e \<Longrightarrow>
         fst (deleteIncome api e i w) = Cancelled \<or> (\<exists>b. fst (deleteIncome api e i w) = Done b)"
proof -
  note a = without_id_absent [OF assms]
  have u: "(state w)\<lparr>incomes := incomes (state w)\<rparr> = state w" by simp
  show "state (snd (deleteIncome api e i w)) = state w"
    unfolding deleteIncome_def a by (simp add: render_and_save_state u)
  show "fst (deleteIncome api e i w) = Cancelled \<or> (\<exists>b. fst (deleteIncome api e i w) = Done b)"
    if "renderAll_returns e"
    unfolding deleteIncome_def a using render_and_save_no_exception [OF that] by auto
qed

text \<open>
  \<^bold>\<open>C8\<close>. When the expenses are an array in which every entry has an \<^verbatim>\<open>id\<close> other
  than the one given, \<open>deleteExpense\<close> leaves the expenses, and the whole state, equal
  to what they were, whatever the user answers to the confirmation; and no exception
  leaves the handler, which ends cancelled or after its save, as long as the rendering
  of the page does not throw. The same holds of \<open>deleteIncome\<close> and the incomes.
\<close>

theorem delete_absent_id_changes_nothing:
  "(expenses (state w) = JArr xs
      \<and> (\<forall>x \<in> set xs. \<exists>v. get_prop x ''id'' = Inr v \<and> v \<noteq> JStr i)
    \<longrightarrow> expenses (state (snd (deleteExpense api e i w))) = JArr xs
        \<and> state (snd (deleteExpense api e i w)) = state w
        \<and> (renderAll_returns e \<longrightarrow>
             fst (deleteExpense api e i w) = Cancelled
             \<or> (\<exists>b. fst (deleteExpense api e i w) = Done b))) \<and>
   (incomes (state w) = JArr ys
      \<and> (\<forall>y \<in> set ys. \<exists>v. get_prop y ''id'' = Inr v \<and> v \<noteq> JStr i)
    \<longrightarrow> incomes (state (snd (deleteIncome api e i w))) = JArr ys
        \<and> state (snd (deleteIncome api e i w)) = state w
        \<and> (renderAll_returns e \<longrightarrow>
             fst (deleteIncome api e i w) = Cancelled
             \<or> (\<exists>b. fst (deleteIncome api e i w) = Done b)))"
  using deleteExpense_absent [where w = w and xs = xs and i = i and api = api and e = e]
    deleteIncome_absent [where w = w and xs = ys and i = i and api = api and e = e]
  by simp

lemma state_world_mat:
  "state world_mat = (state world0)\<lparr>expenses := JArr [new_expense env0 form_mat (Fin (2120913949514793 / 2 ^ 44))]\<rparr>"
  unfolding world_mat_def
  using onAddExpense_state [OF form_mat_valid(1,2,3,4) world0_fields(1), of memStorage env0]
  by simp

lemma generateId_env0_not_empty: "generateId env0 \<noteq> []"
  by (simp add: generateId_def env0_def)

text \<open>The state with the one expense added above, whose id is not the empty string,
  and no income: deleting the expense and the income of the empty id, with the
  confirmation given.\<close>

theorem delete_absent_id_changes_nothing_witness:
  "expenses (state world_mat) = JArr [new_expense env0 form_mat (Fin (2120913949514793 / 2 ^ 44))] \<and>
   get_prop (new_expense env0 form_mat (Fin (2120913949514793 / 2 ^ 44))) ''id'' = Inr (JStr (generateId env0)) \<and>
   generateId env0 \<noteq> [] \<and> confirm env0 \<and> renderAll_returns env0 \<and>
   expenses (state (snd (deleteExpense memStorage env0 [] world_mat)))
     = JArr [new_expense env0 form_mat (Fin (2120913949514793 / 2 ^ 44))] \<and>
   state (snd (deleteExpense memStorage env0 [] world_mat)) = state world_mat \<and>
   (fst (deleteExpense memStorage env0 [] world_mat) = Cancelled
    \<or> (\<exists>b. fst (deleteExpense memStorage env0 [] world_mat) = Done b)) \<and>
   incomes (state world_mat) = JArr [] \<and>
   incomes (state (snd (deleteIncome memStorage env0 [] world_mat))) = JArr [] \<and>
   state (snd (deleteIncome memStorage env0 [] world_mat)) = state world_mat"
proof -
  have x: "expenses (state world_mat) = JArr [new_expense env0 form_mat (Fin (2120913949514793 / 2 ^ 44))]"
    by (rule expenses_world_mat)
  have y: "incomes (state world_mat) = JArr []"
    by (simp add: state_world_mat world0_fields)
  have i: "get_prop (new_expense env0 form_mat (Fin (2120913949514793 / 2 ^ 44))) ''id''
           = Inr (JStr (generateId env0))"
    by (simp add: new_expense_props generateId_def)
  have h1: "\<forall>x \<in> set [new_expense env0 form_mat (Fin (2120913949514793 / 2 ^ 44))].
              \<exists>v. get_prop x ''id'' = Inr v \<and> v \<noteq> JStr []"
    using i generateId_env0_not_empty by simp
  have h2: "\<forall>y \<in> set ([] :: jsval list). \<exists>v. get_prop y ''id'' = Inr v \<and> v \<noteq> JStr []"
    by simp
  have c: "confirm env0" "renderAll_returns env0" by (simp_all add: env0_def)
  from delete_absent_id_changes_nothing
         [where w = world_mat and xs = "[new_expense env0 form_mat (Fin (2120913949514793 / 2 ^ 44))]" and i = "[]"
            and api = memStorage and e = env0 and ys = "[]"]
       x y h1 h2 c i generateId_env0_not_empty
  show ?thesis by simp
qed


subsection \<open>Spent by category\<close>















end
